theory Spec2Isabelle
  imports Complex_Main "HOL-Library.Monad_Syntax"
begin

section \<open>Geometric predicates\<close>

text \<open>The three-valued result of the geometric predicates (\<open>Sign\<close> of geogram).\<close>

datatype Sign = NEGATIVE | ZERO | POSITIVE

text \<open>A point is what a \<open>const double*\<close> into the coordinate buffer gives access to:
  its first three components. The exact predicates decide the sign of a polynomial in
  the mathematical values of the coordinates, so coordinates are modelled by their
  real values.\<close>

type_synonym point = "real \<times> real \<times> real"

definition geo_sgn :: "real \<Rightarrow> Sign" where
  "geo_sgn x = (if x > 0 then POSITIVE else if x < 0 then NEGATIVE else ZERO)"

text \<open>Modelled from the spec: \<open>det3x3\<close> (geogram/basic/matrix.h) is not part of the
  sources at hand; it is the determinant of the 3x3 matrix given row by row.\<close>

definition det3x3 :: "real \<Rightarrow> real \<Rightarrow> real \<Rightarrow> real \<Rightarrow> real \<Rightarrow> real \<Rightarrow> real \<Rightarrow> real \<Rightarrow> real \<Rightarrow> real" where
  "det3x3 a11 a12 a13 a21 a22 a23 a31 a32 a33 =
     a11 * (a22 * a33 - a23 * a32) - a12 * (a21 * a33 - a23 * a31) + a13 * (a21 * a32 - a22 * a31)"

text \<open>The signed volume that \<open>orient_3d_inexact\<close> evaluates (in floating point) and
  whose sign \<open>PCK::orient_3d\<close> returns exactly.\<close>

definition orient_3d_Delta :: "point \<Rightarrow> point \<Rightarrow> point \<Rightarrow> point \<Rightarrow> real" where
  "orient_3d_Delta p0 p1 p2 p3 =
     (case (p0, p1, p2, p3) of ((x0, y0, z0), (x1, y1, z1), (x2, y2, z2), (x3, y3, z3)) \<Rightarrow>
        det3x3 (x1 - x0) (y1 - y0) (z1 - z0)
               (x2 - x0) (y2 - y0) (z2 - z0)
               (x3 - x0) (y3 - y0) (z3 - z0))"

text \<open>Modelled from the spec: \<open>PCK::orient_3d\<close> (the exact predicate layer) is an external
  dependency; the spec gives it as the orientation of \<open>(p0,p1,p2,p3)\<close> with the correct
  sign even under floating-point cancellation, that is the sign of the exact value of
  the determinant that \<open>orient_3d_inexact\<close> approximates.\<close>

definition orient_3d :: "point \<Rightarrow> point \<Rightarrow> point \<Rightarrow> point \<Rightarrow> Sign" where
  "orient_3d p0 p1 p2 p3 = geo_sgn (orient_3d_Delta p0 p1 p2 p3)"

definition points_are_identical :: "point \<Rightarrow> point \<Rightarrow> bool" where
  "points_are_identical p1 p2 =
     (fst p1 = fst p2 \<and> fst (snd p1) = fst (snd p2) \<and> snd (snd p1) = snd (snd p2))"

definition q000 :: point where "q000 = (0, 0, 0)"
definition q001 :: point where "q001 = (0, 0, 1)"
definition q010 :: point where "q010 = (0, 1, 0)"
definition q100 :: point where "q100 = (1, 0, 0)"

definition points_are_colinear :: "point \<Rightarrow> point \<Rightarrow> point \<Rightarrow> bool" where
  "points_are_colinear p1 p2 p3 =
     (orient_3d p1 p2 p3 q000 = ZERO \<and>
      orient_3d p1 p2 p3 q001 = ZERO \<and>
      orient_3d p1 p2 p3 q010 = ZERO \<and>
      orient_3d p1 p2 p3 q100 = ZERO)"

text \<open>The mathematical notion the helper is meant to decide: the three points lie on a
  common line \<open>a + t * d\<close> (a degenerate direction \<open>d = 0\<close> covers three identical points).\<close>

definition on_line :: "point \<Rightarrow> point \<Rightarrow> point \<Rightarrow> bool" where
  "on_line a d p =
     (\<exists>t. fst p = fst a + t * fst d \<and>
          fst (snd p) = fst (snd a) + t * fst (snd d) \<and>
          snd (snd p) = snd (snd a) + t * snd (snd d))"

definition collinear3 :: "point \<Rightarrow> point \<Rightarrow> point \<Rightarrow> bool" where
  "collinear3 p1 p2 p3 = (\<exists>a d. on_line a d p1 \<and> on_line a d p2 \<and> on_line a d p3)"

section \<open>The facet/vertex duality tables\<close>

definition halfedge_facet_table :: "nat list list" where
  "halfedge_facet_table =
     [[4, 2, 3, 1],
      [3, 4, 0, 2],
      [1, 3, 4, 0],
      [2, 0, 1, 4]]"

definition halfedge_facet :: "nat \<Rightarrow> nat \<Rightarrow> nat" where
  "halfedge_facet f1 f2 = halfedge_facet_table ! f1 ! f2"

definition tet_facet_vertex_table :: "nat list list" where
  "tet_facet_vertex_table =
     [[1, 2, 3],
      [0, 3, 2],
      [3, 0, 1],
      [1, 0, 2]]"

definition tet_facet_vertex :: "nat \<Rightarrow> nat \<Rightarrow> nat" where
  "tet_facet_vertex f v = tet_facet_vertex_table ! f ! v"


section \<open>Double-precision arithmetic\<close>

text \<open>The coordinates handed to the program are finite doubles; they are modelled by the
  real numbers they denote. The lifted heights are the one place where the program
  computes new doubles from them, so the arithmetic of that loop is modelled with its
  rounding: every operation yields the double nearest to the exact result, ties going to
  the even significand, and a result of magnitude \<open>2^1024\<close> or more is an infinity (IEEE 754
  binary64 in the default rounding mode, each operation rounded on its own). The two
  zeros are not distinguished.\<close>

datatype double = Finite real | PlusInfinity | MinusInfinity | NaN

definition pow2 :: "int \<Rightarrow> real" where
  "pow2 e = (if 0 \<le> e then 2 ^ nat e else 1 / 2 ^ nat (- e))"

text \<open>The number of binary digits of a natural number.\<close>

fun bit_length :: "nat \<Rightarrow> nat" where
  "bit_length n = (if n = 0 then 0 else Suc (bit_length (n div 2)))"

declare bit_length.simps [simp del]

text \<open>The exponent \<open>e\<close> with \<open>2^e \<le> |x| < 2^(e+1)\<close>, for \<open>x\<close> other than zero.\<close>

definition binade :: "real \<Rightarrow> int" where
  "binade x = (if 1 \<le> \<bar>x\<bar> then int (bit_length (nat \<lfloor>\<bar>x\<bar>\<rfloor>)) - 1
               else - int (bit_length (nat (\<lceil>1 / \<bar>x\<bar>\<rceil> - 1))))"

text \<open>Rounding to the nearest integer, a tie going to the even one.\<close>

definition round_to_even :: "real \<Rightarrow> int" where
  "round_to_even x =
     (if x - of_int \<lfloor>x\<rfloor> < 1 / 2 then \<lfloor>x\<rfloor>
      else if 1 / 2 < x - of_int \<lfloor>x\<rfloor> then \<lfloor>x\<rfloor> + 1
      else if even \<lfloor>x\<rfloor> then \<lfloor>x\<rfloor> else \<lfloor>x\<rfloor> + 1)"

text \<open>The exponent of the last place of the doubles around \<open>x\<close>: 53 significant bits, and
  the fixed spacing \<open>2^-1074\<close> of the subnormal range below \<open>2^-1022\<close>.\<close>

definition quantum :: "real \<Rightarrow> int" where
  "quantum x = max (binade x) (- 1022) - 52"

definition round_double :: "real \<Rightarrow> double" where
  "round_double x =
     (if x = 0 then Finite 0
      else if 2 ^ 1024 \<le> \<bar>of_int (round_to_even (x / pow2 (quantum x))) * pow2 (quantum x)\<bar>
      then (if 0 < x then PlusInfinity else MinusInfinity)
      else Finite (of_int (round_to_even (x / pow2 (quantum x))) * pow2 (quantum x)))"

definition dneg :: "double \<Rightarrow> double" where
  "dneg a = (case a of Finite x \<Rightarrow> Finite (- x) | PlusInfinity \<Rightarrow> MinusInfinity
             | MinusInfinity \<Rightarrow> PlusInfinity | NaN \<Rightarrow> NaN)"

definition dadd :: "double \<Rightarrow> double \<Rightarrow> double" where
  "dadd a b =
     (case (a, b) of
        (Finite x, Finite y) \<Rightarrow> round_double (x + y)
      | (Finite x, PlusInfinity) \<Rightarrow> PlusInfinity
      | (Finite x, MinusInfinity) \<Rightarrow> MinusInfinity
      | (PlusInfinity, Finite y) \<Rightarrow> PlusInfinity
      | (PlusInfinity, PlusInfinity) \<Rightarrow> PlusInfinity
      | (MinusInfinity, Finite y) \<Rightarrow> MinusInfinity
      | (MinusInfinity, MinusInfinity) \<Rightarrow> MinusInfinity
      | _ \<Rightarrow> NaN)"

text \<open>Modelled from the spec: \<open>geo_sqr\<close> (geogram/basic/numeric.h) is not part of the
  sources at hand; it is the square of its argument, here of a double.\<close>

definition geo_sqr :: "real \<Rightarrow> double" where
  "geo_sqr x = round_double (x * x)"

section \<open>The tetrahedron store\<close>

text \<open>Indices (\<open>index_t\<close>, \<open>signed_index_t\<close>) are modelled by the integers their bit
  patterns denote when read as signed numbers, so that \<open>index_t(-1)\<close> and \<open>-1\<close> are the
  same value. Sums and products of indices are those of the integers: the numbers of
  vertices and of cells are taken to stay within the range of the index type. An access
  outside a vector is undefined behaviour in the program; in the model it has no result
  (\<open>None\<close>).\<close>

definition get_at :: "'a list \<Rightarrow> int \<Rightarrow> 'a option" where
  "get_at xs i = (if 0 \<le> i \<and> i < int (length xs) then Some (xs ! nat i) else None)"

definition set_at :: "'a list \<Rightarrow> int \<Rightarrow> 'a \<Rightarrow> 'a list option" where
  "set_at xs i x = (if 0 \<le> i \<and> i < int (length xs) then Some (xs[nat i := x]) else None)"

definition NO_TETRAHEDRON :: int where "NO_TETRAHEDRON = -1"
definition VERTEX_AT_INFINITY :: int where "VERTEX_AT_INFINITY = -1"

text \<open>Modelled from the spec: the header delaunay_3d.h, which declares the constants of
  the \<open>next\<close> field, is not part of the sources at hand. The field doubles as list link,
  as "not in a list" marker and as mark stamp; a value is a list link exactly when its top
  bit is clear, that is when it is non-negative as a signed number.\<close>

definition NOT_IN_LIST :: int where "NOT_IN_LIST = -1"
definition END_OF_LIST :: int where "END_OF_LIST = 2147483647"

record Delaunay3d =
  weighted :: bool
  keep_infinite :: bool
  do_reorder :: bool
  nb_vertices :: int
  vertices :: "real list"
  heights :: "double list"
  reorder :: "int list"
  cell_to_v_store :: "int list"
  cell_to_cell_store :: "int list"
  cell_next :: "int list"
  first_free :: int
  cur_stamp :: int
  nb_cells :: int
  nb_finite_cells :: int

definition vertex_stride :: "Delaunay3d \<Rightarrow> int" where
  "vertex_stride s = (if weighted s then 4 else 3)"

text \<open>Reading the three spatial coordinates behind \<open>vertex_ptr(v)\<close>.\<close>

definition vertex_ptr :: "Delaunay3d \<Rightarrow> int \<Rightarrow> point option" where
  "vertex_ptr s v = do {
     x \<leftarrow> get_at (vertices s) (vertex_stride s * v);
     y \<leftarrow> get_at (vertices s) (vertex_stride s * v + 1);
     z \<leftarrow> get_at (vertices s) (vertex_stride s * v + 2);
     Some (x, y, z)
   }"

text \<open>Modelled from the spec: the accessors of the tetrahedron store (section 4.1 of the
  spec) are declared in the missing header. \<open>max_t\<close> is the number of allocated cells,
  free ones included.\<close>

definition max_t :: "Delaunay3d \<Rightarrow> int" where
  "max_t s = int (length (cell_next s))"

definition tet_vertex :: "Delaunay3d \<Rightarrow> int \<Rightarrow> int \<Rightarrow> int option" where
  "tet_vertex s t lv = get_at (cell_to_v_store s) (4 * t + lv)"

definition set_tet_vertex :: "Delaunay3d \<Rightarrow> int \<Rightarrow> int \<Rightarrow> int \<Rightarrow> Delaunay3d option" where
  "set_tet_vertex s t lv v = do {
     vs \<leftarrow> set_at (cell_to_v_store s) (4 * t + lv) v;
     Some (s\<lparr>cell_to_v_store := vs\<rparr>)
   }"

definition tet_adjacent :: "Delaunay3d \<Rightarrow> int \<Rightarrow> int \<Rightarrow> int option" where
  "tet_adjacent s t lf = get_at (cell_to_cell_store s) (4 * t + lf)"

definition set_tet_adjacent :: "Delaunay3d \<Rightarrow> int \<Rightarrow> int \<Rightarrow> int \<Rightarrow> Delaunay3d option" where
  "set_tet_adjacent s t lf t2 = do {
     cs \<leftarrow> set_at (cell_to_cell_store s) (4 * t + lf) t2;
     Some (s\<lparr>cell_to_cell_store := cs\<rparr>)
   }"

text \<open>Modelled from the spec: \<open>finite_vertex(cell, local_index)\<close> returns a
  coordinate-bearing vertex, substituting the next slot of the cell when the slot holds the
  infinite vertex.\<close>

definition finite_tet_vertex :: "Delaunay3d \<Rightarrow> int \<Rightarrow> int \<Rightarrow> int option" where
  "finite_tet_vertex s t lv = do {
     r \<leftarrow> get_at (cell_to_v_store s) (4 * t + lv);
     if r = -1 then get_at (cell_to_v_store s) (4 * t + (lv + 1) mod 4) else Some r
   }"

definition tet_is_in_list :: "Delaunay3d \<Rightarrow> int \<Rightarrow> bool option" where
  "tet_is_in_list s t = do { n \<leftarrow> get_at (cell_next s) t; Some (0 \<le> n) }"

definition tet_next :: "Delaunay3d \<Rightarrow> int \<Rightarrow> int option" where
  "tet_next s t = get_at (cell_next s) t"

definition tet_is_free :: "Delaunay3d \<Rightarrow> int \<Rightarrow> bool option" where
  "tet_is_free s t = tet_is_in_list s t"

text \<open>Modelled from the spec: \<open>is_virtual(cell)\<close> (any vertex is the vertex at infinity)
  and \<open>is_finite(cell)\<close> (its complement); a real cell is a finite cell that is not free.\<close>

definition tet_is_virtual :: "Delaunay3d \<Rightarrow> int \<Rightarrow> bool option" where
  "tet_is_virtual s t = do {
     v0 \<leftarrow> tet_vertex s t 0;
     v1 \<leftarrow> tet_vertex s t 1;
     v2 \<leftarrow> tet_vertex s t 2;
     v3 \<leftarrow> tet_vertex s t 3;
     Some (v0 = VERTEX_AT_INFINITY \<or> v1 = VERTEX_AT_INFINITY \<or>
           v2 = VERTEX_AT_INFINITY \<or> v3 = VERTEX_AT_INFINITY)
   }"

definition tet_is_finite :: "Delaunay3d \<Rightarrow> int \<Rightarrow> bool option" where
  "tet_is_finite s t = do { b \<leftarrow> tet_is_virtual s t; Some (\<not> b) }"

definition tet_is_real :: "Delaunay3d \<Rightarrow> int \<Rightarrow> bool option" where
  "tet_is_real s t = do {
     fr \<leftarrow> tet_is_free s t;
     if fr then Some False else tet_is_finite s t
   }"

text \<open>Modelled from the spec: the mark stamp of an insertion is derived from the index of
  the inserted vertex by setting the top bit, so that a stamp is never a list link.\<close>

definition set_tet_mark_stamp :: "Delaunay3d \<Rightarrow> int \<Rightarrow> Delaunay3d" where
  "set_tet_mark_stamp s stamp = s\<lparr>cur_stamp := stamp mod 2147483648 - 2147483648\<rparr>"

definition tet_is_marked :: "Delaunay3d \<Rightarrow> int \<Rightarrow> bool option" where
  "tet_is_marked s t = do { n \<leftarrow> get_at (cell_next s) t; Some (n = cur_stamp s) }"

definition mark_tet :: "Delaunay3d \<Rightarrow> int \<Rightarrow> Delaunay3d option" where
  "mark_tet s t = do {
     ns \<leftarrow> set_at (cell_next s) t (cur_stamp s);
     Some (s\<lparr>cell_next := ns\<rparr>)
   }"

text \<open>Modelled from the spec: the conflict list is a singly linked list through the
  \<open>next\<close> field, with \<open>first\<close> and \<open>last\<close> kept by the caller; a cell is pushed at the
  front.\<close>

definition add_tet_to_list :: "Delaunay3d \<Rightarrow> int \<Rightarrow> int \<Rightarrow> int \<Rightarrow> (Delaunay3d \<times> int \<times> int) option" where
  "add_tet_to_list s t first lst =
     (if lst = END_OF_LIST then do {
        ns \<leftarrow> set_at (cell_next s) t END_OF_LIST;
        Some (s\<lparr>cell_next := ns\<rparr>, t, t)
      } else do {
        ns \<leftarrow> set_at (cell_next s) t first;
        Some (s\<lparr>cell_next := ns\<rparr>, t, lst)
      })"

text \<open>Modelled from the spec: \<open>new_tetrahedron(v0,v1,v2,v3)\<close> allocates from the free list
  or appends, and sets the vertex slots; the neighbor slots of the cell are unset (\<open>-1\<close>)
  until the caller links them, which is what \<open>stellate_conflict_zone\<close> tests for.\<close>

definition new_tetrahedron :: "Delaunay3d \<Rightarrow> int \<Rightarrow> int \<Rightarrow> int \<Rightarrow> int \<Rightarrow> (int \<times> Delaunay3d) option" where
  "new_tetrahedron s v0 v1 v2 v3 = do {
     (r, s1) \<leftarrow>
       (if first_free s = END_OF_LIST then
          Some (max_t s,
                s\<lparr>cell_to_v_store := cell_to_v_store s @ [-1, -1, -1, -1],
                  cell_to_cell_store := cell_to_cell_store s @ [-1, -1, -1, -1],
                  cell_next := cell_next s @ [NOT_IN_LIST]\<rparr>)
        else do {
          nxt \<leftarrow> tet_next s (first_free s);
          ns \<leftarrow> set_at (cell_next s) (first_free s) NOT_IN_LIST;
          Some (first_free s, s\<lparr>first_free := nxt, cell_next := ns\<rparr>)
        });
     s2 \<leftarrow> set_tet_adjacent s1 r 0 (-1);
     s3 \<leftarrow> set_tet_adjacent s2 r 1 (-1);
     s4 \<leftarrow> set_tet_adjacent s3 r 2 (-1);
     s5 \<leftarrow> set_tet_adjacent s4 r 3 (-1);
     s6 \<leftarrow> set_tet_vertex s5 r 0 v0;
     s7 \<leftarrow> set_tet_vertex s6 r 1 v1;
     s8 \<leftarrow> set_tet_vertex s7 r 2 v2;
     s9 \<leftarrow> set_tet_vertex s8 r 3 v3;
     Some (r, s9)
   }"

text \<open>Modelled from the spec: the local index of a given neighbor or vertex in a cell;
  the program asserts that it exists, so there is no result when it does not.\<close>

definition find_4 :: "Delaunay3d \<Rightarrow> (Delaunay3d \<Rightarrow> int \<Rightarrow> int \<Rightarrow> int option) \<Rightarrow> int \<Rightarrow> int \<Rightarrow> int option" where
  "find_4 s get t x = do {
     a0 \<leftarrow> get s t 0;
     a1 \<leftarrow> get s t 1;
     a2 \<leftarrow> get s t 2;
     a3 \<leftarrow> get s t 3;
     if a0 = x then Some 0 else if a1 = x then Some 1
     else if a2 = x then Some 2 else if a3 = x then Some 3 else None
   }"

definition find_tet_adjacent :: "Delaunay3d \<Rightarrow> int \<Rightarrow> int \<Rightarrow> int option" where
  "find_tet_adjacent s t1 t2 = find_4 s tet_adjacent t1 t2"

definition find_tet_vertex :: "Delaunay3d \<Rightarrow> int \<Rightarrow> int \<Rightarrow> int option" where
  "find_tet_vertex s t v = find_4 s tet_vertex t v"

text \<open>The tables are \<open>char[4][4]\<close> and \<open>char[4][3]\<close>; an index outside them has no result.\<close>

definition halfedge_facet_at :: "int \<Rightarrow> int \<Rightarrow> int option" where
  "halfedge_facet_at f1 f2 =
     (if 0 \<le> f1 \<and> f1 < 4 \<and> 0 \<le> f2 \<and> f2 < 4 then Some (int (halfedge_facet (nat f1) (nat f2)))
      else None)"

text \<open>Modelled from the spec: the facet(s) of a cell that hold the edge between two of its
  vertices, read from the duality table.\<close>

definition get_facet_by_halfedge :: "Delaunay3d \<Rightarrow> int \<Rightarrow> int \<Rightarrow> int \<Rightarrow> int option" where
  "get_facet_by_halfedge s t v1 v2 = do {
     lv1 \<leftarrow> find_tet_vertex s t v1;
     lv2 \<leftarrow> find_tet_vertex s t v2;
     halfedge_facet_at lv1 lv2
   }"

definition get_facets_by_halfedge :: "Delaunay3d \<Rightarrow> int \<Rightarrow> int \<Rightarrow> int \<Rightarrow> (int \<times> int) option" where
  "get_facets_by_halfedge s t v1 v2 = do {
     lv1 \<leftarrow> find_tet_vertex s t v1;
     lv2 \<leftarrow> find_tet_vertex s t v2;
     f12 \<leftarrow> halfedge_facet_at lv1 lv2;
     f21 \<leftarrow> halfedge_facet_at lv2 lv1;
     Some (f12, f21)
   }"


section \<open>Point location\<close>

text \<open>A slot of the local array \<open>pv\<close> points either to a vertex of the buffer or to the
  query point. The coordinates are read when a predicate is called on them.\<close>

datatype ptr = Vtx int | Query

definition deref :: "Delaunay3d \<Rightarrow> point option \<Rightarrow> ptr \<Rightarrow> point option" where
  "deref s p q = (case q of Vtx v \<Rightarrow> vertex_ptr s v | Query \<Rightarrow> p)"

definition orient_pv ::
  "(point \<Rightarrow> point \<Rightarrow> point \<Rightarrow> point \<Rightarrow> Sign) \<Rightarrow> Delaunay3d \<Rightarrow> point option \<Rightarrow> ptr list \<Rightarrow> Sign option" where
  "orient_pv ori s p pv = do {
     a \<leftarrow> deref s p (pv ! 0);
     b \<leftarrow> deref s p (pv ! 1);
     c \<leftarrow> deref s p (pv ! 2);
     d \<leftarrow> deref s p (pv ! 3);
     Some (ori a b c d)
   }"

definition load_pv :: "Delaunay3d \<Rightarrow> int \<Rightarrow> ptr list option" where
  "load_pv s t = do {
     v0 \<leftarrow> finite_tet_vertex s t 0;
     v1 \<leftarrow> finite_tet_vertex s t 1;
     v2 \<leftarrow> finite_tet_vertex s t 2;
     v3 \<leftarrow> finite_tet_vertex s t 3;
     Some [Vtx v0, Vtx v1, Vtx v2, Vtx v3]
   }"

text \<open>\<open>Numeric::random_int32()\<close> is a stream of numbers \<open>rnd\<close> read at position \<open>k\<close>.
  The loop that draws a random non-free cell may run forever; it is given fuel. It divides
  by \<open>max_t()\<close>, which has no result when there is no cell.\<close>

fun random_hint :: "nat \<Rightarrow> (nat \<Rightarrow> int) \<Rightarrow> Delaunay3d \<Rightarrow> nat \<Rightarrow> (int \<times> nat) option" where
  "random_hint 0 rnd s k = None"
| "random_hint (Suc n) rnd s k =
     (if max_t s = 0 then None
      else do {
        let hint = (rnd k mod 4294967296) mod max_t s;
        fr \<leftarrow> tet_is_free s hint;
        if fr then random_hint n rnd s (k + 1) else Some (hint, k + 1)
      })"

text \<open>A virtual hint is replaced by its neighbor opposite to the infinite vertex.\<close>

fun real_neighbor :: "Delaunay3d \<Rightarrow> int \<Rightarrow> int list \<Rightarrow> int option" where
  "real_neighbor s hint [] = Some hint"
| "real_neighbor s hint (lf # lfs) = do {
     v \<leftarrow> tet_vertex s hint lf;
     if v = VERTEX_AT_INFINITY then tet_adjacent s hint lf else real_neighbor s hint lfs
   }"

definition real_start :: "Delaunay3d \<Rightarrow> int \<Rightarrow> int option" where
  "real_start s hint = do {
     virt \<leftarrow> tet_is_virtual s hint;
     if virt then real_neighbor s hint [0, 1, 2, 3] else Some hint
   }"

datatype ('r, 'c) step = Return 'r | Continue 'c

text \<open>One examination of a facet by \<open>locate_inexact\<close>. The configuration holds the locals
  of the walk: the current cell, the cell it came from, \<open>pv\<close>, the loop counter \<open>f\<close> and
  what is left of \<open>max_iter\<close> (an unsigned 32-bit counter). When the counter reaches zero
  the walk does not restart at the new cell: the loop over the facets goes on with the
  new \<open>t\<close> and \<open>t_pred\<close> and with \<open>pv\<close> as it is.\<close>

record iwalk =
  iw_t :: int
  iw_pred :: int
  iw_pv :: "ptr list"
  iw_f :: nat
  iw_max_iter :: int

definition locate_inexact_step ::
  "(point \<Rightarrow> point \<Rightarrow> point \<Rightarrow> point \<Rightarrow> Sign) \<Rightarrow> Delaunay3d \<Rightarrow> point option \<Rightarrow> iwalk \<Rightarrow> (int, iwalk) step option" where
  "locate_inexact_step ori_inexact s p w =
     (if iw_f w \<ge> 4 then Some (Return (iw_t w))
      else do {
        s_t_next \<leftarrow> tet_adjacent s (iw_t w) (int (iw_f w));
        if s_t_next = -1 then Some (Return NO_TETRAHEDRON)
        else if s_t_next = iw_pred w then Some (Continue (w\<lparr>iw_f := iw_f w + 1\<rparr>))
        else do {
          ori \<leftarrow> orient_pv ori_inexact s p ((iw_pv w)[iw_f w := Query]);
          if ori \<noteq> NEGATIVE then Some (Continue (w\<lparr>iw_f := iw_f w + 1\<rparr>))
          else do {
            virt \<leftarrow> tet_is_virtual s s_t_next;
            if virt then Some (Return s_t_next)
            else if (iw_max_iter w - 1) mod 4294967296 \<noteq> 0 then do {
              pv \<leftarrow> load_pv s s_t_next;
              Some (Continue \<lparr>iw_t = s_t_next, iw_pred = iw_t w, iw_pv = pv, iw_f = 0,
                              iw_max_iter = (iw_max_iter w - 1) mod 4294967296\<rparr>)
            } else
              Some (Continue \<lparr>iw_t = s_t_next, iw_pred = iw_t w,
                              iw_pv = (iw_pv w)[iw_f w := Query], iw_f = iw_f w + 1,
                              iw_max_iter = (iw_max_iter w - 1) mod 4294967296\<rparr>)
          }
        }
      })"

fun locate_inexact_run ::
  "nat \<Rightarrow> (point \<Rightarrow> point \<Rightarrow> point \<Rightarrow> point \<Rightarrow> Sign) \<Rightarrow> Delaunay3d \<Rightarrow> point option \<Rightarrow> iwalk \<Rightarrow> int option" where
  "locate_inexact_run 0 ori_inexact s p w = None"
| "locate_inexact_run (Suc n) ori_inexact s p w =
     (case locate_inexact_step ori_inexact s p w of
        None \<Rightarrow> None
      | Some (Return r) \<Rightarrow> Some r
      | Some (Continue w') \<Rightarrow> locate_inexact_run n ori_inexact s p w')"

text \<open>The configuration in which the inexact walk starts: a random cell when there is no
  hint, and the real neighbor of a virtual hint.\<close>

definition locate_inexact_start ::
  "nat \<Rightarrow> (nat \<Rightarrow> int) \<Rightarrow> Delaunay3d \<Rightarrow> int \<Rightarrow> int \<Rightarrow> nat \<Rightarrow> (iwalk \<times> nat) option" where
  "locate_inexact_start fuel rnd s hint max_iter k = do {
     (hint1, k1) \<leftarrow> (if hint = NO_TETRAHEDRON then random_hint fuel rnd s k else Some (hint, k));
     hint2 \<leftarrow> real_start s hint1;
     pv \<leftarrow> load_pv s hint2;
     Some (\<lparr>iw_t = hint2, iw_pred = NO_TETRAHEDRON, iw_pv = pv, iw_f = 0, iw_max_iter = max_iter\<rparr>, k1)
   }"

definition locate_inexact ::
  "nat \<Rightarrow> (point \<Rightarrow> point \<Rightarrow> point \<Rightarrow> point \<Rightarrow> Sign) \<Rightarrow> (nat \<Rightarrow> int) \<Rightarrow> Delaunay3d \<Rightarrow>
   point option \<Rightarrow> int \<Rightarrow> int \<Rightarrow> nat \<Rightarrow> (int \<times> nat) option" where
  "locate_inexact fuel ori_inexact rnd s p hint max_iter k = do {
     (w, k1) \<leftarrow> locate_inexact_start fuel rnd s hint max_iter k;
     r \<leftarrow> locate_inexact_run fuel ori_inexact s p w;
     Some (r, k1)
   }"

text \<open>One examination of a facet by \<open>locate\<close>. The configuration holds the current cell,
  the cell it came from, \<open>pv\<close>, the random first facet \<open>f0\<close>, the loop counter \<open>df\<close>, the
  four orientation slots reported to the caller (a slot that was never written holds no
  value) and the position in the random stream.\<close>

record walk =
  w_t :: int
  w_pred :: int
  w_pv :: "ptr list"
  w_f0 :: nat
  w_df :: nat
  w_orient :: "Sign option list"
  w_k :: nat

definition examined_facet :: "walk \<Rightarrow> nat" where
  "examined_facet w = (w_f0 w + w_df w) mod 4"

definition locate_step ::
  "(nat \<Rightarrow> int) \<Rightarrow> Delaunay3d \<Rightarrow> point option \<Rightarrow> walk \<Rightarrow> (int \<times> Sign option list \<times> nat, walk) step option" where
  "locate_step rnd s p w =
     (if w_df w \<ge> 4 then Some (Return (w_t w, w_orient w, w_k w))
      else do {
        s_t_next \<leftarrow> tet_adjacent s (w_t w) (int (examined_facet w));
        if s_t_next = -1 then Some (Return (NO_TETRAHEDRON, w_orient w, w_k w))
        else if s_t_next = w_pred w then
          Some (Continue (w\<lparr>w_orient := (w_orient w)[examined_facet w := Some POSITIVE],
                            w_df := w_df w + 1\<rparr>))
        else do {
          ori \<leftarrow> orient_pv orient_3d s p ((w_pv w)[examined_facet w := Query]);
          if ori \<noteq> NEGATIVE then
            Some (Continue (w\<lparr>w_orient := (w_orient w)[examined_facet w := Some ori],
                              w_df := w_df w + 1\<rparr>))
          else do {
            virt \<leftarrow> tet_is_virtual s s_t_next;
            if virt then
              Some (Return (s_t_next, [Some POSITIVE, Some POSITIVE, Some POSITIVE, Some POSITIVE], w_k w))
            else do {
              pv \<leftarrow> load_pv s s_t_next;
              Some (Continue \<lparr>w_t = s_t_next, w_pred = w_t w, w_pv = pv,
                              w_f0 = nat ((rnd (w_k w) mod 4294967296) mod 4), w_df = 0,
                              w_orient = (w_orient w)[examined_facet w := Some ori],
                              w_k = w_k w + 1\<rparr>)
            }
          }
        }
      })"

fun locate_run ::
  "nat \<Rightarrow> (nat \<Rightarrow> int) \<Rightarrow> Delaunay3d \<Rightarrow> point option \<Rightarrow> walk \<Rightarrow> (int \<times> Sign option list \<times> nat) option" where
  "locate_run 0 rnd s p w = None"
| "locate_run (Suc n) rnd s p w =
     (case locate_step rnd s p w of
        None \<Rightarrow> None
      | Some (Return r) \<Rightarrow> Some r
      | Some (Continue w') \<Rightarrow> locate_run n rnd s p w')"

text \<open>The configuration in which the exact walk starts, after the inexact walk has improved
  the hint. The spinlock taken around the walk when \<open>thread_safe\<close> is set has no effect on
  the result and is left out. \<open>orient\<close> is the caller's array as it is on entry.\<close>

definition locate_start ::
  "nat \<Rightarrow> (point \<Rightarrow> point \<Rightarrow> point \<Rightarrow> point \<Rightarrow> Sign) \<Rightarrow> (nat \<Rightarrow> int) \<Rightarrow> Delaunay3d \<Rightarrow>
   point option \<Rightarrow> int \<Rightarrow> Sign option list \<Rightarrow> nat \<Rightarrow> walk option" where
  "locate_start fuel ori_inexact rnd s p hint orient k = do {
     (hint0, k0) \<leftarrow> locate_inexact fuel ori_inexact rnd s p hint 2500 k;
     (hint1, k1) \<leftarrow> (if hint0 = NO_TETRAHEDRON then random_hint fuel rnd s k0 else Some (hint0, k0));
     hint2 \<leftarrow> real_start s hint1;
     pv \<leftarrow> load_pv s hint2;
     Some \<lparr>w_t = hint2, w_pred = NO_TETRAHEDRON, w_pv = pv,
           w_f0 = nat ((rnd k1 mod 4294967296) mod 4), w_df = 0, w_orient = orient, w_k = k1 + 1\<rparr>
   }"

definition locate ::
  "nat \<Rightarrow> (point \<Rightarrow> point \<Rightarrow> point \<Rightarrow> point \<Rightarrow> Sign) \<Rightarrow> (nat \<Rightarrow> int) \<Rightarrow> Delaunay3d \<Rightarrow>
   point option \<Rightarrow> int \<Rightarrow> Sign option list \<Rightarrow> nat \<Rightarrow> (int \<times> Sign option list \<times> nat) option" where
  "locate fuel ori_inexact rnd s p hint orient k = do {
     w \<leftarrow> locate_start fuel ori_inexact rnd s p hint orient k;
     locate_run fuel rnd s p w
   }"


section \<open>Conflict zone\<close>

text \<open>\<open>tet_is_conflict(t, p)\<close> is declared in the missing header and rests on the in-sphere
  predicates of the exact predicate layer; here it is a parameter \<open>C\<close> of the construction,
  applied to the store, the cell and the index of the vertex \<open>p\<close> points to.

  The locals that \<open>find_conflict_zone\<close> fills for its caller: the store, the boundary pair
  (not written as long as no boundary facet was seen) and the ends of the conflict list.\<close>

record czone =
  cz_s :: Delaunay3d
  cz_t_bndry :: "int option"
  cz_f_bndry :: "int option"
  cz_first :: int
  cz_last :: int

fun find_conflict_zone_recursive ::
  "nat \<Rightarrow> (Delaunay3d \<Rightarrow> int \<Rightarrow> int \<Rightarrow> bool option) \<Rightarrow> int \<Rightarrow> int \<Rightarrow> int list \<Rightarrow> czone \<Rightarrow> czone option" where
  "find_conflict_zone_recursive n C v t [] z = Some z"
| "find_conflict_zone_recursive 0 C v t (lf # lfs) z = None"
| "find_conflict_zone_recursive (Suc n) C v t (lf # lfs) z = do {
     t2 \<leftarrow> tet_adjacent (cz_s z) t lf;
     in_list \<leftarrow> tet_is_in_list (cz_s z) t2;
     marked \<leftarrow> tet_is_marked (cz_s z) t2;
     if in_list \<or> marked then find_conflict_zone_recursive (Suc n) C v t lfs z
     else do {
       conflict \<leftarrow> C (cz_s z) t2 v;
       if conflict then do {
         (s1, first, lst) \<leftarrow> add_tet_to_list (cz_s z) t2 (cz_first z) (cz_last z);
         z1 \<leftarrow> find_conflict_zone_recursive n C v t2 [0, 1, 2, 3]
                 (z\<lparr>cz_s := s1, cz_first := first, cz_last := lst\<rparr>);
         find_conflict_zone_recursive (Suc n) C v t lfs z1
       } else do {
         s1 \<leftarrow> mark_tet (cz_s z) t2;
         find_conflict_zone_recursive (Suc n) C v t lfs
           (z\<lparr>cz_s := s1, cz_t_bndry := Some t, cz_f_bndry := Some lf\<rparr>)
       }
     }
   }"

text \<open>Reading the four orientation signs; reading a slot that was never written has no
  result.\<close>

definition read_orient :: "Sign option list \<Rightarrow> Sign list option" where
  "read_orient orient = do {
     o0 \<leftarrow> Option.bind (get_at orient 0) id;
     o1 \<leftarrow> Option.bind (get_at orient 1) id;
     o2 \<leftarrow> Option.bind (get_at orient 2) id;
     o3 \<leftarrow> Option.bind (get_at orient 3) id;
     Some [o0, o1, o2, o3]
   }"

definition nb_zero :: "Sign list \<Rightarrow> nat" where
  "nb_zero os = length (filter (\<lambda>x. x = ZERO) os)"

fun add_zero_neighbors :: "int \<Rightarrow> Sign list \<Rightarrow> int list \<Rightarrow> czone \<Rightarrow> czone option" where
  "add_zero_neighbors t os [] z = Some z"
| "add_zero_neighbors t os (lf # lfs) z =
     (if os ! nat lf = ZERO then do {
        t2 \<leftarrow> tet_adjacent (cz_s z) t lf;
        (s1, first, lst) \<leftarrow> add_tet_to_list (cz_s z) t2 (cz_first z) (cz_last z);
        add_zero_neighbors t os lfs (z\<lparr>cz_s := s1, cz_first := first, cz_last := lst\<rparr>)
      } else add_zero_neighbors t os lfs z)"

fun recurse_zero_neighbors ::
  "nat \<Rightarrow> (Delaunay3d \<Rightarrow> int \<Rightarrow> int \<Rightarrow> bool option) \<Rightarrow> int \<Rightarrow> int \<Rightarrow> Sign list \<Rightarrow> int list \<Rightarrow> czone \<Rightarrow> czone option" where
  "recurse_zero_neighbors n C v t os [] z = Some z"
| "recurse_zero_neighbors n C v t os (lf # lfs) z =
     (if os ! nat lf = ZERO then do {
        t2 \<leftarrow> tet_adjacent (cz_s z) t lf;
        z1 \<leftarrow> find_conflict_zone_recursive n C v t2 [0, 1, 2, 3] z;
        recurse_zero_neighbors n C v t os lfs z1
      } else recurse_zero_neighbors n C v t os lfs z)"

text \<open>The conflict zone as \<open>find_conflict_zone\<close> sets it up: the list is empty, the
  boundary pair is not written yet and the mark stamp is that of the inserted vertex.\<close>

definition empty_zone :: "Delaunay3d \<Rightarrow> int \<Rightarrow> czone" where
  "empty_zone s v = \<lparr>cz_s = set_tet_mark_stamp s v, cz_t_bndry = None, cz_f_bndry = None,
                     cz_first = END_OF_LIST, cz_last = END_OF_LIST\<rparr>"

text \<open>The shortcut for a point on facets of the located cell (unweighted mode only): the
  neighbors across those facets are put in the list, then searched from.\<close>

definition seed_zero_facets ::
  "nat \<Rightarrow> (Delaunay3d \<Rightarrow> int \<Rightarrow> int \<Rightarrow> bool option) \<Rightarrow> int \<Rightarrow> int \<Rightarrow> Sign list \<Rightarrow> czone \<Rightarrow> czone option" where
  "seed_zero_facets fuel C v t os z =
     (if \<not> weighted (cz_s z) \<and> nb_zero os \<noteq> 0 then do {
        z2 \<leftarrow> add_zero_neighbors t os [0, 1, 2, 3] z;
        recurse_zero_neighbors fuel C v t os [0, 1, 2, 3] z2
      } else Some z)"

definition find_conflict_zone ::
  "nat \<Rightarrow> (Delaunay3d \<Rightarrow> int \<Rightarrow> int \<Rightarrow> bool option) \<Rightarrow> Delaunay3d \<Rightarrow> int \<Rightarrow> int \<Rightarrow> Sign option list \<Rightarrow> czone option" where
  "find_conflict_zone fuel C s v t orient = do {
     let z0 = empty_zone s v;
     os \<leftarrow> read_orient orient;
     if nb_zero os \<ge> 3 then Some z0
     else do {
       dangling \<leftarrow> (if weighted (cz_s z0) then do { c \<leftarrow> C (cz_s z0) t v; Some (\<not> c) } else Some False);
       if dangling then Some z0
       else do {
         (s2, first, lst) \<leftarrow> add_tet_to_list (cz_s z0) t (cz_first z0) (cz_last z0);
         z3 \<leftarrow> seed_zero_facets fuel C v t os (z0\<lparr>cz_s := s2, cz_first := first, cz_last := lst\<rparr>);
         find_conflict_zone_recursive fuel C v t [0, 1, 2, 3] z3
       }
     }
   }"

section \<open>Stellation\<close>

text \<open>Turning around the edge \<open>[ev1,ev2]\<close> inside the conflict zone until a cell outside of
  it is reached.\<close>

fun turn_around_edge :: "nat \<Rightarrow> Delaunay3d \<Rightarrow> int \<Rightarrow> int \<Rightarrow> int \<Rightarrow> int \<Rightarrow> int \<Rightarrow> (int \<times> int \<times> int) option" where
  "turn_around_edge 0 s ev1 ev2 cur_t cur_f next_t = None"
| "turn_around_edge (Suc n) s ev1 ev2 cur_t cur_f next_t = do {
     in_list \<leftarrow> tet_is_in_list s next_t;
     if in_list then do {
       f \<leftarrow> get_facet_by_halfedge s next_t ev1 ev2;
       nxt \<leftarrow> tet_adjacent s next_t f;
       turn_around_edge n s ev1 ev2 next_t f nxt
     } else Some (cur_t, cur_f, next_t)
   }"

fun stellate_conflict_zone :: "nat \<Rightarrow> Delaunay3d \<Rightarrow> int \<Rightarrow> int \<Rightarrow> int \<Rightarrow> int \<Rightarrow> (int \<times> Delaunay3d) option"
  and stellate_facets :: "nat \<Rightarrow> Delaunay3d \<Rightarrow> int \<Rightarrow> int \<Rightarrow> int \<Rightarrow> int \<Rightarrow> int \<Rightarrow> int list \<Rightarrow> Delaunay3d option" where
  "stellate_conflict_zone 0 s v_in t1 f1 prev_f = None"
| "stellate_conflict_zone (Suc n) s v_in t1 f1 prev_f = do {
     v0 \<leftarrow> tet_vertex s t1 0;
     v1 \<leftarrow> tet_vertex s t1 1;
     v2 \<leftarrow> tet_vertex s t1 2;
     v3 \<leftarrow> tet_vertex s t1 3;
     (new_t, s1) \<leftarrow> new_tetrahedron s v0 v1 v2 v3;
     s2 \<leftarrow> set_tet_vertex s1 new_t f1 v_in;
     t2 \<leftarrow> tet_adjacent s2 t1 f1;
     s3 \<leftarrow> set_tet_adjacent s2 new_t f1 t2;
     lf \<leftarrow> find_tet_adjacent s3 t2 t1;
     s4 \<leftarrow> set_tet_adjacent s3 t2 lf new_t;
     s5 \<leftarrow> stellate_facets n s4 v_in t1 f1 prev_f new_t [0, 1, 2, 3];
     Some (new_t, s5)
   }"
| "stellate_facets n s v_in t1 f1 prev_f new_t [] = Some s"
| "stellate_facets n s v_in t1 f1 prev_f new_t (new_f # fs) =
     (if new_f = prev_f then stellate_facets n s v_in t1 f1 prev_f new_t fs
      else do {
        a \<leftarrow> tet_adjacent s new_t new_f;
        if a \<noteq> -1 then stellate_facets n s v_in t1 f1 prev_f new_t fs
        else do {
          l1 \<leftarrow> halfedge_facet_at new_f f1;
          ev1 \<leftarrow> tet_vertex s t1 l1;
          l2 \<leftarrow> halfedge_facet_at f1 new_f;
          ev2 \<leftarrow> tet_vertex s t1 l2;
          nxt \<leftarrow> tet_adjacent s t1 new_f;
          (cur_t, cur_f, next_t) \<leftarrow> turn_around_edge n s ev1 ev2 t1 new_f nxt;
          (f12, f21) \<leftarrow> get_facets_by_halfedge s next_t ev1 ev2;
          t_neigh \<leftarrow> tet_adjacent s next_t f21;
          v_neigh_opposite \<leftarrow> tet_vertex s next_t f12;
          v_neigh_index \<leftarrow> find_tet_vertex s t_neigh v_neigh_opposite;
          (t_neigh1, s1) \<leftarrow>
            (if t_neigh = cur_t then stellate_conflict_zone n s v_in t_neigh cur_f v_neigh_index
             else Some (t_neigh, s));
          s2 \<leftarrow> set_tet_adjacent s1 t_neigh1 v_neigh_index new_t;
          s3 \<leftarrow> set_tet_adjacent s2 new_t new_f t_neigh1;
          stellate_facets n s3 v_in t1 f1 prev_f new_t fs
        }
      })"

section \<open>Insertion\<close>

text \<open>\<open>insert(v, hint)\<close>: the result is the returned hint, the store and the position in the
  random stream. The caller's \<open>orient\<close>, \<open>t_bndry\<close> and \<open>f_bndry\<close> start uninitialised.\<close>

definition insert_vertex ::
  "nat \<Rightarrow> (Delaunay3d \<Rightarrow> int \<Rightarrow> int \<Rightarrow> bool option) \<Rightarrow> (point \<Rightarrow> point \<Rightarrow> point \<Rightarrow> point \<Rightarrow> Sign) \<Rightarrow>
   (nat \<Rightarrow> int) \<Rightarrow> Delaunay3d \<Rightarrow> int \<Rightarrow> int \<Rightarrow> nat \<Rightarrow> (int \<times> Delaunay3d \<times> nat) option" where
  "insert_vertex fuel C ori_inexact rnd s v hint k = do {
     (t, orient, k1) \<leftarrow> locate fuel ori_inexact rnd s (vertex_ptr s v) hint [None, None, None, None] k;
     z \<leftarrow> find_conflict_zone fuel C s v t orient;
     if cz_first z = END_OF_LIST then Some (NO_TETRAHEDRON, cz_s z, k1)
     else do {
       t_bndry \<leftarrow> cz_t_bndry z;
       f_bndry \<leftarrow> cz_f_bndry z;
       (new_tet, s1) \<leftarrow> stellate_conflict_zone fuel (cz_s z) v t_bndry f_bndry (-1);
       ns \<leftarrow> set_at (cell_next s1) (cz_last z) (first_free s1);
       Some (new_tet, s1\<lparr>cell_next := ns, first_free := cz_first z\<rparr>, k1)
     }
   }"


section \<open>The first tetrahedron\<close>

function scan_identical :: "Delaunay3d \<Rightarrow> int \<Rightarrow> int \<Rightarrow> int option" where
  "scan_identical s iv0 iv1 =
     (if iv1 < nb_vertices s then do {
        p0 \<leftarrow> vertex_ptr s iv0;
        p1 \<leftarrow> vertex_ptr s iv1;
        if points_are_identical p0 p1 then scan_identical s iv0 (iv1 + 1) else Some iv1
      } else Some iv1)"
  by pat_completeness auto
termination
  by (relation "measure (\<lambda>(s, iv0, iv1). nat (nb_vertices s - iv1))") auto

declare scan_identical.simps [simp del]

function scan_colinear :: "Delaunay3d \<Rightarrow> int \<Rightarrow> int \<Rightarrow> int \<Rightarrow> int option" where
  "scan_colinear s iv0 iv1 iv2 =
     (if iv2 < nb_vertices s then do {
        p0 \<leftarrow> vertex_ptr s iv0;
        p1 \<leftarrow> vertex_ptr s iv1;
        p2 \<leftarrow> vertex_ptr s iv2;
        if points_are_colinear p0 p1 p2 then scan_colinear s iv0 iv1 (iv2 + 1) else Some iv2
      } else Some iv2)"
  by pat_completeness auto
termination
  by (relation "measure (\<lambda>(s, iv0, iv1, iv2). nat (nb_vertices s - iv2))") auto

declare scan_colinear.simps [simp del]

text \<open>The third scan also yields the last sign it computed (\<open>ZERO\<close> when it ran off the
  end).\<close>

function scan_coplanar :: "Delaunay3d \<Rightarrow> int \<Rightarrow> int \<Rightarrow> int \<Rightarrow> int \<Rightarrow> (int \<times> Sign) option" where
  "scan_coplanar s iv0 iv1 iv2 iv3 =
     (if iv3 < nb_vertices s then do {
        p0 \<leftarrow> vertex_ptr s iv0;
        p1 \<leftarrow> vertex_ptr s iv1;
        p2 \<leftarrow> vertex_ptr s iv2;
        p3 \<leftarrow> vertex_ptr s iv3;
        if orient_3d p0 p1 p2 p3 = ZERO then scan_coplanar s iv0 iv1 iv2 (iv3 + 1)
        else Some (iv3, orient_3d p0 p1 p2 p3)
      } else Some (iv3, ZERO))"
  by pat_completeness auto
termination
  by (relation "measure (\<lambda>(s, iv0, iv1, iv2, iv3). nat (nb_vertices s - iv3))") auto

declare scan_coplanar.simps [simp del]

text \<open>The three loops that build and link the four virtual cells around \<open>t0\<close>; \<open>ts\<close> is
  the local array \<open>t[4]\<close>.\<close>

fun create_virtual :: "Delaunay3d \<Rightarrow> int \<Rightarrow> nat list \<Rightarrow> int list \<Rightarrow> (int list \<times> Delaunay3d) option" where
  "create_virtual s t0 [] ts = Some (ts, s)"
| "create_virtual s t0 (f # fs) ts = do {
     v1 \<leftarrow> tet_vertex s t0 (int (tet_facet_vertex f 2));
     v2 \<leftarrow> tet_vertex s t0 (int (tet_facet_vertex f 1));
     v3 \<leftarrow> tet_vertex s t0 (int (tet_facet_vertex f 0));
     (t, s1) \<leftarrow> new_tetrahedron s VERTEX_AT_INFINITY v1 v2 v3;
     create_virtual s1 t0 fs (ts[f := t])
   }"

fun connect_real :: "Delaunay3d \<Rightarrow> int \<Rightarrow> int list \<Rightarrow> nat list \<Rightarrow> Delaunay3d option" where
  "connect_real s t0 ts [] = Some s"
| "connect_real s t0 ts (f # fs) = do {
     s1 \<leftarrow> set_tet_adjacent s (ts ! f) 0 t0;
     s2 \<leftarrow> set_tet_adjacent s1 t0 (int f) (ts ! f);
     connect_real s2 t0 ts fs
   }"

fun connect_virtual :: "Delaunay3d \<Rightarrow> int list \<Rightarrow> nat list \<Rightarrow> Delaunay3d option" where
  "connect_virtual s ts [] = Some s"
| "connect_virtual s ts (f # fs) = do {
     s1 \<leftarrow> set_tet_adjacent s (ts ! f) 1 (ts ! tet_facet_vertex f 2);
     s2 \<leftarrow> set_tet_adjacent s1 (ts ! f) 2 (ts ! tet_facet_vertex f 1);
     s3 \<leftarrow> set_tet_adjacent s2 (ts ! f) 3 (ts ! tet_facet_vertex f 0);
     connect_virtual s3 ts fs
   }"

text \<open>The first part of \<open>create_first_tetrahedron\<close>: the scan for four vertices that span
  a tetrahedron, with the swap that makes it positively oriented. The result is \<open>None\<close>
  where the program returns false.\<close>

definition first_quadruple :: "Delaunay3d \<Rightarrow> (int \<times> int \<times> int \<times> int) option option" where
  "first_quadruple s =
     (if nb_vertices s < 4 then Some None
      else do {
        iv1 \<leftarrow> scan_identical s 0 1;
        if iv1 = nb_vertices s then Some None
        else do {
          iv2 \<leftarrow> scan_colinear s 0 iv1 (iv1 + 1);
          if iv2 = nb_vertices s then Some None
          else do {
            (iv3, sg) \<leftarrow> scan_coplanar s 0 iv1 iv2 (iv2 + 1);
            if iv3 = nb_vertices s then Some None
            else if sg = NEGATIVE then Some (Some (0, iv1, iv3, iv2))
            else Some (Some (0, iv1, iv2, iv3))
          }
        }
      })"

text \<open>The second part: the first tetrahedron and the four virtual tetrahedra around it.\<close>

definition first_cells :: "Delaunay3d \<Rightarrow> int \<Rightarrow> int \<Rightarrow> int \<Rightarrow> int \<Rightarrow> Delaunay3d option" where
  "first_cells s iv0 iv1 iv2 iv3 = do {
     (t0, s1) \<leftarrow> new_tetrahedron s iv0 iv1 iv2 iv3;
     (ts, s2) \<leftarrow> create_virtual s1 t0 [0, 1, 2, 3] [0, 0, 0, 0];
     s3 \<leftarrow> connect_real s2 t0 ts [0, 1, 2, 3];
     connect_virtual s3 ts [0, 1, 2, 3]
   }"

text \<open>\<open>create_first_tetrahedron\<close>: the result is \<open>None\<close> where the program returns false, and
  the four vertex indices where it returns true.\<close>

definition create_first_tetrahedron :: "Delaunay3d \<Rightarrow> ((int \<times> int \<times> int \<times> int) option \<times> Delaunay3d) option" where
  "create_first_tetrahedron s = do {
     q \<leftarrow> first_quadruple s;
     case q of
       None \<Rightarrow> Some (None, s)
     | Some (iv0, iv1, iv2, iv3) \<Rightarrow> do {
         s' \<leftarrow> first_cells s iv0 iv1 iv2 iv3;
         Some (Some (iv0, iv1, iv2, iv3), s')
       }
   }"

section \<open>Construction\<close>

text \<open>The insertion loop of \<open>set_vertices\<close>. The progress callback may be empty; when it
  answers false the construction is abandoned (\<open>Inl\<close>).\<close>

fun insert_all ::
  "nat \<Rightarrow> (Delaunay3d \<Rightarrow> int \<Rightarrow> int \<Rightarrow> bool option) \<Rightarrow> (point \<Rightarrow> point \<Rightarrow> point \<Rightarrow> point \<Rightarrow> Sign) \<Rightarrow>
   (nat \<Rightarrow> int) \<Rightarrow> (int \<Rightarrow> int \<Rightarrow> bool) option \<Rightarrow> int \<times> int \<times> int \<times> int \<Rightarrow> int list \<Rightarrow>
   Delaunay3d \<Rightarrow> int \<Rightarrow> nat \<Rightarrow> (Delaunay3d + Delaunay3d \<times> nat) option" where
  "insert_all fuel C ori_inexact rnd cb vs [] s hint k = Some (Inr (s, k))"
| "insert_all fuel C ori_inexact rnd cb vs (i # is) s hint k =
     (if (case cb of None \<Rightarrow> False | Some progress \<Rightarrow> \<not> progress i (nb_vertices s)) then Some (Inl s)
      else do {
        v \<leftarrow> get_at (reorder s) i;
        if v \<noteq> fst vs \<and> v \<noteq> fst (snd vs) \<and> v \<noteq> fst (snd (snd vs)) \<and> v \<noteq> snd (snd (snd vs)) then do {
          (new_hint, s1, k1) \<leftarrow> insert_vertex fuel C ori_inexact rnd s v hint k;
          insert_all fuel C ori_inexact rnd cb vs is s1
            (if new_hint \<noteq> NO_TETRAHEDRON then new_hint else hint) k1
        } else insert_all fuel C ori_inexact rnd cb vs is s hint k
      })"

text \<open>Compaction. \<open>old2new\<close> is \<open>cell_next_\<close> itself.\<close>

definition copy_cell :: "int list \<Rightarrow> int \<Rightarrow> int \<Rightarrow> int list option" where
  "copy_cell xs dst src = do {
     a0 \<leftarrow> get_at xs (src * 4);
     a1 \<leftarrow> get_at xs (src * 4 + 1);
     a2 \<leftarrow> get_at xs (src * 4 + 2);
     a3 \<leftarrow> get_at xs (src * 4 + 3);
     xs0 \<leftarrow> set_at xs (dst * 4) a0;
     xs1 \<leftarrow> set_at xs0 (dst * 4 + 1) a1;
     xs2 \<leftarrow> set_at xs1 (dst * 4 + 2) a2;
     set_at xs2 (dst * 4 + 3) a3
   }"

fun compress_cells :: "Delaunay3d \<Rightarrow> int list \<Rightarrow> int \<Rightarrow> int \<Rightarrow> (Delaunay3d \<times> int \<times> int) option" where
  "compress_cells s [] nb_tets nb_tets_to_delete = Some (s, nb_tets, nb_tets_to_delete)"
| "compress_cells s (t # ts) nb_tets nb_tets_to_delete = do {
     keep \<leftarrow> (if keep_infinite s then do {
                 fr \<leftarrow> tet_is_free s t;
                 if \<not> fr then Some True else tet_is_real s t
               } else tet_is_real s t);
     if keep then do {
       s1 \<leftarrow> (if t \<noteq> nb_tets then do {
                 vs \<leftarrow> copy_cell (cell_to_v_store s) nb_tets t;
                 cs \<leftarrow> copy_cell (cell_to_cell_store s) nb_tets t;
                 Some (s\<lparr>cell_to_v_store := vs, cell_to_cell_store := cs\<rparr>)
               } else Some s);
       ns \<leftarrow> set_at (cell_next s1) t nb_tets;
       compress_cells (s1\<lparr>cell_next := ns\<rparr>) ts (nb_tets + 1) nb_tets_to_delete
     } else do {
       ns \<leftarrow> set_at (cell_next s) t (-1);
       compress_cells (s\<lparr>cell_next := ns\<rparr>) ts nb_tets (nb_tets_to_delete + 1)
     }
   }"

fun remap_neighbors :: "Delaunay3d \<Rightarrow> int list \<Rightarrow> Delaunay3d option" where
  "remap_neighbors s [] = Some s"
| "remap_neighbors s (i # is) = do {
     t \<leftarrow> get_at (cell_to_cell_store s) i;
     t' \<leftarrow> get_at (cell_next s) t;
     cs \<leftarrow> set_at (cell_to_cell_store s) i t';
     remap_neighbors (s\<lparr>cell_to_cell_store := cs\<rparr>) is
   }"

text \<open>The two-pointer partition of the \<open>keep_infinite\<close> mode. The inner scans stop at the
  ends of the store at the latest (reading beyond it has no result).\<close>

function scan_finite :: "Delaunay3d \<Rightarrow> int \<Rightarrow> (Delaunay3d \<times> int) option" where
  "scan_finite s finite_ptr = do {
     fin \<leftarrow> tet_is_finite s finite_ptr;
     if fin then do {
       ns \<leftarrow> set_at (cell_next s) finite_ptr finite_ptr;
       scan_finite (s\<lparr>cell_next := ns, nb_finite_cells := nb_finite_cells s + 1\<rparr>) (finite_ptr + 1)
     } else Some (s, finite_ptr)
   }"
  by pat_completeness auto
termination
  by (relation "measure (\<lambda>(s, finite_ptr). nat (int (length (cell_to_v_store s)) - 4 * finite_ptr))")
     (auto simp: tet_is_finite_def tet_is_virtual_def tet_vertex_def get_at_def
           split: if_splits Option.bind_splits)

declare scan_finite.simps [simp del]

function scan_infinite :: "Delaunay3d \<Rightarrow> int \<Rightarrow> (Delaunay3d \<times> int) option" where
  "scan_infinite s infinite_ptr = do {
     fin \<leftarrow> tet_is_finite s infinite_ptr;
     if \<not> fin then do {
       ns \<leftarrow> set_at (cell_next s) infinite_ptr infinite_ptr;
       scan_infinite (s\<lparr>cell_next := ns\<rparr>) (infinite_ptr - 1)
     } else Some (s, infinite_ptr)
   }"
  by pat_completeness auto
termination
  by (relation "measure (\<lambda>(s, infinite_ptr). nat (infinite_ptr + 1))")
     (auto simp: tet_is_finite_def tet_is_virtual_def tet_vertex_def get_at_def
           split: if_splits Option.bind_splits)

declare scan_infinite.simps [simp del]

definition swap_at :: "int list \<Rightarrow> int \<Rightarrow> int \<Rightarrow> int list option" where
  "swap_at xs i j = do {
     a \<leftarrow> get_at xs i;
     b \<leftarrow> get_at xs j;
     xs1 \<leftarrow> set_at xs i b;
     set_at xs1 j a
   }"

fun swap_cells :: "int list \<Rightarrow> int \<Rightarrow> int \<Rightarrow> int list \<Rightarrow> int list option" where
  "swap_cells xs a b [] = Some xs"
| "swap_cells xs a b (l # ls) = do {
     xs1 \<leftarrow> swap_at xs (4 * a + l) (4 * b + l);
     swap_cells xs1 a b ls
   }"

text \<open>The outer loop ends because the two pointers approach each other; the model counts
  its rounds with fuel.\<close>

fun partition_cells :: "nat \<Rightarrow> Delaunay3d \<Rightarrow> int \<Rightarrow> int \<Rightarrow> Delaunay3d option" where
  "partition_cells 0 s finite_ptr infinite_ptr = None"
| "partition_cells (Suc n) s finite_ptr infinite_ptr = do {
     (s1, finite_ptr1) \<leftarrow> scan_finite s finite_ptr;
     (s2, infinite_ptr1) \<leftarrow> scan_infinite s1 infinite_ptr;
     if finite_ptr1 > infinite_ptr1 then Some s2
     else do {
       ns1 \<leftarrow> set_at (cell_next s2) finite_ptr1 infinite_ptr1;
       ns2 \<leftarrow> set_at ns1 infinite_ptr1 finite_ptr1;
       cs \<leftarrow> swap_cells (cell_to_cell_store s2) finite_ptr1 infinite_ptr1 [0, 1, 2, 3];
       vs \<leftarrow> swap_cells (cell_to_v_store s2) finite_ptr1 infinite_ptr1 [0, 1, 2, 3];
       partition_cells n
         (s2\<lparr>cell_next := ns2, nb_finite_cells := nb_finite_cells s2 + 1,
             cell_to_cell_store := cs, cell_to_v_store := vs\<rparr>)
         (finite_ptr1 + 1) (infinite_ptr1 - 1)
     }
   }"

text \<open>The body of the first loop of \<open>set_vertices\<close>, for the vertex \<open>i\<close>: the additions are
  performed from left to right.\<close>

definition compute_heights :: "real list \<Rightarrow> int \<Rightarrow> double option" where
  "compute_heights vs i = do {
     x \<leftarrow> get_at vs (4 * i);
     y \<leftarrow> get_at vs (4 * i + 1);
     z \<leftarrow> get_at vs (4 * i + 2);
     t \<leftarrow> get_at vs (4 * i + 3);
     let w = dneg (geo_sqr t);
     Some (dadd (dadd (dadd (dneg w) (geo_sqr x)) (geo_sqr y)) (geo_sqr z))
   }"

fun those_list :: "'a option list \<Rightarrow> 'a list option" where
  "those_list [] = Some []"
| "those_list (x # xs) = do { y \<leftarrow> x; ys \<leftarrow> those_list xs; Some (y # ys) }"

text \<open>The constructor: any dimension other than 3 and 4 is refused (the program throws
  \<open>InvalidDimension\<close>). The two switches of the base class are given by the caller.\<close>

definition new_Delaunay3d :: "int \<Rightarrow> bool \<Rightarrow> bool \<Rightarrow> Delaunay3d option" where
  "new_Delaunay3d dimension keep_inf reord =
     (if dimension \<noteq> 3 \<and> dimension \<noteq> 4 then None
      else Some \<lparr>weighted = (dimension = 4), keep_infinite = keep_inf, do_reorder = reord,
                 nb_vertices = 0, vertices = [], heights = [], reorder = [],
                 cell_to_v_store = [], cell_to_cell_store = [], cell_next = [],
                 first_free = END_OF_LIST, cur_stamp = 0, nb_cells = 0, nb_finite_cells = 0\<rparr>)"

text \<open>The first part of \<open>set_vertices\<close>, up to the spatial sort: the heights of the weighted
  mode, the vertices, the emptied store and the insertion order. The result of the external
  sort \<open>compute_BRIO_order\<close> is the parameter \<open>brio\<close>.\<close>

definition set_vertices_init :: "int list \<Rightarrow> Delaunay3d \<Rightarrow> int \<Rightarrow> real list \<Rightarrow> Delaunay3d option" where
  "set_vertices_init brio s nb verts = do {
     let s = s\<lparr>cur_stamp := 0\<rparr>;
     s \<leftarrow> (if weighted s then do {
              hs \<leftarrow> those_list (map (compute_heights verts) [0..nb - 1]);
              Some (s\<lparr>heights := hs\<rparr>)
            } else Some s);
     let s = s\<lparr>nb_vertices := nb, vertices := verts\<rparr>;
     let s = s\<lparr>cell_to_v_store := [], cell_to_cell_store := [], cell_next := [],
                first_free := END_OF_LIST\<rparr>;
     Some (s\<lparr>reorder := (if do_reorder s then brio else [0..nb - 1])\<rparr>)
   }"

text \<open>Compaction and, in the \<open>keep_infinite\<close> mode, the partition of the cells.\<close>

definition finalize :: "nat \<Rightarrow> Delaunay3d \<Rightarrow> Delaunay3d option" where
  "finalize fuel s = do {
     (s, nb_tets, nb_tets_to_delete) \<leftarrow> compress_cells s [0..max_t s - 1] 0 0;
     let s = s\<lparr>cell_to_v_store := take (nat (4 * nb_tets)) (cell_to_v_store s),
                cell_to_cell_store := take (nat (4 * nb_tets)) (cell_to_cell_store s)\<rparr>;
     s \<leftarrow> remap_neighbors s [0..4 * nb_tets - 1];
     s \<leftarrow> (if keep_infinite s then do {
              s \<leftarrow> partition_cells fuel (s\<lparr>nb_finite_cells := 0\<rparr>) 0 (nb_tets - 1);
              remap_neighbors s [0..4 * nb_tets - 1]
            } else Some s);
     Some (s\<lparr>nb_cells := nb_tets\<rparr>)
   }"

text \<open>\<open>set_vertices(nb_vertices, vertices, progressCallback)\<close>. The program returns a boolean
  (the first component of the result) and leaves the object in a new state. The benchmark
  and debug modes are switched off by the constructor and are left out.\<close>

definition set_vertices ::
  "nat \<Rightarrow> (Delaunay3d \<Rightarrow> int \<Rightarrow> int \<Rightarrow> bool option) \<Rightarrow> (point \<Rightarrow> point \<Rightarrow> point \<Rightarrow> point \<Rightarrow> Sign) \<Rightarrow>
   (nat \<Rightarrow> int) \<Rightarrow> int list \<Rightarrow> (int \<Rightarrow> int \<Rightarrow> bool) option \<Rightarrow> Delaunay3d \<Rightarrow> int \<Rightarrow> real list \<Rightarrow>
   (bool \<times> Delaunay3d) option" where
  "set_vertices fuel C ori_inexact rnd brio progressCallback s nb verts = do {
     s \<leftarrow> set_vertices_init brio s nb verts;
     if (case progressCallback of None \<Rightarrow> False | Some progress \<Rightarrow> \<not> progress 0 0) then Some (False, s)
     else do {
       (first, s) \<leftarrow> create_first_tetrahedron s;
       case first of
         None \<Rightarrow> Some (True, s)
       | Some vs \<Rightarrow> do {
           r \<leftarrow> insert_all fuel C ori_inexact rnd progressCallback vs [0..nb - 1] s NO_TETRAHEDRON 0;
           case r of
             Inl s \<Rightarrow> Some (False, s)
           | Inr (s, k) \<Rightarrow> do { s \<leftarrow> finalize fuel s; Some (True, s) }
         }
     }
   }"

section \<open>Notions and example inputs of the statements\<close>

definition unit_corner :: "nat \<Rightarrow> point" where
  "unit_corner i = (if i = 1 then (1, 0, 0) else if i = 2 then (0, 1, 0)
                    else if i = 3 then (0, 0, 1) else (0, 0, 0))"

text \<open>The part of the object that only the first lines of \<open>set_vertices\<close>
  write: the switches, the vertices, the heights and the insertion order.\<close>

definition input_part :: "Delaunay3d \<Rightarrow> bool \<times> bool \<times> bool \<times> int \<times> real list \<times> double list \<times> int list" where
  "input_part s = (weighted s, keep_infinite s, do_reorder s, nb_vertices s, vertices s, heights s, reorder s)"

text \<open>A double that is a number at or above zero, or plus infinity.\<close>

definition nonneg_double :: "double \<Rightarrow> bool" where
  "nonneg_double a = (case a of Finite h \<Rightarrow> 0 \<le> h | PlusInfinity \<Rightarrow> True | _ \<Rightarrow> False)"

text \<open>The formula of the statement under examination, over the reals.\<close>

definition claimed_height :: "real list \<Rightarrow> int \<Rightarrow> real" where
  "claimed_height verts i =
     verts ! nat (4 * i) * verts ! nat (4 * i) + verts ! nat (4 * i + 1) * verts ! nat (4 * i + 1)
     + verts ! nat (4 * i + 2) * verts ! nat (4 * i + 2)
     - verts ! nat (4 * i + 3) * verts ! nat (4 * i + 3)"

text \<open>The same formula evaluated in double precision.\<close>

definition claimed_height_rounded :: "real list \<Rightarrow> int \<Rightarrow> double" where
  "claimed_height_rounded verts i =
     dadd (dadd (dadd (geo_sqr (verts ! nat (4 * i))) (geo_sqr (verts ! nat (4 * i + 1))))
                (geo_sqr (verts ! nat (4 * i + 2))))
          (dneg (geo_sqr (verts ! nat (4 * i + 3))))"

text \<open>The sum of the four squares, the square of the fourth component first, added from
  left to right in double precision.\<close>

definition lifted_height :: "real list \<Rightarrow> int \<Rightarrow> double" where
  "lifted_height verts i =
     dadd (dadd (dadd (geo_sqr (verts ! nat (4 * i + 3))) (geo_sqr (verts ! nat (4 * i))))
                (geo_sqr (verts ! nat (4 * i + 1))))
          (geo_sqr (verts ! nat (4 * i + 2)))"

text \<open>The sum of the four squares over the reals.\<close>

definition exact_height :: "real list \<Rightarrow> int \<Rightarrow> real" where
  "exact_height verts i =
     verts ! nat (4 * i + 3) * verts ! nat (4 * i + 3) + verts ! nat (4 * i) * verts ! nat (4 * i)
     + verts ! nat (4 * i + 1) * verts ! nat (4 * i + 1) + verts ! nat (4 * i + 2) * verts ! nat (4 * i + 2)"

text \<open>Four weighted points: the corners of a tetrahedron, with the fourth components
  \<open>1\<close>, \<open>0\<close>, \<open>2\<close> and \<open>2^27\<close>, and the
  object that \<open>set_vertices\<close> leaves for them.\<close>

definition weighted_points :: "real list" where
  "weighted_points = [0, 0, 0, 1,  1, 0, 0, 0,  0, 1, 0, 2,  1, 1, 1, 134217728]"

definition weighted_cells :: "Delaunay3d \<Rightarrow> Delaunay3d" where
  "weighted_cells s =
     s\<lparr>heights := [Finite 1, Finite 1, Finite 5, Finite 18014398509481984],
       nb_vertices := 4, vertices := weighted_points, reorder := [0, 1, 2, 3],
       cell_to_v_store := [0, 1, 2, 3], cell_to_cell_store := [-1, -1, -1, -1],
       cell_next := [0, -1, -1, -1, -1], nb_cells := 1\<rparr>"

text \<open>Parameters for the runs below: a conflict predicate for constructions in which no
  cell is ever tested, the exact predicate in the place of the inexact one, and a random
  source that always answers \<open>0\<close>.\<close>

definition never_conflict :: "Delaunay3d \<Rightarrow> int \<Rightarrow> int \<Rightarrow> bool option" where
  "never_conflict s t v = Some False"

definition exact_sign :: "point \<Rightarrow> point \<Rightarrow> point \<Rightarrow> point \<Rightarrow> Sign" where
  "exact_sign = orient_3d"

definition zero_stream :: "nat \<Rightarrow> int" where
  "zero_stream k = 0"

text \<open>A fresh object of dimension 4, and the store after the first tetrahedron of the
  four weighted points.\<close>

definition weighted_object :: Delaunay3d where
  "weighted_object = \<lparr>weighted = True, keep_infinite = False, do_reorder = False,
                 nb_vertices = 0, vertices = [], heights = [], reorder = [],
                 cell_to_v_store = [], cell_to_cell_store = [], cell_next = [],
                 first_free = END_OF_LIST, cur_stamp = 0, nb_cells = 0, nb_finite_cells = 0\<rparr>"

definition weighted_first :: Delaunay3d where
  "weighted_first =
     weighted_object\<lparr>heights := [Finite 1, Finite 1, Finite 5, Finite 18014398509481984],
       nb_vertices := 4, vertices := weighted_points, reorder := [0, 1, 2, 3],
       cell_to_v_store := [0, 1, 2, 3, -1, 3, 2, 1, -1, 2, 3, 0, -1, 1, 0, 3, -1, 2, 0, 1],
       cell_to_cell_store := [1, 2, 3, 4, 0, 4, 3, 2, 0, 3, 4, 1, 0, 2, 1, 4, 0, 3, 1, 2],
       cell_next := [-1, -1, -1, -1, -1]\<rparr>"

text \<open>The point of index \<open>i\<close> in the buffer, and the buffer holding all
  \<open>nb_vertices\<close> points.\<close>

definition pt :: "Delaunay3d \<Rightarrow> int \<Rightarrow> point" where
  "pt s i = (vertices s ! nat (vertex_stride s * i), vertices s ! nat (vertex_stride s * i + 1),
             vertices s ! nat (vertex_stride s * i + 2))"

definition buffer_ok :: "Delaunay3d \<Rightarrow> bool" where
  "buffer_ok s = (vertex_stride s * nb_vertices s \<le> int (length (vertices s)))"

text \<open>A fresh object of dimension 3, the corners of a tetrahedron, four points on a
  line, and the store after the first tetrahedron of the corners.\<close>

definition plain_object :: Delaunay3d where
  "plain_object = \<lparr>weighted = False, keep_infinite = False, do_reorder = False,
                 nb_vertices = 0, vertices = [], heights = [], reorder = [],
                 cell_to_v_store = [], cell_to_cell_store = [], cell_next = [],
                 first_free = END_OF_LIST, cur_stamp = 0, nb_cells = 0, nb_finite_cells = 0\<rparr>"

definition corner_points :: "real list" where
  "corner_points = [0, 0, 0,  1, 0, 0,  0, 1, 0,  0, 0, 1]"

definition line_points :: "real list" where
  "line_points = [0, 0, 0,  1, 0, 0,  2, 0, 0,  3, 0, 0]"

definition corner_cells :: Delaunay3d where
  "corner_cells = plain_object\<lparr>nb_vertices := 4, vertices := corner_points, reorder := [0, 1, 2, 3],
     cell_to_v_store := [0, 1, 2, 3, -1, 3, 2, 1, -1, 2, 3, 0, -1, 1, 0, 3, -1, 2, 0, 1],
     cell_to_cell_store := [1, 2, 3, 4, 0, 4, 3, 2, 0, 3, 4, 1, 0, 2, 1, 4, 0, 3, 1, 2],
     cell_next := [-1, -1, -1, -1, -1]\<rparr>"

text \<open>Degenerate input: any four of the points are coplanar (which holds in
  particular when the points are all identical or all collinear).\<close>

definition all_coplanar :: "Delaunay3d \<Rightarrow> bool" where
  "all_coplanar s = (\<forall>i j k l. 0 \<le> i \<and> i < nb_vertices s \<and> 0 \<le> j \<and> j < nb_vertices s \<and>
      0 \<le> k \<and> k < nb_vertices s \<and> 0 \<le> l \<and> l < nb_vertices s \<longrightarrow>
      orient_3d (pt s i) (pt s j) (pt s k) (pt s l) = ZERO)"

text \<open>The progress callback has answered false to one of the calls that
  \<open>set_vertices\<close> makes.\<close>

definition cancelled :: "(int \<Rightarrow> int \<Rightarrow> bool) option \<Rightarrow> int \<Rightarrow> bool" where
  "cancelled cb nb =
     (case cb of None \<Rightarrow> False
      | Some progress \<Rightarrow> \<not> progress 0 0 \<or> (\<exists>i\<in>set [0..nb - 1]. \<not> progress i nb))"

text \<open>What \<open>set_vertices\<close> leaves for the four points on a line and for
  the four corners.\<close>

definition line_result :: Delaunay3d where
  "line_result = plain_object\<lparr>nb_vertices := 4, vertices := line_points, reorder := [0, 1, 2, 3]\<rparr>"

definition corner_result :: Delaunay3d where
  "corner_result = corner_cells\<lparr>cell_to_v_store := [0, 1, 2, 3], cell_to_cell_store := [-1, -1, -1, -1],
                              cell_next := [0, -1, -1, -1, -1], nb_cells := 1\<rparr>"

text \<open>A progress callback that cancels at the third vertex.\<close>

definition cancel_at_2 :: "int \<Rightarrow> int \<Rightarrow> bool" where
  "cancel_at_2 i n = (i < 2)"

text \<open>The store holds five cells: cell \<open>0\<close> is finite and cells
  \<open>1\<close> to \<open>4\<close> are virtual.\<close>

definition one_finite_four_virtual :: "Delaunay3d \<Rightarrow> bool" where
  "one_finite_four_virtual s =
     (max_t s = 5 \<and> tet_is_virtual s 0 = Some False \<and>
      (\<forall>t\<in>set [1, 2, 3, 4]. tet_is_virtual s t = Some True))"

text \<open>The neighbor of cell \<open>0\<close> across facet \<open>f\<close> has the
  infinite vertex and the three vertices of facet \<open>f\<close>, that is the vertices of
  cell \<open>0\<close> other than the one of local index \<open>f\<close>.\<close>

definition virtual_cells_match_faces :: "Delaunay3d \<Rightarrow> bool" where
  "virtual_cells_match_faces s =
     (\<forall>f\<in>set [0, 1, 2, 3].
        case tet_adjacent s 0 f of
          None \<Rightarrow> False
        | Some t \<Rightarrow>
            tet_vertex s t 0 = Some VERTEX_AT_INFINITY \<and>
            set (map (tet_vertex s t) [1, 2, 3]) = set (map (tet_vertex s 0) (removeAll f [0, 1, 2, 3])))"

text \<open>Every neighbor slot of every cell is set, to another cell that has a slot
  pointing back.\<close>

definition adjacency_symmetric :: "Delaunay3d \<Rightarrow> bool" where
  "adjacency_symmetric s =
     (\<forall>t\<in>set [0..max_t s - 1]. \<forall>f\<in>set [0, 1, 2, 3].
        case tet_adjacent s t f of
          None \<Rightarrow> False
        | Some t' \<Rightarrow> t' \<noteq> t \<and> (\<exists>g\<in>set [0, 1, 2, 3]. tet_adjacent s t' g = Some t))"

text \<open>The stores that \<open>create_first_tetrahedron\<close> builds for the vertices
  \<open>a\<close>, \<open>b\<close>, \<open>c\<close>, \<open>d\<close>.\<close>

definition first_stores :: "Delaunay3d \<Rightarrow> int \<Rightarrow> int \<Rightarrow> int \<Rightarrow> int \<Rightarrow> Delaunay3d" where
  "first_stores s a b c d =
     s\<lparr>cell_to_v_store := [a, b, c, d, -1, d, c, b, -1, c, d, a, -1, b, a, d, -1, c, a, b],
       cell_to_cell_store := [1, 2, 3, 4, 0, 4, 3, 2, 0, 3, 4, 1, 0, 2, 1, 4, 0, 3, 1, 2],
       cell_next := [-1, -1, -1, -1, -1]\<rparr>"

text \<open>The statement under examination scans the reordered sequence: the buffer as the
  permutation \<open>reorder\<close> presents it, and the quadruple that the scan finds
  there, named by the original indices.\<close>

definition reordered_view :: "Delaunay3d \<Rightarrow> Delaunay3d" where
  "reordered_view s =
     s\<lparr>vertices := concat (map (\<lambda>v. take (nat (vertex_stride s)) (drop (nat (vertex_stride s * v)) (vertices s)))
                               (reorder s))\<rparr>"

definition claimed_first_quadruple :: "Delaunay3d \<Rightarrow> (int \<times> int \<times> int \<times> int) option option" where
  "claimed_first_quadruple s =
     (case first_quadruple (reordered_view s) of
        None \<Rightarrow> None
      | Some None \<Rightarrow> Some None
      | Some (Some (a, b, c, d)) \<Rightarrow>
          Some (Some (reorder s ! nat a, reorder s ! nat b, reorder s ! nat c, reorder s ! nat d)))"

text \<open>An object that sorts its vertices, five points, and the object after the first
  lines of \<open>set_vertices\<close> with a spatial sort that reverses the order.\<close>

definition reordering_object :: Delaunay3d where
  "reordering_object = plain_object\<lparr>do_reorder := True\<rparr>"

definition five_points :: "real list" where
  "five_points = [0, 0, 0,  1, 0, 0,  0, 1, 0,  0, 0, 1,  1, 1, 1]"

definition five_prepared :: Delaunay3d where
  "five_prepared = reordering_object\<lparr>nb_vertices := 5, vertices := five_points, reorder := [4, 3, 2, 1, 0]\<rparr>"

text \<open>The configuration of a walk after \<open>n\<close> examinations of a facet none
  of which made the routine return.\<close>

fun locate_steps :: "nat \<Rightarrow> (nat \<Rightarrow> int) \<Rightarrow> Delaunay3d \<Rightarrow> point option \<Rightarrow> walk \<Rightarrow> walk option" where
  "locate_steps 0 rnd s p w = Some w"
| "locate_steps (Suc n) rnd s p w =
     (case locate_step rnd s p w of
        Some (Continue w') \<Rightarrow> locate_steps n rnd s p w'
      | _ \<Rightarrow> None)"

fun locate_inexact_steps ::
  "nat \<Rightarrow> (point \<Rightarrow> point \<Rightarrow> point \<Rightarrow> point \<Rightarrow> Sign) \<Rightarrow> Delaunay3d \<Rightarrow> point option \<Rightarrow> iwalk \<Rightarrow> iwalk option" where
  "locate_inexact_steps 0 ori_inexact s p w = Some w"
| "locate_inexact_steps (Suc n) ori_inexact s p w =
     (case locate_inexact_step ori_inexact s p w of
        Some (Continue w') \<Rightarrow> locate_inexact_steps n ori_inexact s p w'
      | _ \<Rightarrow> None)"

text \<open>An orientation slot that was written, with a sign other than
  \<open>NEGATIVE\<close>; and the four slots as \<open>locate\<close> sets them for a
  virtual cell.\<close>

definition nonnegative_slot :: "Sign option \<Rightarrow> bool" where
  "nonnegative_slot x = (case x of None \<Rightarrow> False | Some sg \<Rightarrow> sg \<noteq> NEGATIVE)"


text \<open>The object that \<open>set_vertices\<close> leaves for the corners
  \<open>(0,0,0)\<close>, \<open>(4,0,0)\<close>, \<open>(0,4,0)\<close>,
  \<open>(0,0,4)\<close> and the inner point \<open>(1,1,1)\<close>: four tetrahedra around
  the inner point, the facets on the hull without neighbor. And a query point of the hull.\<close>

definition stripped_mesh :: Delaunay3d where
  "stripped_mesh =
   \<lparr>weighted = False, keep_infinite = False, do_reorder = False, nb_vertices = 5,
    vertices = [0, 0, 0,  4, 0, 0,  0, 4, 0,  0, 0, 4,  1, 1, 1],
    heights = [], reorder = [0, 1, 2, 3, 4],
    cell_to_v_store = [0, 1, 2, 4,  4, 1, 2, 3,  0, 4, 2, 3,  0, 1, 4, 3],
    cell_to_cell_store = [1, 2, 3, -1,  -1, 2, 3, 0,  1, -1, 3, 0,  1, 2, -1, 0],
    cell_next = [-1, -1, -1, -1, -1, 0, 1, 2, 3], first_free = 0,
    cur_stamp = -2147483644, nb_cells = 4, nb_finite_cells = 0\<rparr>"

definition outside_point :: "point option" where
  "outside_point = Some (1, 1, 2)"



text \<open>The store after the first tetrahedron of five points, the fifth being the first
  once more.\<close>

definition duplicate_mesh :: Delaunay3d where
  "duplicate_mesh =
   \<lparr>weighted = False, keep_infinite = False, do_reorder = False, nb_vertices = 5,
    vertices = [0, 0, 0,  4, 0, 0,  0, 4, 0,  0, 0, 4,  0, 0, 0],
    heights = [], reorder = [0, 1, 2, 3, 4],
    cell_to_v_store = [0, 1, 2, 3,  -1, 3, 2, 1,  -1, 2, 3, 0,  -1, 1, 0, 3,  -1, 2, 0, 1],
    cell_to_cell_store = [1, 2, 3, 4,  0, 4, 3, 2,  0, 3, 4, 1,  0, 2, 1, 4,  0, 3, 1, 2],
    cell_next = [-1, -1, -1, -1, -1], first_free = END_OF_LIST,
    cur_stamp = 0, nb_cells = 0, nb_finite_cells = 0\<rparr>"

text \<open>A conflict zone that is not empty, in a store within the index range.\<close>

definition zone_ok :: "czone \<Rightarrow> bool" where
  "zone_ok z = (max_t (cz_s z) \<le> END_OF_LIST \<and> cz_first z \<noteq> END_OF_LIST \<and> cz_last z \<noteq> END_OF_LIST)"

text \<open>The conflict predicate of the example below, where the fifth point lies strictly
  inside the first tetrahedron: that cell is in conflict with the point and the four
  virtual cells around it are not.\<close>

definition only_cell0 :: "Delaunay3d \<Rightarrow> int \<Rightarrow> int \<Rightarrow> bool option" where
  "only_cell0 s t v = Some (t = 0)"

text \<open>The store after the first tetrahedron of the five points with the inner point,
  the conflict zone of the inner point, and the store after its insertion.\<close>

definition first_mesh :: Delaunay3d where
  "first_mesh =
   \<lparr>weighted = False, keep_infinite = False, do_reorder = False, nb_vertices = 5,
    vertices = [0, 0, 0,  4, 0, 0,  0, 4, 0,  0, 0, 4,  1, 1, 1],
    heights = [], reorder = [0, 1, 2, 3, 4],
    cell_to_v_store = [0, 1, 2, 3,  -1, 3, 2, 1,  -1, 2, 3, 0,  -1, 1, 0, 3,  -1, 2, 0, 1],
    cell_to_cell_store = [1, 2, 3, 4,  0, 4, 3, 2,  0, 3, 4, 1,  0, 2, 1, 4,  0, 3, 1, 2],
    cell_next = [-1, -1, -1, -1, -1], first_free = END_OF_LIST,
    cur_stamp = 0, nb_cells = 0, nb_finite_cells = 0\<rparr>"

definition first_zone :: czone where
  "first_zone = \<lparr>cz_s = first_mesh\<lparr>cur_stamp := -2147483644,
        cell_next := [2147483647, -2147483644, -2147483644, -2147483644, -2147483644]\<rparr>,
      cz_t_bndry = Some 0, cz_f_bndry = Some 3, cz_first = 0, cz_last = 0\<rparr>"

definition star_mesh :: Delaunay3d where
  "star_mesh = first_mesh\<lparr>cur_stamp := -2147483644,
     cell_to_v_store := [0, 1, 2, 3,  -1, 3, 2, 1,  -1, 2, 3, 0,  -1, 1, 0, 3,  -1, 2, 0, 1,
                         0, 1, 2, 4,  4, 1, 2, 3,  0, 4, 2, 3,  0, 1, 4, 3],
     cell_to_cell_store := [1, 2, 3, 4,  6, 4, 3, 2,  7, 3, 4, 1,  8, 2, 1, 4,  5, 3, 1, 2,
                            6, 7, 8, 4,  1, 7, 8, 5,  6, 2, 8, 5,  6, 7, 3, 5],
     cell_next := [2147483647, -2147483644, -2147483644, -2147483644, -2147483644, -1, -1, -1, -1],
     first_free := 0\<rparr>"

definition inner_points :: "real list" where
  "inner_points = [0, 0, 0,  4, 0, 0,  0, 4, 0,  0, 0, 4,  1, 1, 1]"





text \<open>The two walks for the query point in the stripped mesh: at their start in cell
  \<open>0\<close>, and after crossing into cell \<open>1\<close>.\<close>

definition located_walk :: walk where
  "located_walk = \<lparr>w_t = 0, w_pred = -1, w_pv = [Vtx 0, Vtx 1, Vtx 2, Vtx 4], w_f0 = 0, w_df = 0,
                    w_orient = [None, None, None, None], w_k = 2\<rparr>"

definition crossed_walk :: walk where
  "crossed_walk = \<lparr>w_t = 1, w_pred = 0, w_pv = [Vtx 4, Vtx 1, Vtx 2, Vtx 3], w_f0 = 0, w_df = 0,
                    w_orient = [Some NEGATIVE, None, None, None], w_k = 3\<rparr>"

definition located_iwalk :: iwalk where
  "located_iwalk = \<lparr>iw_t = 0, iw_pred = -1, iw_pv = [Vtx 0, Vtx 1, Vtx 2, Vtx 4], iw_f = 0,
                     iw_max_iter = 2500\<rparr>"

definition crossed_iwalk :: iwalk where
  "crossed_iwalk = \<lparr>iw_t = 1, iw_pred = 0, iw_pv = [Vtx 4, Vtx 1, Vtx 2, Vtx 3], iw_f = 0,
                     iw_max_iter = 2499\<rparr>"

text \<open>Five points, the fifth being the first once more.\<close>

definition duplicate_points :: "real list" where
  "duplicate_points = [0, 0, 0,  4, 0, 0,  0, 4, 0,  0, 0, 4,  0, 0, 0]"

section \<open>The duality tables\<close>

lemma lt4_cases: "(f::nat) < 4 \<longleftrightarrow> f = 0 \<or> f = 1 \<or> f = 2 \<or> f = 3"
  by auto

lemma halfedge_facet_common_vertex:
  assumes "f1 < 4" "f2 < 4" "f1 \<noteq> f2"
  shows "halfedge_facet f1 f2 \<in> {0, 1, 2, 3} - {f1, f2}"
    and "halfedge_facet f1 f2 \<noteq> halfedge_facet f2 f1"
  using assms unfolding lt4_cases
  by (auto simp: halfedge_facet_def halfedge_facet_table_def)

lemma tet_facet_vertex_others:
  assumes "lv < 4"
  shows "{tet_facet_vertex lv 0, tet_facet_vertex lv 1, tet_facet_vertex lv 2} = {0, 1, 2, 3} - {lv}"
  using assms unfolding lt4_cases
  by (auto simp: tet_facet_vertex_def tet_facet_vertex_table_def)

lemma tet_facet_vertex_orientation:
  assumes "lv < 4"
  shows "orient_3d (P lv) (P (tet_facet_vertex lv 0)) (P (tet_facet_vertex lv 1))
           (P (tet_facet_vertex lv 2)) = orient_3d (P 0) (P 1) (P 2) (P 3)"
proof -
  obtain x0 y0 z0 x1 y1 z1 x2 y2 z2 x3 y3 z3 where
    P: "P 0 = (x0, y0, z0)" "P 1 = (x1, y1, z1)" "P 2 = (x2, y2, z2)" "P 3 = (x3, y3, z3)"
    by (metis prod_cases3)
  have D: "orient_3d_Delta (P 1) (P 0) (P 3) (P 2) = orient_3d_Delta (P 0) (P 1) (P 2) (P 3)"
          "orient_3d_Delta (P 2) (P 3) (P 0) (P 1) = orient_3d_Delta (P 0) (P 1) (P 2) (P 3)"
          "orient_3d_Delta (P 3) (P 1) (P 0) (P 2) = orient_3d_Delta (P 0) (P 1) (P 2) (P 3)"
    unfolding P by (simp_all add: orient_3d_Delta_def det3x3_def algebra_simps)
  from assms consider "lv = 0" | "lv = 1" | "lv = 2" | "lv = 3"
    unfolding lt4_cases by blast
  then show ?thesis
  proof cases
    case 1
    then show ?thesis
      by (simp add: tet_facet_vertex_def tet_facet_vertex_table_def)
  next
    case 2
    have "orient_3d (P 1) (P 0) (P 3) (P 2) = orient_3d (P 0) (P 1) (P 2) (P 3)"
      by (simp only: orient_3d_def D)
    with 2 show ?thesis
      by (simp add: tet_facet_vertex_def tet_facet_vertex_table_def)
  next
    case 3
    have "orient_3d (P 2) (P 3) (P 0) (P 1) = orient_3d (P 0) (P 1) (P 2) (P 3)"
      by (simp only: orient_3d_def D)
    with 3 show ?thesis
      by (simp add: tet_facet_vertex_def tet_facet_vertex_table_def)
  next
    case 4
    have "orient_3d (P 3) (P 1) (P 0) (P 2) = orient_3d (P 0) (P 1) (P 2) (P 3)"
      by (simp only: orient_3d_def D)
    with 4 show ?thesis
      by (simp add: tet_facet_vertex_def tet_facet_vertex_table_def)
  qed
qed

text \<open>C9. The two lookup tables are combinatorially correct. For two distinct local facets
  \<open>f1\<close>, \<open>f2\<close> the entry \<open>halfedge_facet_[f1][f2]\<close> is a local vertex other than \<open>f1\<close> and
  \<open>f2\<close> (a vertex that both facets hold), and the entries for \<open>(f1,f2)\<close> and \<open>(f2,f1)\<close> differ.
  For a local vertex \<open>lv\<close> the row \<open>tet_facet_vertex_[lv]\<close> lists exactly the three other
  local vertices, in an order such that the tetrahedron made of \<open>lv\<close> and the row has the
  orientation of \<open>(0,1,2,3)\<close>, whatever points the four local vertices stand for.\<close>

theorem duality_tables_correct:
  "(\<forall>f1<4. \<forall>f2<4. f1 \<noteq> f2 \<longrightarrow>
      halfedge_facet f1 f2 \<in> {0, 1, 2, 3} - {f1, f2} \<and>
      halfedge_facet f1 f2 \<noteq> halfedge_facet f2 f1) \<and>
   (\<forall>lv<4.
      {tet_facet_vertex lv 0, tet_facet_vertex lv 1, tet_facet_vertex lv 2} = {0, 1, 2, 3} - {lv} \<and>
      (\<forall>P. orient_3d (P lv) (P (tet_facet_vertex lv 0)) (P (tet_facet_vertex lv 1))
               (P (tet_facet_vertex lv 2)) = orient_3d (P 0) (P 1) (P 2) (P 3)))"
proof (intro conjI allI impI)
  fix f1 f2 :: nat
  assume "f1 < 4" "f2 < 4" "f1 \<noteq> f2"
  then show "halfedge_facet f1 f2 \<in> {0, 1, 2, 3} - {f1, f2}"
    and "halfedge_facet f1 f2 \<noteq> halfedge_facet f2 f1"
    by (rule halfedge_facet_common_vertex)+
next
  fix lv :: nat
  assume "lv < 4"
  then show "{tet_facet_vertex lv 0, tet_facet_vertex lv 1, tet_facet_vertex lv 2} = {0, 1, 2, 3} - {lv}"
    by (rule tet_facet_vertex_others)
next
  fix lv :: nat and P :: "nat \<Rightarrow> point"
  assume "lv < 4"
  then show "orient_3d (P lv) (P (tet_facet_vertex lv 0)) (P (tet_facet_vertex lv 1))
               (P (tet_facet_vertex lv 2)) = orient_3d (P 0) (P 1) (P 2) (P 3)"
    by (rule tet_facet_vertex_orientation)
qed

theorem duality_tables_correct_witness:
  "(0::nat) < 4 \<and> (1::nat) < 4 \<and> (0::nat) \<noteq> 1 \<and> (2::nat) < 4 \<and>
   halfedge_facet 0 1 \<in> {0, 1, 2, 3} - {0, 1} \<and>
   halfedge_facet 0 1 \<noteq> halfedge_facet 1 0 \<and>
   {tet_facet_vertex 2 0, tet_facet_vertex 2 1, tet_facet_vertex 2 2} = {0, 1, 2, 3} - {2} \<and>
   orient_3d (unit_corner 2) (unit_corner (tet_facet_vertex 2 0)) (unit_corner (tet_facet_vertex 2 1))
     (unit_corner (tet_facet_vertex 2 2))
     = orient_3d (unit_corner 0) (unit_corner 1) (unit_corner 2) (unit_corner 3)"
proof -
  have a: "(0::nat) < 4" and b: "(1::nat) < 4" and c: "(0::nat) \<noteq> 1" and d: "(2::nat) < 4"
    by simp_all
  note T = duality_tables_correct
  have h: "halfedge_facet 0 1 \<in> {0, 1, 2, 3} - {0, 1} \<and>
      halfedge_facet 0 1 \<noteq> halfedge_facet 1 0"
    by (rule T[THEN conjunct1, rule_format, OF a b c])
  have t1: "{tet_facet_vertex 2 0, tet_facet_vertex 2 1, tet_facet_vertex 2 2} = {0, 1, 2, 3} - {2}"
    by (rule T[THEN conjunct2, rule_format, OF d, THEN conjunct1])
  have t2: "orient_3d (unit_corner 2) (unit_corner (tet_facet_vertex 2 0))
      (unit_corner (tet_facet_vertex 2 1)) (unit_corner (tet_facet_vertex 2 2))
     = orient_3d (unit_corner 0) (unit_corner 1) (unit_corner 2) (unit_corner 3)"
    by (rule T[THEN conjunct2, rule_format, OF d, THEN conjunct2, rule_format])
  show ?thesis
    by (intro conjI a b c d h[THEN conjunct1] h[THEN conjunct2] t1 t2)
qed

section \<open>Collinearity\<close>

lemma geo_sgn_ZERO: "geo_sgn x = ZERO \<longleftrightarrow> x = 0"
  by (simp add: geo_sgn_def)

lemma parallel_on_line:
  fixes ux uy uz wx wy wz :: real
  assumes c1: "uy * wz = uz * wy" and c2: "uz * wx = ux * wz" and c3: "ux * wy = uy * wx"
  shows "\<exists>dx dy dz t2 t3. ux = t2 * dx \<and> uy = t2 * dy \<and> uz = t2 * dz \<and>
                           wx = t3 * dx \<and> wy = t3 * dy \<and> wz = t3 * dz"
proof -
  consider "ux \<noteq> 0" | "uy \<noteq> 0" | "uz \<noteq> 0" | "ux = 0" "uy = 0" "uz = 0" by blast
  then show ?thesis
  proof cases
    case 1
    have "ux = 1 * ux \<and> uy = 1 * uy \<and> uz = 1 * uz \<and>
          wx = (wx / ux) * ux \<and> wy = (wx / ux) * uy \<and> wz = (wx / ux) * uz"
      using 1 c2 c3 by (simp add: field_simps)
    then show ?thesis by blast
  next
    case 2
    have "ux = 1 * ux \<and> uy = 1 * uy \<and> uz = 1 * uz \<and>
          wx = (wy / uy) * ux \<and> wy = (wy / uy) * uy \<and> wz = (wy / uy) * uz"
      using 2 c1 c3 by (simp add: field_simps)
    then show ?thesis by blast
  next
    case 3
    have "ux = 1 * ux \<and> uy = 1 * uy \<and> uz = 1 * uz \<and>
          wx = (wz / uz) * ux \<and> wy = (wz / uz) * uy \<and> wz = (wz / uz) * uz"
      using 3 c1 c2 by (simp add: field_simps)
    then show ?thesis by blast
  next
    case 4
    have "ux = 0 * wx \<and> uy = 0 * wy \<and> uz = 0 * wz \<and>
          wx = 1 * wx \<and> wy = 1 * wy \<and> wz = 1 * wz"
      using 4 by simp
    then show ?thesis by blast
  qed
qed

text \<open>The four coplanarity tests force the cross product of \<open>p2 - p1\<close> and \<open>p3 - p1\<close> to
  vanish: the determinant is an affine function of the fourth point, and it is zero at
  four affinely independent points.\<close>

lemma colinear_cross_product:
  fixes x1 y1 z1 x2 y2 z2 x3 y3 z3 :: real
  assumes "points_are_colinear (x1, y1, z1) (x2, y2, z2) (x3, y3, z3)"
  shows "(y2 - y1) * (z3 - z1) = (z2 - z1) * (y3 - y1)"
    and "(z2 - z1) * (x3 - x1) = (x2 - x1) * (z3 - z1)"
    and "(x2 - x1) * (y3 - y1) = (y2 - y1) * (x3 - x1)"
proof -
  let ?c1 = "(y2 - y1) * (z3 - z1) - (z2 - z1) * (y3 - y1)"
  let ?c2 = "(z2 - z1) * (x3 - x1) - (x2 - x1) * (z3 - z1)"
  let ?c3 = "(x2 - x1) * (y3 - y1) - (y2 - y1) * (x3 - x1)"
  have D: "orient_3d_Delta (x1, y1, z1) (x2, y2, z2) (x3, y3, z3) (qx, qy, qz)
             = ?c1 * (qx - x1) + ?c2 * (qy - y1) + ?c3 * (qz - z1)" for qx qy qz
    by (simp add: orient_3d_Delta_def det3x3_def algebra_simps)
  from assms have e0: "?c1 * (0 - x1) + ?c2 * (0 - y1) + ?c3 * (0 - z1) = 0"
    and e1: "?c1 * (0 - x1) + ?c2 * (0 - y1) + ?c3 * (1 - z1) = 0"
    and e2: "?c1 * (0 - x1) + ?c2 * (1 - y1) + ?c3 * (0 - z1) = 0"
    and e3: "?c1 * (1 - x1) + ?c2 * (0 - y1) + ?c3 * (0 - z1) = 0"
    unfolding points_are_colinear_def orient_3d_def geo_sgn_ZERO q000_def q001_def q010_def q100_def D
    by blast+
  have "?c3 = 0" using e0 e1 by (simp add: algebra_simps)
  moreover have "?c2 = 0" using e0 e2 by (simp add: algebra_simps)
  moreover have "?c1 = 0" using e0 e3 by (simp add: algebra_simps)
  ultimately show "(y2 - y1) * (z3 - z1) = (z2 - z1) * (y3 - y1)"
    and "(z2 - z1) * (x3 - x1) = (x2 - x1) * (z3 - z1)"
    and "(x2 - x1) * (y3 - y1) = (y2 - y1) * (x3 - x1)" by simp_all
qed

lemma colinear_imp_collinear3:
  assumes "points_are_colinear p1 p2 p3"
  shows "collinear3 p1 p2 p3"
proof -
  obtain x1 y1 z1 x2 y2 z2 x3 y3 z3 where
    p: "p1 = (x1, y1, z1)" "p2 = (x2, y2, z2)" "p3 = (x3, y3, z3)"
    by (metis prod_cases3)
  from colinear_cross_product[OF assms[unfolded p]]
  obtain dx dy dz t2 t3 where
    d: "x2 - x1 = t2 * dx" "y2 - y1 = t2 * dy" "z2 - z1 = t2 * dz"
       "x3 - x1 = t3 * dx" "y3 - y1 = t3 * dy" "z3 - z1 = t3 * dz"
    using parallel_on_line[of "y2 - y1" "z3 - z1" "z2 - z1" "y3 - y1" "x3 - x1" "x2 - x1"] by blast
  have "on_line p1 (dx, dy, dz) p1"
    unfolding on_line_def p by (intro exI[of _ 0]) simp
  moreover have "on_line p1 (dx, dy, dz) p2"
    unfolding on_line_def p using d by (intro exI[of _ t2]) (simp add: algebra_simps)
  moreover have "on_line p1 (dx, dy, dz) p3"
    unfolding on_line_def p using d by (intro exI[of _ t3]) (simp add: algebra_simps)
  ultimately show ?thesis unfolding collinear3_def by blast
qed

lemma collinear3_imp_colinear:
  assumes "collinear3 p1 p2 p3"
  shows "points_are_colinear p1 p2 p3"
  using assms
  unfolding collinear3_def on_line_def points_are_colinear_def orient_3d_def orient_3d_Delta_def
    geo_sgn_def det3x3_def q000_def q001_def q010_def q100_def
  by (cases p1; cases p2; cases p3) (clarsimp, simp add: algebra_simps)

text \<open>C10. For all 3d points \<open>p1\<close>, \<open>p2\<close>, \<open>p3\<close> the helper \<open>points_are_colinear\<close> answers
  true exactly when the three points lie on a common line: being coplanar with each of
  the four reference points \<open>(0,0,0)\<close>, \<open>(0,0,1)\<close>, \<open>(0,1,0)\<close>, \<open>(1,0,0)\<close> is the same as being
  collinear.\<close>

theorem points_are_colinear_iff_collinear:
  "points_are_colinear p1 p2 p3 \<longleftrightarrow> collinear3 p1 p2 p3"
  using colinear_imp_collinear3 collinear3_imp_colinear by blast

section \<open>What the construction leaves untouched\<close>

lemma input_part_simps [simp]:
  "input_part (s\<lparr>cell_to_v_store := a\<rparr>) = input_part s"
  "input_part (s\<lparr>cell_to_cell_store := b\<rparr>) = input_part s"
  "input_part (s\<lparr>cell_next := c\<rparr>) = input_part s"
  "input_part (s\<lparr>first_free := d\<rparr>) = input_part s"
  "input_part (s\<lparr>cur_stamp := e\<rparr>) = input_part s"
  "input_part (s\<lparr>nb_cells := f\<rparr>) = input_part s"
  "input_part (s\<lparr>nb_finite_cells := g\<rparr>) = input_part s"
  by (simp_all add: input_part_def)

lemma set_tet_vertex_input: "set_tet_vertex s t lv v = Some s' \<Longrightarrow> input_part s' = input_part s"
  by (auto simp: set_tet_vertex_def bind_eq_Some_conv)

lemma set_tet_adjacent_input: "set_tet_adjacent s t lf t2 = Some s' \<Longrightarrow> input_part s' = input_part s"
  by (auto simp: set_tet_adjacent_def bind_eq_Some_conv)

lemma mark_tet_input: "mark_tet s t = Some s' \<Longrightarrow> input_part s' = input_part s"
  by (auto simp: mark_tet_def bind_eq_Some_conv)

lemma add_tet_to_list_input: "add_tet_to_list s t a b = Some (s', c, d) \<Longrightarrow> input_part s' = input_part s"
  by (auto simp: add_tet_to_list_def bind_eq_Some_conv split: if_splits)

lemma new_tetrahedron_input:
  assumes "new_tetrahedron s v0 v1 v2 v3 = Some (r, s')"
  shows "input_part s' = input_part s"
proof -
  from assms obtain r1 s1 s2 s3 s4 s5 s6 s7 s8 where
    a: "(if first_free s = END_OF_LIST then
          Some (max_t s,
                s\<lparr>cell_to_v_store := cell_to_v_store s @ [-1, -1, -1, -1],
                  cell_to_cell_store := cell_to_cell_store s @ [-1, -1, -1, -1],
                  cell_next := cell_next s @ [NOT_IN_LIST]\<rparr>)
        else do {
          nxt \<leftarrow> tet_next s (first_free s);
          ns \<leftarrow> set_at (cell_next s) (first_free s) NOT_IN_LIST;
          Some (first_free s, s\<lparr>first_free := nxt, cell_next := ns\<rparr>)
        }) = Some (r1, s1)"
    and b: "set_tet_adjacent s1 r1 0 (-1) = Some s2" "set_tet_adjacent s2 r1 1 (-1) = Some s3"
       "set_tet_adjacent s3 r1 2 (-1) = Some s4" "set_tet_adjacent s4 r1 3 (-1) = Some s5"
       "set_tet_vertex s5 r1 0 v0 = Some s6" "set_tet_vertex s6 r1 1 v1 = Some s7"
       "set_tet_vertex s7 r1 2 v2 = Some s8" "set_tet_vertex s8 r1 3 v3 = Some s'"
    unfolding new_tetrahedron_def by (auto simp: bind_eq_Some_conv)
  from a have "input_part s1 = input_part s"
    by (auto simp: bind_eq_Some_conv split: if_splits)
  with b show ?thesis
    by (metis set_tet_vertex_input set_tet_adjacent_input)
qed

lemma create_virtual_input:
  "create_virtual s t0 fs ts = Some (ts', s') \<Longrightarrow> input_part s' = input_part s"
proof (induction fs arbitrary: s ts)
  case Nil
  then show ?case by simp
next
  case (Cons f fs)
  from Cons.prems obtain v1 v2 v3 t s1 where
    n: "new_tetrahedron s VERTEX_AT_INFINITY v1 v2 v3 = Some (t, s1)"
    and r: "create_virtual s1 t0 fs (ts[f := t]) = Some (ts', s')"
    by (auto simp: bind_eq_Some_conv)
  from Cons.IH[OF r] new_tetrahedron_input[OF n] show ?case by simp
qed

lemma connect_real_input:
  "connect_real s t0 ts fs = Some s' \<Longrightarrow> input_part s' = input_part s"
proof (induction fs arbitrary: s)
  case Nil
  then show ?case by simp
next
  case (Cons f fs)
  from Cons.prems obtain s1 s2 where
    a: "set_tet_adjacent s (ts ! f) 0 t0 = Some s1"
    and b: "set_tet_adjacent s1 t0 (int f) (ts ! f) = Some s2"
    and r: "connect_real s2 t0 ts fs = Some s'"
    by (auto simp: bind_eq_Some_conv)
  from Cons.IH[OF r] set_tet_adjacent_input[OF a] set_tet_adjacent_input[OF b]
  show ?case by simp
qed

lemma connect_virtual_input:
  "connect_virtual s ts fs = Some s' \<Longrightarrow> input_part s' = input_part s"
proof (induction fs arbitrary: s)
  case Nil
  then show ?case by simp
next
  case (Cons f fs)
  from Cons.prems obtain s1 s2 s3 where
    a: "set_tet_adjacent s (ts ! f) 1 (ts ! tet_facet_vertex f 2) = Some s1"
    and b: "set_tet_adjacent s1 (ts ! f) 2 (ts ! tet_facet_vertex f 1) = Some s2"
    and c: "set_tet_adjacent s2 (ts ! f) 3 (ts ! tet_facet_vertex f 0) = Some s3"
    and r: "connect_virtual s3 ts fs = Some s'"
    by (auto simp: bind_eq_Some_conv)
  from Cons.IH[OF r] set_tet_adjacent_input[OF a] set_tet_adjacent_input[OF b]
    set_tet_adjacent_input[OF c]
  show ?case by simp
qed

lemma first_cells_input:
  assumes "first_cells s iv0 iv1 iv2 iv3 = Some s'"
  shows "input_part s' = input_part s"
proof -
  from assms obtain t0 s1 ts s2 s3 where
    a: "new_tetrahedron s iv0 iv1 iv2 iv3 = Some (t0, s1)"
    and b: "create_virtual s1 t0 [0, 1, 2, 3] [0, 0, 0, 0] = Some (ts, s2)"
    and c: "connect_real s2 t0 ts [0, 1, 2, 3] = Some s3"
    and d: "connect_virtual s3 ts [0, 1, 2, 3] = Some s'"
    unfolding first_cells_def by (auto simp: bind_eq_Some_conv)
  from new_tetrahedron_input[OF a] create_virtual_input[OF b]
    connect_real_input[OF c] connect_virtual_input[OF d]
  show ?thesis by simp
qed

lemma create_first_tetrahedron_cases:
  assumes "create_first_tetrahedron s = Some (r, s')"
  obtains (degenerate) "first_quadruple s = Some None" "r = None" "s' = s"
  | (found) iv0 iv1 iv2 iv3 where
      "first_quadruple s = Some (Some (iv0, iv1, iv2, iv3))"
      "first_cells s iv0 iv1 iv2 iv3 = Some s'"
      "r = Some (iv0, iv1, iv2, iv3)"
proof -
  from assms obtain q where q: "first_quadruple s = Some q"
    and r: "(case q of None \<Rightarrow> Some (None, s)
             | Some (iv0, iv1, iv2, iv3) \<Rightarrow> do {
                 s' \<leftarrow> first_cells s iv0 iv1 iv2 iv3;
                 Some (Some (iv0, iv1, iv2, iv3), s')
               }) = Some (r, s')"
    unfolding create_first_tetrahedron_def by (auto simp: bind_eq_Some_conv)
  show thesis
  proof (cases q)
    case None
    with q r show thesis by (intro degenerate) simp_all
  next
    case (Some quad)
    obtain iv0 iv1 iv2 iv3 where quad: "quad = (iv0, iv1, iv2, iv3)"
      by (cases quad) auto
    with Some q r show thesis
      by (intro found[of iv0 iv1 iv2 iv3]) (auto simp: bind_eq_Some_conv)
  qed
qed

lemma create_first_tetrahedron_input:
  assumes "create_first_tetrahedron s = Some (r, s')"
  shows "input_part s' = input_part s"
  using assms
proof (cases rule: create_first_tetrahedron_cases)
  case degenerate
  then show ?thesis by simp
next
  case (found iv0 iv1 iv2 iv3)
  then show ?thesis using first_cells_input by blast
qed

lemma find_conflict_zone_recursive_input:
  "find_conflict_zone_recursive n C v t lfs z = Some z' \<Longrightarrow> input_part (cz_s z') = input_part (cz_s z)"
proof (induction n arbitrary: t lfs z z')
  case 0
  then show ?case by (cases lfs) simp_all
next
  case (Suc n)
  from Suc.prems show ?case
  proof (induction lfs arbitrary: z)
    case Nil
    then show ?case by simp
  next
    case (Cons lf lfs)
    from Cons.prems obtain t2 in_list marked where
      r: "tet_adjacent (cz_s z) t lf = Some t2" "tet_is_in_list (cz_s z) t2 = Some in_list"
         "tet_is_marked (cz_s z) t2 = Some marked"
      and k: "(if in_list \<or> marked then find_conflict_zone_recursive (Suc n) C v t lfs z
           else do {
             conflict \<leftarrow> C (cz_s z) t2 v;
             if conflict then do {
               (s1, first, lst) \<leftarrow> add_tet_to_list (cz_s z) t2 (cz_first z) (cz_last z);
               z1 \<leftarrow> find_conflict_zone_recursive n C v t2 [0, 1, 2, 3]
                       (z\<lparr>cz_s := s1, cz_first := first, cz_last := lst\<rparr>);
               find_conflict_zone_recursive (Suc n) C v t lfs z1
             } else do {
               s1 \<leftarrow> mark_tet (cz_s z) t2;
               find_conflict_zone_recursive (Suc n) C v t lfs
                 (z\<lparr>cz_s := s1, cz_t_bndry := Some t, cz_f_bndry := Some lf\<rparr>)
             }
           }) = Some z'"
      by (auto simp: bind_eq_Some_conv)
    show ?case
    proof (cases "in_list \<or> marked")
      case True
      with k Cons.IH show ?thesis by simp
    next
      case False
      with k obtain conflict where c: "C (cz_s z) t2 v = Some conflict"
        by (auto simp: bind_eq_Some_conv)
      show ?thesis
      proof (cases conflict)
        case True
        with k False c obtain s1 first lst z1 where
          a: "add_tet_to_list (cz_s z) t2 (cz_first z) (cz_last z) = Some (s1, first, lst)"
          and b: "find_conflict_zone_recursive n C v t2 [0, 1, 2, 3]
                       (z\<lparr>cz_s := s1, cz_first := first, cz_last := lst\<rparr>) = Some z1"
          and d: "find_conflict_zone_recursive (Suc n) C v t lfs z1 = Some z'"
          by (auto simp: bind_eq_Some_conv)
        from add_tet_to_list_input[OF a] Suc.IH[OF b] Cons.IH[OF d] show ?thesis by simp
      next
        case nc: False
        with k False c obtain s1 where
          a: "mark_tet (cz_s z) t2 = Some s1"
          and d: "find_conflict_zone_recursive (Suc n) C v t lfs
                 (z\<lparr>cz_s := s1, cz_t_bndry := Some t, cz_f_bndry := Some lf\<rparr>) = Some z'"
          by (auto simp: bind_eq_Some_conv)
        from mark_tet_input[OF a] Cons.IH[OF d] show ?thesis by simp
      qed
    qed
  qed
qed

lemma add_zero_neighbors_input:
  "add_zero_neighbors t os lfs z = Some z' \<Longrightarrow> input_part (cz_s z') = input_part (cz_s z)"
proof (induction lfs arbitrary: z)
  case Nil
  then show ?case by simp
next
  case (Cons lf lfs)
  show ?case
  proof (cases "os ! nat lf = ZERO")
    case True
    with Cons.prems obtain t2 s1 first lst where
      a: "add_tet_to_list (cz_s z) t2 (cz_first z) (cz_last z) = Some (s1, first, lst)"
      and b: "add_zero_neighbors t os lfs (z\<lparr>cz_s := s1, cz_first := first, cz_last := lst\<rparr>) = Some z'"
      by (auto simp: bind_eq_Some_conv)
    from add_tet_to_list_input[OF a] Cons.IH[OF b] show ?thesis by simp
  next
    case False
    with Cons show ?thesis by simp
  qed
qed

lemma recurse_zero_neighbors_input:
  "recurse_zero_neighbors n C v t os lfs z = Some z' \<Longrightarrow> input_part (cz_s z') = input_part (cz_s z)"
proof (induction lfs arbitrary: z)
  case Nil
  then show ?case by simp
next
  case (Cons lf lfs)
  show ?case
  proof (cases "os ! nat lf = ZERO")
    case True
    with Cons.prems obtain t2 z1 where
      a: "find_conflict_zone_recursive n C v t2 [0, 1, 2, 3] z = Some z1"
      and b: "recurse_zero_neighbors n C v t os lfs z1 = Some z'"
      by (auto simp: bind_eq_Some_conv)
    from find_conflict_zone_recursive_input[OF a] Cons.IH[OF b] show ?thesis by simp
  next
    case False
    with Cons show ?thesis by simp
  qed
qed

lemma set_tet_mark_stamp_input [simp]: "input_part (set_tet_mark_stamp s v) = input_part s"
  by (simp add: set_tet_mark_stamp_def)

lemma empty_zone_simps [simp]:
  "cz_s (empty_zone s v) = set_tet_mark_stamp s v"
  "cz_first (empty_zone s v) = END_OF_LIST"
  "cz_last (empty_zone s v) = END_OF_LIST"
  "cz_t_bndry (empty_zone s v) = None"
  "cz_f_bndry (empty_zone s v) = None"
  by (simp_all add: empty_zone_def)

lemma weighted_stamp [simp]: "weighted (set_tet_mark_stamp s v) = weighted s"
  by (simp add: set_tet_mark_stamp_def)

lemma find_conflict_zone_cases:
  assumes "find_conflict_zone fuel C s v t orient = Some z"
  obtains (duplicate) os where "read_orient orient = Some os" "nb_zero os \<ge> 3" "z = empty_zone s v"
  | (dangling) os where "read_orient orient = Some os" "\<not> nb_zero os \<ge> 3" "weighted s"
      "C (set_tet_mark_stamp s v) t v = Some False" "z = empty_zone s v"
  | (zone) os s2 first lst z3 where "read_orient orient = Some os" "\<not> nb_zero os \<ge> 3"
      "weighted s \<longrightarrow> C (set_tet_mark_stamp s v) t v = Some True"
      "add_tet_to_list (set_tet_mark_stamp s v) t END_OF_LIST END_OF_LIST = Some (s2, first, lst)"
      "seed_zero_facets fuel C v t os ((empty_zone s v)\<lparr>cz_s := s2, cz_first := first, cz_last := lst\<rparr>) = Some z3"
      "find_conflict_zone_recursive fuel C v t [0, 1, 2, 3] z3 = Some z"
proof -
  from assms obtain os where os: "read_orient orient = Some os"
    unfolding find_conflict_zone_def by (auto simp: bind_eq_Some_conv Let_def)
  show thesis
  proof (cases "nb_zero os \<ge> 3")
    case True
    with assms os show thesis
      by (intro duplicate[of os]) (auto simp: find_conflict_zone_def Let_def)
  next
    case nz: False
    with assms os obtain d where
      d: "(if weighted s then do { c \<leftarrow> C (cz_s (empty_zone s v)) t v; Some (\<not> c) } else Some False) = Some d"
      and k: "(if d then Some (empty_zone s v)
         else do {
           (s2, first, lst) \<leftarrow> add_tet_to_list (cz_s (empty_zone s v)) t
                                 (cz_first (empty_zone s v)) (cz_last (empty_zone s v));
           z3 \<leftarrow> seed_zero_facets fuel C v t os ((empty_zone s v)\<lparr>cz_s := s2, cz_first := first, cz_last := lst\<rparr>);
           find_conflict_zone_recursive fuel C v t [0, 1, 2, 3] z3
         }) = Some z"
      unfolding find_conflict_zone_def by (auto simp: bind_eq_Some_conv Let_def)
    show thesis
    proof (cases d)
      case True
      with d have "weighted s" "C (set_tet_mark_stamp s v) t v = Some False"
        by (auto simp: bind_eq_Some_conv split: if_splits)
      with os nz True k show thesis by (intro dangling[of os]) auto
    next
      case False
      with d have c: "weighted s \<longrightarrow> C (set_tet_mark_stamp s v) t v = Some True"
        by (auto simp: bind_eq_Some_conv split: if_splits)
      from k False obtain s2 first lst z3 where
        "add_tet_to_list (set_tet_mark_stamp s v) t END_OF_LIST END_OF_LIST = Some (s2, first, lst)"
        "seed_zero_facets fuel C v t os ((empty_zone s v)\<lparr>cz_s := s2, cz_first := first, cz_last := lst\<rparr>) = Some z3"
        "find_conflict_zone_recursive fuel C v t [0, 1, 2, 3] z3 = Some z"
        by (auto simp: bind_eq_Some_conv)
      with os nz c show thesis by (intro zone[of os s2 first lst z3])
    qed
  qed
qed

lemma seed_zero_facets_input:
  assumes "seed_zero_facets fuel C v t os z = Some z'"
  shows "input_part (cz_s z') = input_part (cz_s z)"
proof (cases "\<not> weighted (cz_s z) \<and> nb_zero os \<noteq> 0")
  case True
  with assms obtain z2 where
    a: "add_zero_neighbors t os [0, 1, 2, 3] z = Some z2"
    and b: "recurse_zero_neighbors fuel C v t os [0, 1, 2, 3] z2 = Some z'"
    unfolding seed_zero_facets_def by (auto simp: bind_eq_Some_conv)
  from add_zero_neighbors_input[OF a] recurse_zero_neighbors_input[OF b] show ?thesis by simp
next
  case False
  with assms show ?thesis unfolding seed_zero_facets_def by auto
qed

lemma find_conflict_zone_input:
  assumes "find_conflict_zone fuel C s v t orient = Some z"
  shows "input_part (cz_s z) = input_part s"
  using assms
proof (cases rule: find_conflict_zone_cases)
  case (duplicate os)
  then show ?thesis by simp
next
  case (dangling os)
  then show ?thesis by simp
next
  case (zone os s2 first lst z3)
  from add_tet_to_list_input[OF zone(4)] seed_zero_facets_input[OF zone(5)]
    find_conflict_zone_recursive_input[OF zone(6)]
  show ?thesis by simp
qed

lemma new_tetrahedron_nonneg:
  assumes "new_tetrahedron s v0 v1 v2 v3 = Some (r, s')"
  shows "0 \<le> r"
proof -
  from assms obtain s1 s2 where "set_tet_adjacent s1 r 0 (-1) = Some s2"
    unfolding new_tetrahedron_def by (auto simp: bind_eq_Some_conv)
  then show ?thesis
    by (auto simp: set_tet_adjacent_def set_at_def bind_eq_Some_conv split: if_splits)
qed

lemma stellate_conflict_zone_cases:
  assumes "stellate_conflict_zone n s v_in t1 f1 prev_f = Some (r, s')"
  obtains m v0 v1 v2 v3 s1 s2 t2 s3 lf s4 where
    "n = Suc m"
    "new_tetrahedron s v0 v1 v2 v3 = Some (r, s1)"
    "set_tet_vertex s1 r f1 v_in = Some s2"
    "tet_adjacent s2 t1 f1 = Some t2"
    "set_tet_adjacent s2 r f1 t2 = Some s3"
    "find_tet_adjacent s3 t2 t1 = Some lf"
    "set_tet_adjacent s3 t2 lf r = Some s4"
    "stellate_facets m s4 v_in t1 f1 prev_f r [0, 1, 2, 3] = Some s'"
proof (cases n)
  case 0
  with assms show ?thesis by simp
next
  case (Suc m)
  with assms that show ?thesis
    by (auto simp: bind_eq_Some_conv)
qed

lemma stellate_conflict_zone_nonneg:
  assumes "stellate_conflict_zone n s v_in t1 f1 prev_f = Some (r, s')"
  shows "0 \<le> r"
  using assms by (cases rule: stellate_conflict_zone_cases) (rule new_tetrahedron_nonneg)

lemma stellate_facets_input_step:
  assumes P: "\<And>s v_in t1 f1 prev_f r s'.
     stellate_conflict_zone n s v_in t1 f1 prev_f = Some (r, s') \<Longrightarrow> input_part s' = input_part s"
  shows "stellate_facets n s v_in t1 f1 prev_f new_t fs = Some s' \<Longrightarrow> input_part s' = input_part s"
proof (induction fs arbitrary: s)
  case Nil
  then show ?case by simp
next
  case (Cons new_f fs)
  show ?case
  proof (cases "new_f = prev_f")
    case True
    with Cons show ?thesis by simp
  next
    case np: False
    with Cons.prems obtain a where a: "tet_adjacent s new_t new_f = Some a"
      by (auto simp: bind_eq_Some_conv)
    show ?thesis
    proof (cases "a \<noteq> -1")
      case True
      with Cons np a show ?thesis by simp
    next
      case False
      with Cons.prems np a obtain cur_t cur_f t_neigh v_neigh_index t_neigh1 s1 s2 s3 where
        r: "(if t_neigh = cur_t then stellate_conflict_zone n s v_in t_neigh cur_f v_neigh_index
             else Some (t_neigh, s)) = Some (t_neigh1, s1)"
        and b: "set_tet_adjacent s1 t_neigh1 v_neigh_index new_t = Some s2"
        and c: "set_tet_adjacent s2 new_t new_f t_neigh1 = Some s3"
        and d: "stellate_facets n s3 v_in t1 f1 prev_f new_t fs = Some s'"
        by (auto simp: bind_eq_Some_conv)
      from r have "input_part s1 = input_part s"
        by (auto dest: P split: if_splits)
      with set_tet_adjacent_input[OF b] set_tet_adjacent_input[OF c] Cons.IH[OF d]
      show ?thesis by simp
    qed
  qed
qed

lemma stellate_conflict_zone_input:
  "stellate_conflict_zone n s v_in t1 f1 prev_f = Some (r, s') \<Longrightarrow> input_part s' = input_part s"
proof (induction n arbitrary: s v_in t1 f1 prev_f r s')
  case 0
  then show ?case by simp
next
  case (Suc n)
  from Suc.prems obtain m v0 v1 v2 v3 s1 s2 t2 s3 lf s4 where
    m: "Suc n = Suc m"
    and a: "new_tetrahedron s v0 v1 v2 v3 = Some (r, s1)"
      "set_tet_vertex s1 r f1 v_in = Some s2"
      "set_tet_adjacent s2 r f1 t2 = Some s3"
      "set_tet_adjacent s3 t2 lf r = Some s4"
    and f: "stellate_facets m s4 v_in t1 f1 prev_f r [0, 1, 2, 3] = Some s'"
    by (cases rule: stellate_conflict_zone_cases) blast
  from m f have "stellate_facets n s4 v_in t1 f1 prev_f r [0, 1, 2, 3] = Some s'" by simp
  from stellate_facets_input_step[OF Suc.IH this]
  have "input_part s' = input_part s4" by simp
  with new_tetrahedron_input[OF a(1)] set_tet_vertex_input[OF a(2)]
    set_tet_adjacent_input[OF a(3)] set_tet_adjacent_input[OF a(4)]
  show ?case by simp
qed

lemma insert_vertex_cases:
  assumes "insert_vertex fuel C ori_inexact rnd s v hint k = Some (r, s', k')"
  obtains (noop) t orient z where
      "locate fuel ori_inexact rnd s (vertex_ptr s v) hint [None, None, None, None] k = Some (t, orient, k')"
      "find_conflict_zone fuel C s v t orient = Some z"
      "cz_first z = END_OF_LIST" "r = NO_TETRAHEDRON" "s' = cz_s z"
  | (inserted) t orient z t_bndry f_bndry s1 ns where
      "locate fuel ori_inexact rnd s (vertex_ptr s v) hint [None, None, None, None] k = Some (t, orient, k')"
      "find_conflict_zone fuel C s v t orient = Some z"
      "cz_first z \<noteq> END_OF_LIST"
      "cz_t_bndry z = Some t_bndry" "cz_f_bndry z = Some f_bndry"
      "stellate_conflict_zone fuel (cz_s z) v t_bndry f_bndry (-1) = Some (r, s1)"
      "set_at (cell_next s1) (cz_last z) (first_free s1) = Some ns"
      "s' = s1\<lparr>cell_next := ns, first_free := cz_first z\<rparr>"
proof -
  from assms obtain t orient z where
    l: "locate fuel ori_inexact rnd s (vertex_ptr s v) hint [None, None, None, None] k = Some (t, orient, k')"
    and z: "find_conflict_zone fuel C s v t orient = Some z"
    and k: "(if cz_first z = END_OF_LIST then Some (NO_TETRAHEDRON, cz_s z, k')
     else do {
       t_bndry \<leftarrow> cz_t_bndry z;
       f_bndry \<leftarrow> cz_f_bndry z;
       (new_tet, s1) \<leftarrow> stellate_conflict_zone fuel (cz_s z) v t_bndry f_bndry (-1);
       ns \<leftarrow> set_at (cell_next s1) (cz_last z) (first_free s1);
       Some (new_tet, s1\<lparr>cell_next := ns, first_free := cz_first z\<rparr>, k')
     }) = Some (r, s', k')"
    unfolding insert_vertex_def
    by (auto simp: bind_eq_Some_conv split: if_splits)
  show thesis
  proof (cases "cz_first z = END_OF_LIST")
    case True
    with l z k show thesis by (intro noop[of t orient z]) auto
  next
    case False
    with k obtain t_bndry f_bndry s1 ns where
      "cz_t_bndry z = Some t_bndry" "cz_f_bndry z = Some f_bndry"
      "stellate_conflict_zone fuel (cz_s z) v t_bndry f_bndry (-1) = Some (r, s1)"
      "set_at (cell_next s1) (cz_last z) (first_free s1) = Some ns"
      "s' = s1\<lparr>cell_next := ns, first_free := cz_first z\<rparr>"
      by (auto simp: bind_eq_Some_conv)
    with l z False show thesis by (intro inserted[of t orient z t_bndry f_bndry s1 ns])
  qed
qed

lemma insert_vertex_input:
  assumes "insert_vertex fuel C ori_inexact rnd s v hint k = Some (r, s', k')"
  shows "input_part s' = input_part s"
  using assms
proof (cases rule: insert_vertex_cases)
  case (noop t orient z)
  with find_conflict_zone_input show ?thesis by simp
next
  case (inserted t orient z t_bndry f_bndry s1 ns)
  from find_conflict_zone_input[OF inserted(2)] stellate_conflict_zone_input[OF inserted(6)] inserted(8)
  show ?thesis by simp
qed

lemma insert_all_input:
  "insert_all fuel C ori_inexact rnd cb vs is s hint k = Some r \<Longrightarrow>
   input_part (case r of Inl s' \<Rightarrow> s' | Inr (s', k') \<Rightarrow> s') = input_part s"
proof (induction "is" arbitrary: s hint k)
  case Nil
  then show ?case by auto
next
  case (Cons i "is")
  show ?case
  proof (cases "case cb of None \<Rightarrow> False | Some progress \<Rightarrow> \<not> progress i (nb_vertices s)")
    case True
    with Cons.prems show ?thesis by auto
  next
    case False
    with Cons.prems obtain v where v: "get_at (reorder s) i = Some v"
      by (auto simp: bind_eq_Some_conv)
    show ?thesis
    proof (cases "v \<noteq> fst vs \<and> v \<noteq> fst (snd vs) \<and> v \<noteq> fst (snd (snd vs)) \<and> v \<noteq> snd (snd (snd vs))")
      case True
      with Cons.prems False v obtain new_hint s1 k1 where
        a: "insert_vertex fuel C ori_inexact rnd s v hint k = Some (new_hint, s1, k1)"
        and b: "insert_all fuel C ori_inexact rnd cb vs is s1
            (if new_hint \<noteq> NO_TETRAHEDRON then new_hint else hint) k1 = Some r"
        by (auto simp: bind_eq_Some_conv)
      from insert_vertex_input[OF a] Cons.IH[OF b] show ?thesis by simp
    next
      case nv: False
      with Cons.prems False v have "insert_all fuel C ori_inexact rnd cb vs is s hint k = Some r"
        by (auto simp: bind_eq_Some_conv)
      from Cons.IH[OF this] show ?thesis .
    qed
  qed
qed

lemma compress_cells_input:
  "compress_cells s ts nb_tets nb_del = Some (s', a, b) \<Longrightarrow> input_part s' = input_part s"
proof (induction ts arbitrary: s nb_tets nb_del)
  case Nil
  then show ?case by simp
next
  case (Cons t ts)
  from Cons.prems obtain keep where
    k: "(if keep then do {
       s1 \<leftarrow> (if t \<noteq> nb_tets then do {
                 vs \<leftarrow> copy_cell (cell_to_v_store s) nb_tets t;
                 cs \<leftarrow> copy_cell (cell_to_cell_store s) nb_tets t;
                 Some (s\<lparr>cell_to_v_store := vs, cell_to_cell_store := cs\<rparr>)
               } else Some s);
       ns \<leftarrow> set_at (cell_next s1) t nb_tets;
       compress_cells (s1\<lparr>cell_next := ns\<rparr>) ts (nb_tets + 1) nb_del
     } else do {
       ns \<leftarrow> set_at (cell_next s) t (-1);
       compress_cells (s\<lparr>cell_next := ns\<rparr>) ts nb_tets (nb_del + 1)
     }) = Some (s', a, b)"
    by (auto simp: bind_eq_Some_conv)
  show ?case
  proof (cases keep)
    case True
    with k obtain s1 ns where
      c: "(if t \<noteq> nb_tets then do {
                 vs \<leftarrow> copy_cell (cell_to_v_store s) nb_tets t;
                 cs \<leftarrow> copy_cell (cell_to_cell_store s) nb_tets t;
                 Some (s\<lparr>cell_to_v_store := vs, cell_to_cell_store := cs\<rparr>)
               } else Some s) = Some s1"
      and r: "compress_cells (s1\<lparr>cell_next := ns\<rparr>) ts (nb_tets + 1) nb_del = Some (s', a, b)"
      by (auto simp: bind_eq_Some_conv)
    from c have "input_part s1 = input_part s"
      by (auto simp: bind_eq_Some_conv split: if_splits)
    with Cons.IH[OF r] show ?thesis by simp
  next
    case False
    with k obtain ns where
      r: "compress_cells (s\<lparr>cell_next := ns\<rparr>) ts nb_tets (nb_del + 1) = Some (s', a, b)"
      by (auto simp: bind_eq_Some_conv)
    from Cons.IH[OF r] show ?thesis by simp
  qed
qed

lemma remap_neighbors_input:
  "remap_neighbors s is = Some s' \<Longrightarrow> input_part s' = input_part s"
proof (induction "is" arbitrary: s)
  case Nil
  then show ?case by simp
next
  case (Cons i "is")
  from Cons.prems obtain cs where
    "remap_neighbors (s\<lparr>cell_to_cell_store := cs\<rparr>) is = Some s'"
    by (auto simp: bind_eq_Some_conv)
  from Cons.IH[OF this] show ?case by simp
qed

lemma scan_finite_input:
  "scan_finite s fp = Some (s', fp') \<Longrightarrow> input_part s' = input_part s"
proof (induction s fp rule: scan_finite.induct)
  case (1 s finite_ptr)
  from "1.prems" obtain fin where f: "tet_is_finite s finite_ptr = Some fin"
    by (subst (asm) scan_finite.simps) (auto simp: bind_eq_Some_conv)
  show ?case
  proof (cases fin)
    case True
    with "1.prems" f obtain ns where
      n: "set_at (cell_next s) finite_ptr finite_ptr = Some ns"
      and r: "scan_finite (s\<lparr>cell_next := ns, nb_finite_cells := nb_finite_cells s + 1\<rparr>) (finite_ptr + 1) = Some (s', fp')"
      by (subst (asm) scan_finite.simps) (auto simp: bind_eq_Some_conv)
    from "1.IH"[OF f True n r] show ?thesis by simp
  next
    case False
    with "1.prems" f show ?thesis
      by (subst (asm) scan_finite.simps) auto
  qed
qed

lemma scan_infinite_input:
  "scan_infinite s ip = Some (s', ip') \<Longrightarrow> input_part s' = input_part s"
proof (induction s ip rule: scan_infinite.induct)
  case (1 s infinite_ptr)
  from "1.prems" obtain fin where f: "tet_is_finite s infinite_ptr = Some fin"
    by (subst (asm) scan_infinite.simps) (auto simp: bind_eq_Some_conv)
  show ?case
  proof (cases fin)
    case False
    with "1.prems" f obtain ns where
      n: "set_at (cell_next s) infinite_ptr infinite_ptr = Some ns"
      and r: "scan_infinite (s\<lparr>cell_next := ns\<rparr>) (infinite_ptr - 1) = Some (s', ip')"
      by (subst (asm) scan_infinite.simps) (auto simp: bind_eq_Some_conv)
    from "1.IH"[OF f False n r] show ?thesis by simp
  next
    case True
    with "1.prems" f show ?thesis
      by (subst (asm) scan_infinite.simps) auto
  qed
qed

lemma partition_cells_input:
  "partition_cells n s fp ip = Some s' \<Longrightarrow> input_part s' = input_part s"
proof (induction n arbitrary: s fp ip)
  case 0
  then show ?case by simp
next
  case (Suc n)
  from Suc.prems obtain s1 fp1 s2 ip1 where
    a: "scan_finite s fp = Some (s1, fp1)"
    and b: "scan_infinite s1 ip = Some (s2, ip1)"
    and k: "(if fp1 > ip1 then Some s2
     else do {
       ns1 \<leftarrow> set_at (cell_next s2) fp1 ip1;
       ns2 \<leftarrow> set_at ns1 ip1 fp1;
       cs \<leftarrow> swap_cells (cell_to_cell_store s2) fp1 ip1 [0, 1, 2, 3];
       vs \<leftarrow> swap_cells (cell_to_v_store s2) fp1 ip1 [0, 1, 2, 3];
       partition_cells n
         (s2\<lparr>cell_next := ns2, nb_finite_cells := nb_finite_cells s2 + 1,
             cell_to_cell_store := cs, cell_to_v_store := vs\<rparr>)
         (fp1 + 1) (ip1 - 1)
     }) = Some s'"
    by (auto simp: bind_eq_Some_conv)
  show ?case
  proof (cases "fp1 > ip1")
    case True
    with k scan_finite_input[OF a] scan_infinite_input[OF b] show ?thesis by simp
  next
    case False
    with k obtain ns2 cs vs where
      "partition_cells n
         (s2\<lparr>cell_next := ns2, nb_finite_cells := nb_finite_cells s2 + 1,
             cell_to_cell_store := cs, cell_to_v_store := vs\<rparr>)
         (fp1 + 1) (ip1 - 1) = Some s'"
      by (auto simp: bind_eq_Some_conv)
    from Suc.IH[OF this] scan_finite_input[OF a] scan_infinite_input[OF b] show ?thesis by simp
  qed
qed

lemma finalize_input:
  assumes "finalize fuel s = Some s'"
  shows "input_part s' = input_part s"
proof -
  from assms obtain s1 nb_tets nb_del s2 s3 where
    a: "compress_cells s [0..max_t s - 1] 0 0 = Some (s1, nb_tets, nb_del)"
    and b: "remap_neighbors (s1\<lparr>cell_to_v_store := take (nat (4 * nb_tets)) (cell_to_v_store s1),
                cell_to_cell_store := take (nat (4 * nb_tets)) (cell_to_cell_store s1)\<rparr>) [0..4 * nb_tets - 1] = Some s2"
    and c: "(if keep_infinite s2 then do {
              s \<leftarrow> partition_cells fuel (s2\<lparr>nb_finite_cells := 0\<rparr>) 0 (nb_tets - 1);
              remap_neighbors s [0..4 * nb_tets - 1]
            } else Some s2) = Some s3"
    and d: "s' = s3\<lparr>nb_cells := nb_tets\<rparr>"
    unfolding finalize_def by (auto simp: bind_eq_Some_conv Let_def)
  from c have "input_part s3 = input_part s2"
    by (auto simp: bind_eq_Some_conv split: if_splits
             dest!: partition_cells_input remap_neighbors_input)
  with compress_cells_input[OF a] remap_neighbors_input[OF b] d show ?thesis by simp
qed

section \<open>Properties of the double-precision arithmetic\<close>

lemma bit_length_bounds:
  "0 < n \<Longrightarrow> 2 ^ (bit_length n - 1) \<le> n \<and> n < 2 ^ bit_length n"
proof (induction n rule: bit_length.induct)
  case (1 n)
  show ?case
  proof (cases "n div 2 = 0")
    case True
    with "1.prems" have "n = 1" by (cases n) auto
    then show ?thesis by (simp add: bit_length.simps)
  next
    case False
    with "1.IH" "1.prems" have ih: "2 ^ (bit_length (n div 2) - 1) \<le> n div 2" "n div 2 < 2 ^ bit_length (n div 2)"
      by auto
    from False have pos: "0 < bit_length (n div 2)" by (subst bit_length.simps) simp
    from "1.prems" have e: "bit_length n = Suc (bit_length (n div 2))" by (subst bit_length.simps) simp
    from pos obtain k where k: "bit_length (n div 2) = Suc k" by (cases "bit_length (n div 2)") auto
    from ih k have "2 * 2 ^ k \<le> 2 * (n div 2)" by simp
    then have a: "2 ^ (bit_length n - 1) \<le> n" using e k by simp
    from ih(2) have "Suc (n div 2) \<le> 2 ^ bit_length (n div 2)" by simp
    then have "2 * Suc (n div 2) \<le> 2 * 2 ^ bit_length (n div 2)" by (simp only: mult_le_mono2)
    then have "n < 2 ^ bit_length n" using e by simp
    with a show ?thesis by simp
  qed
qed

lemma pow2_pos: "0 < pow2 e"
  by (simp add: pow2_def)

lemma pow2_Suc: "pow2 (e + 1) = 2 * pow2 e"
proof (cases "0 \<le> e")
  case True
  then show ?thesis by (simp add: pow2_def nat_add_distrib)
next
  case False
  then obtain k where "nat (- e) = Suc k" "nat (- (e + 1)) = k"
    by (cases "nat (- e)") auto
  with False show ?thesis by (cases "e = -1") (auto simp: pow2_def)
qed

text \<open>The binade of a number other than zero is the exponent of the power of two at or
  below its magnitude.\<close>

lemma binade_bounds:
  assumes "x \<noteq> 0"
  shows "pow2 (binade x) \<le> \<bar>x\<bar> \<and> \<bar>x\<bar> < pow2 (binade x + 1)"
proof (cases "1 \<le> \<bar>x\<bar>")
  case True
  define n where "n = nat \<lfloor>\<bar>x\<bar>\<rfloor>"
  from True have n: "0 < n" "real n \<le> \<bar>x\<bar>" "\<bar>x\<bar> < real n + 1"
    unfolding n_def by (simp add: le_floor_iff, simp, linarith)
  from bit_length_bounds[OF n(1)] have b: "2 ^ (bit_length n - 1) \<le> n" "n < 2 ^ bit_length n" by simp_all
  from n(1) have pos: "0 < bit_length n" by (subst bit_length.simps) simp
  from True have e: "binade x = int (bit_length n) - 1" by (simp add: binade_def n_def)
  from pos have p1: "pow2 (binade x) = 2 ^ (bit_length n - 1)"
    unfolding e pow2_def by (simp add: nat_diff_distrib')
  have p2: "pow2 (binade x + 1) = 2 ^ bit_length n" unfolding e pow2_def by simp
  from b(1) have "(2::real) ^ (bit_length n - 1) \<le> real n"
    by (metis of_nat_le_iff of_nat_numeral of_nat_power)
  with n(2) have l: "pow2 (binade x) \<le> \<bar>x\<bar>" unfolding p1 by linarith
  from b(2) have "Suc n \<le> 2 ^ bit_length n" by simp
  then have "real (Suc n) \<le> 2 ^ bit_length n"
    by (metis of_nat_le_iff of_nat_numeral of_nat_power)
  then have "real n + 1 \<le> 2 ^ bit_length n" by (simp only: of_nat_Suc)
  with n(3) have "\<bar>x\<bar> < pow2 (binade x + 1)" unfolding p2 by linarith
  with l show ?thesis by simp
next
  case False
  define y where "y = 1 / \<bar>x\<bar>"
  from False assms have y: "1 < y" "0 < \<bar>x\<bar>" unfolding y_def by simp_all
  define n where "n = nat (\<lceil>y\<rceil> - 1)"
  from y(1) have c: "2 \<le> \<lceil>y\<rceil>" by (simp add: le_ceiling_iff)
  then have n: "0 < n" "int n = \<lceil>y\<rceil> - 1" unfolding n_def by simp_all
  have yn: "real n < y" "y \<le> real n + 1"
  proof -
    have "real_of_int (\<lceil>y\<rceil> - 1) < y" by linarith
    with n(2) show "real n < y" by (metis of_int_of_nat_eq)
    have "y \<le> real_of_int \<lceil>y\<rceil>" by linarith
    also have "\<dots> = real_of_int (int n + 1)" using n(2) by simp
    finally show "y \<le> real n + 1" by simp
  qed
  from bit_length_bounds[OF n(1)] have b: "2 ^ (bit_length n - 1) \<le> n" "n < 2 ^ bit_length n" by simp_all
  from n(1) have pos: "0 < bit_length n" by (subst bit_length.simps) simp
  from False have e: "binade x = - int (bit_length n)" by (simp add: binade_def n_def y_def)
  from pos have p1: "pow2 (binade x) = 1 / 2 ^ bit_length n"
    unfolding e pow2_def by simp
  from pos have p2: "pow2 (binade x + 1) = 1 / 2 ^ (bit_length n - 1)"
    unfolding e pow2_def by (auto simp: nat_diff_distrib')
  from b(1) have "(2::real) ^ (bit_length n - 1) \<le> real n"
    by (metis of_nat_le_iff of_nat_numeral of_nat_power)
  with yn(1) have u: "2 ^ (bit_length n - 1) < y" by linarith
  from b(2) have "Suc n \<le> 2 ^ bit_length n" by simp
  then have "real (Suc n) \<le> 2 ^ bit_length n"
    by (metis of_nat_le_iff of_nat_numeral of_nat_power)
  then have "real n + 1 \<le> 2 ^ bit_length n" by (simp only: of_nat_Suc)
  with yn(2) have l: "y \<le> 2 ^ bit_length n" by linarith
  have x: "\<bar>x\<bar> = 1 / y" unfolding y_def by simp
  from l y(1) have "1 / 2 ^ bit_length n \<le> 1 / y"
    by (intro divide_left_mono mult_pos_pos) simp_all
  moreover from u y(1) have "1 / y < 1 / 2 ^ (bit_length n - 1)"
    by (intro divide_strict_left_mono mult_pos_pos) simp_all
  ultimately show ?thesis unfolding p1 p2 x by simp
qed

lemma round_to_even_nonneg: "0 \<le> x \<Longrightarrow> 0 \<le> round_to_even x"
  by (simp add: round_to_even_def)

lemma round_double_nonneg: "0 \<le> x \<Longrightarrow> nonneg_double (round_double x)"
  using round_to_even_nonneg[of "x / pow2 (quantum x)"] pow2_pos[of "quantum x"]
  by (simp add: round_double_def nonneg_double_def)

lemma dadd_nonneg: "nonneg_double a \<Longrightarrow> nonneg_double b \<Longrightarrow> nonneg_double (dadd a b)"
proof (cases a; cases b)
  fix x y
  assume "nonneg_double a" "nonneg_double b" "a = Finite x" "b = Finite y"
  then have "0 \<le> x + y" by (simp add: nonneg_double_def)
  then have "nonneg_double (round_double (x + y))" by (rule round_double_nonneg)
  with \<open>a = Finite x\<close> \<open>b = Finite y\<close> show "nonneg_double (dadd a b)" by (simp add: dadd_def)
qed (simp_all add: dadd_def nonneg_double_def)

lemma geo_sqr_nonneg: "nonneg_double (geo_sqr x)"
  by (simp add: geo_sqr_def round_double_nonneg)

lemma dneg_dneg: "dneg (dneg a) = a"
  by (cases a) (simp_all add: dneg_def)

lemma pow2_powr: "pow2 e = 2 powr (real_of_int e)"
proof (cases "0 \<le> e")
  case True
  then have "2 powr (real_of_int e) = 2 powr (real (nat e))" by simp
  also have "\<dots> = 2 ^ nat e" by (simp only: powr_realpow zero_less_numeral)
  finally show ?thesis using True by (simp add: pow2_def)
next
  case False
  then have "2 powr (real_of_int e) = 2 powr (- real (nat (- e)))" by simp
  also have "\<dots> = 1 / 2 powr (real (nat (- e)))" by (simp only: powr_minus_divide)
  also have "\<dots> = 1 / 2 ^ nat (- e)" by (simp only: powr_realpow zero_less_numeral)
  finally show ?thesis using False by (simp add: pow2_def)
qed

lemma pow2_mono: "a \<le> b \<Longrightarrow> pow2 a \<le> pow2 b"
  by (simp add: pow2_powr)

lemma pow2_add: "pow2 (a + b) = pow2 a * pow2 b"
  by (simp add: pow2_powr powr_add)

lemma round_to_even_ge_floor: "\<lfloor>x\<rfloor> \<le> round_to_even x"
  by (simp add: round_to_even_def)

text \<open>A result at or beyond \<open>2^1024\<close> overflows.\<close>

lemma round_double_overflow:
  assumes "2 ^ 1024 \<le> x"
  shows "round_double x = PlusInfinity"
proof -
  have p1024: "pow2 1024 = 2 ^ 1024" by (simp add: pow2_def)
  from assms have pos: "0 < x"
    by (rule less_le_trans[rotated]) simp
  then have nz: "x \<noteq> 0" and ab: "\<bar>x\<bar> = x" by simp_all
  from binade_bounds[OF nz] ab have b: "pow2 (binade x) \<le> x" "x < pow2 (binade x + 1)" by simp_all
  have e: "1024 \<le> binade x"
  proof (rule ccontr)
    assume "\<not> 1024 \<le> binade x"
    then have "binade x + 1 \<le> 1024" by simp
    then have "pow2 (binade x + 1) \<le> pow2 1024" by (rule pow2_mono)
    with b(2) assms p1024 show False by linarith
  qed
  then have q: "quantum x = binade x - 52" by (simp add: quantum_def)
  define z where "z = x / pow2 (quantum x)"
  have "pow2 (binade x) = pow2 52 * pow2 (quantum x)"
    unfolding q pow2_add[symmetric] by simp
  with b(1) have "pow2 52 * pow2 (quantum x) \<le> x" by simp
  then have "pow2 52 \<le> z"
    unfolding z_def using pow2_pos[of "quantum x"] by (simp add: pos_le_divide_eq)
  moreover have "pow2 52 = real_of_int (2 ^ 52)" by (simp add: pow2_def)
  ultimately have "real_of_int (2 ^ 52) \<le> z" by simp
  then have "2 ^ 52 \<le> \<lfloor>z\<rfloor>" by (simp only: le_floor_iff)
  with round_to_even_ge_floor[of z] have r: "2 ^ 52 \<le> round_to_even z" by linarith
  then have "real_of_int (2 ^ 52) \<le> real_of_int (round_to_even z)" by (simp only: of_int_le_iff)
  then have "pow2 52 \<le> real_of_int (round_to_even z)" by (simp add: pow2_def)
  then have "pow2 52 * pow2 (quantum x) \<le> real_of_int (round_to_even z) * pow2 (quantum x)"
    using pow2_pos[of "quantum x"] by (simp only: mult_le_cancel_right_pos)
  moreover have "pow2 1024 \<le> pow2 52 * pow2 (quantum x)"
    unfolding pow2_add[symmetric] q using e by (intro pow2_mono) simp
  ultimately have "2 ^ 1024 \<le> real_of_int (round_to_even z) * pow2 (quantum x)"
    using p1024 by linarith
  then have "2 ^ 1024 \<le> \<bar>real_of_int (round_to_even (x / pow2 (quantum x))) * pow2 (quantum x)\<bar>"
    unfolding z_def by linarith
  with nz pos show ?thesis by (simp only: round_double_def if_True if_False)
qed

lemmas double_simps = dadd_def dneg_def geo_sqr_def round_double_def quantum_def binade_def
  bit_length.simps pow2_def round_to_even_def

section \<open>The lifted heights\<close>

lemma those_list_map:
  assumes "those_list (map f xs) = Some ys"
    and "\<And>x y. x \<in> set xs \<Longrightarrow> f x = Some y \<Longrightarrow> y = g x"
  shows "ys = map g xs"
  using assms
proof (induction xs arbitrary: ys)
  case Nil
  then show ?case by simp
next
  case (Cons x xs)
  from Cons.prems(1) obtain y ys' where y: "f x = Some y" "those_list (map f xs) = Some ys'" "ys = y # ys'"
    by (auto simp: bind_eq_Some_conv)
  from Cons.IH[OF y(2)] Cons.prems(2) have "ys' = map g xs" by simp
  moreover from Cons.prems(2)[of x y] y(1) have "y = g x" by simp
  ultimately show ?case using y(3) by simp
qed

lemma compute_heights_value:
  assumes "compute_heights verts i = Some h"
  shows "h = lifted_height verts i"
  using assms unfolding compute_heights_def lifted_height_def
  by (auto simp: bind_eq_Some_conv get_at_def Let_def dneg_dneg split: if_splits)

lemma set_vertices_init_heights:
  assumes "weighted s" "set_vertices_init brio s nb verts = Some s0"
  shows "heights s0 = map (lifted_height verts) [0..nb - 1]"
proof -
  from assms obtain hs where
    h: "those_list (map (compute_heights verts) [0..nb - 1]) = Some hs"
    and s0: "heights s0 = hs"
    unfolding set_vertices_init_def by (auto simp: bind_eq_Some_conv Let_def)
  from those_list_map[OF h, of "lifted_height verts"] compute_heights_value s0
  show ?thesis by blast
qed

lemma set_vertices_input:
  assumes "set_vertices fuel C ori_inexact rnd brio cb s nb verts = Some (b, s')"
  obtains s0 where "set_vertices_init brio s nb verts = Some s0" "input_part s' = input_part s0"
proof -
  from assms obtain s0 where
    i: "set_vertices_init brio s nb verts = Some s0"
    and k: "(if (case cb of None \<Rightarrow> False | Some progress \<Rightarrow> \<not> progress 0 0) then Some (False, s0)
     else do {
       (first, s) \<leftarrow> create_first_tetrahedron s0;
       case first of
         None \<Rightarrow> Some (True, s)
       | Some vs \<Rightarrow> do {
           r \<leftarrow> insert_all fuel C ori_inexact rnd cb vs [0..nb - 1] s NO_TETRAHEDRON 0;
           case r of
             Inl s \<Rightarrow> Some (False, s)
           | Inr (s, k) \<Rightarrow> do { s \<leftarrow> finalize fuel s; Some (True, s) }
         }
     }) = Some (b, s')"
    unfolding set_vertices_def by (auto simp: bind_eq_Some_conv)
  show thesis
  proof (cases "case cb of None \<Rightarrow> False | Some progress \<Rightarrow> \<not> progress 0 0")
    case True
    with k i that show thesis by auto
  next
    case False
    with k obtain first s1 where
      c: "create_first_tetrahedron s0 = Some (first, s1)"
      and k1: "(case first of
         None \<Rightarrow> Some (True, s1)
       | Some vs \<Rightarrow> do {
           r \<leftarrow> insert_all fuel C ori_inexact rnd cb vs [0..nb - 1] s1 NO_TETRAHEDRON 0;
           case r of
             Inl s \<Rightarrow> Some (False, s)
           | Inr (s, k) \<Rightarrow> do { s \<leftarrow> finalize fuel s; Some (True, s) }
         }) = Some (b, s')"
      by (auto simp: bind_eq_Some_conv)
    note c1 = create_first_tetrahedron_input[OF c]
    show thesis
    proof (cases first)
      case None
      with k1 c1 i that show thesis by auto
    next
      case (Some vs)
      with k1 obtain r where
        r: "insert_all fuel C ori_inexact rnd cb vs [0..nb - 1] s1 NO_TETRAHEDRON 0 = Some r"
        and k2: "(case r of
             Inl s \<Rightarrow> Some (False, s)
           | Inr (s, k) \<Rightarrow> do { s \<leftarrow> finalize fuel s; Some (True, s) }) = Some (b, s')"
        by (auto simp: bind_eq_Some_conv)
      note r1 = insert_all_input[OF r]
      show thesis
      proof (cases r)
        case (Inl s2)
        with k2 r1 c1 i that show thesis by auto
      next
        case (Inr p)
        obtain s2 k' where p: "p = (s2, k')" by (cases p)
        with Inr k2 have f: "finalize fuel s2 = Some s'"
          by (auto simp: bind_eq_Some_conv)
        from finalize_input[OF f] Inr p r1 c1 have "input_part s' = input_part s0" by simp
        with i that show thesis by blast
      qed
    qed
  qed
qed

lemma lifted_height_nonneg: "nonneg_double (lifted_height verts i)"
  unfolding lifted_height_def by (intro dadd_nonneg geo_sqr_nonneg)

lemma compute_heights_Some:
  assumes "4 * nb \<le> int (length verts)" "0 \<le> i" "i < nb"
  shows "\<exists>h. compute_heights verts i = Some h"
  using assms by (simp add: compute_heights_def get_at_def Let_def)

lemma those_list_Some:
  assumes "\<And>x. x \<in> set xs \<Longrightarrow> \<exists>y. f x = Some y"
  shows "\<exists>ys. those_list (map f xs) = Some ys"
  using assms
proof (induction xs)
  case Nil
  then show ?case by simp
next
  case (Cons x xs)
  from Cons.prems[of x] obtain y where "f x = Some y" by auto
  moreover from Cons.IH Cons.prems obtain ys where "those_list (map f xs) = Some ys" by auto
  ultimately show ?case by simp
qed

lemma set_vertices_init_result:
  assumes "vertex_stride s * nb \<le> int (length verts)"
  obtains s0 where "set_vertices_init brio s nb verts = Some s0"
    "cell_to_v_store s0 = []" "cell_to_cell_store s0 = []" "cell_next s0 = []"
    "first_free s0 = END_OF_LIST" "nb_vertices s0 = nb" "vertices s0 = verts"
    "weighted s0 = weighted s" "nb_cells s0 = nb_cells s"
    "reorder s0 = (if do_reorder s then brio else [0..nb - 1])"
proof (cases "weighted s")
  case False
  with that show thesis
    by (simp add: set_vertices_init_def Let_def)
next
  case True
  with assms have "4 * nb \<le> int (length verts)" by (simp add: vertex_stride_def)
  then have "\<exists>hs. those_list (map (compute_heights verts) [0..nb - 1]) = Some hs"
    by (intro those_list_Some compute_heights_Some) auto
  then obtain hs where "those_list (map (compute_heights verts) [0..nb - 1]) = Some hs" ..
  with True that show thesis
    by (simp add: set_vertices_init_def Let_def)
qed

lemma first_cells_explicit:
  assumes "cell_to_v_store s = []" "cell_to_cell_store s = []" "cell_next s = []"
    "first_free s = END_OF_LIST"
  shows "first_cells s a b c d =
     Some (s\<lparr>cell_to_v_store := [a, b, c, d, -1, d, c, b, -1, c, d, a, -1, b, a, d, -1, c, a, b],
             cell_to_cell_store := [1, 2, 3, 4, 0, 4, 3, 2, 0, 3, 4, 1, 0, 2, 1, 4, 0, 3, 1, 2],
             cell_next := [-1, -1, -1, -1, -1]\<rparr>)"
  using assms
  by (simp add: first_cells_def new_tetrahedron_def max_t_def set_tet_adjacent_def set_tet_vertex_def
      set_at_def tet_vertex_def get_at_def tet_facet_vertex_def tet_facet_vertex_table_def
      VERTEX_AT_INFINITY_def NOT_IN_LIST_def END_OF_LIST_def)

lemma upto_0_3: "[0..(3::int)] = [0, 1, 2, 3]"
  by (simp add: upto.simps)

lemmas geometry_simps = points_are_identical_def points_are_colinear_def orient_3d_def
  orient_3d_Delta_def det3x3_def geo_sgn_def q000_def q001_def q010_def q100_def

lemma weighted_heights:
  "compute_heights weighted_points 0 = Some (Finite 1)"
  "compute_heights weighted_points 1 = Some (Finite 1)"
  "compute_heights weighted_points 2 = Some (Finite 5)"
  "compute_heights weighted_points 3 = Some (Finite 18014398509481984)"
  by (simp_all add: compute_heights_def weighted_points_def get_at_def Let_def double_simps)

lemma init_weighted: "set_vertices_init [] weighted_object 4 weighted_points =
   Some (weighted_object\<lparr>heights := [Finite 1, Finite 1, Finite 5, Finite 18014398509481984],
          nb_vertices := 4, vertices := weighted_points, reorder := [0, 1, 2, 3]\<rparr>)"
  by (simp add: set_vertices_init_def Let_def upto_0_3 weighted_heights)
     (simp add: weighted_object_def)

lemma quad_weighted:
  "first_quadruple (weighted_object\<lparr>heights := hs, nb_vertices := 4, vertices := weighted_points,
      reorder := [0, 1, 2, 3]\<rparr>) = Some (Some (0, 1, 2, 3))"
  by (simp add: first_quadruple_def scan_identical.simps scan_colinear.simps scan_coplanar.simps
      weighted_object_def weighted_points_def vertex_ptr_def vertex_stride_def get_at_def geometry_simps)

lemma first_weighted:
  "create_first_tetrahedron (weighted_object\<lparr>heights := hs, nb_vertices := 4, vertices := weighted_points,
      reorder := [0, 1, 2, 3]\<rparr>)
   = Some (Some (0, 1, 2, 3),
       weighted_object\<lparr>heights := hs, nb_vertices := 4, vertices := weighted_points, reorder := [0, 1, 2, 3],
         cell_to_v_store := [0, 1, 2, 3, -1, 3, 2, 1, -1, 2, 3, 0, -1, 1, 0, 3, -1, 2, 0, 1],
         cell_to_cell_store := [1, 2, 3, 4, 0, 4, 3, 2, 0, 3, 4, 1, 0, 2, 1, 4, 0, 3, 1, 2],
         cell_next := [-1, -1, -1, -1, -1]\<rparr>)"
  unfolding create_first_tetrahedron_def quad_weighted
  by (simp add: first_cells_explicit weighted_object_def)

lemma insert_weighted:
  "reorder s = [0, 1, 2, 3] \<Longrightarrow>
   insert_all fuel C ori rnd None (0, 1, 2, 3) [0, 1, 2, 3] s NO_TETRAHEDRON 0 = Some (Inr (s, 0))"
  by (simp add: get_at_def)

lemma finalize_first:
  assumes "cell_to_v_store s = [a, b, c, d, -1, d, c, b, -1, c, d, a, -1, b, a, d, -1, c, a, b]"
    "cell_to_cell_store s = [1, 2, 3, 4, 0, 4, 3, 2, 0, 3, 4, 1, 0, 2, 1, 4, 0, 3, 1, 2]"
    "cell_next s = [-1, -1, -1, -1, -1]" "\<not> keep_infinite s"
    "0 \<le> a" "0 \<le> b" "0 \<le> c" "0 \<le> d"
  shows "finalize fuel s =
   Some (s\<lparr>cell_to_v_store := [a, b, c, d], cell_to_cell_store := [-1, -1, -1, -1],
           cell_next := [0, -1, -1, -1, -1], nb_cells := 1\<rparr>)"
  using assms
  by (simp add: finalize_def max_t_def upto.simps Let_def
      tet_is_real_def tet_is_free_def tet_is_in_list_def tet_is_finite_def tet_is_virtual_def
      tet_vertex_def get_at_def set_at_def copy_cell_def VERTEX_AT_INFINITY_def)

lemma finalize_weighted: "finalize fuel weighted_first = Some (weighted_cells weighted_object)"
  using finalize_first[of weighted_first 0 1 2 3 fuel]
  by (simp add: weighted_first_def weighted_cells_def weighted_object_def)

lemma set_vertices_weighted:
  "set_vertices fuel C ori rnd [] None weighted_object 4 weighted_points
     = Some (True, weighted_cells weighted_object)"
proof -
  have r: "reorder weighted_first = [0, 1, 2, 3]" by (simp add: weighted_first_def)
  show ?thesis
    unfolding set_vertices_def init_weighted
    by (simp add: first_weighted upto_0_3 weighted_first_def[symmetric] insert_weighted[OF r]
        finalize_weighted del: insert_all.simps)
qed

text \<open>C7 (amended). In weighted mode, with an input buffer that holds \<open>nb\<close> points of four
  components, the first loop of \<open>set_vertices\<close> always completes and stores, for every
  vertex \<open>i\<close>, the sum of the four squares \<open>t_i^2 + x_i^2 + y_i^2 + z_i^2\<close>, where \<open>t_i\<close> is the
  fourth input component \<open>vertices[4*i+3]\<close>: its square is added, not subtracted. The sum
  is evaluated in double precision, from left to right and with a rounding after every
  operation, so it is the rounded and not the exact sum; it is never negative and never
  a NaN, but it can be infinite. Nothing after the first loop writes the heights: whenever
  \<open>set_vertices\<close> returns, with either result, these are the heights the object holds.\<close>

theorem set_vertices_heights:
  assumes "weighted s" and "4 * nb \<le> int (length verts)"
  shows "(\<exists>s0. set_vertices_init brio s nb verts = Some s0 \<and>
               heights s0 = map (lifted_height verts) [0..nb - 1]) \<and>
         (\<forall>b s'. set_vertices fuel C ori_inexact rnd brio cb s nb verts = Some (b, s') \<longrightarrow>
               heights s' = map (lifted_height verts) [0..nb - 1]) \<and>
         (\<forall>i. nonneg_double (lifted_height verts i))"
proof (intro conjI allI impI)
  from assms have "vertex_stride s * nb \<le> int (length verts)" by (simp add: vertex_stride_def)
  then obtain s0 where s0: "set_vertices_init brio s nb verts = Some s0"
    by (rule set_vertices_init_result[where brio = brio])
  with set_vertices_init_heights[OF assms(1) s0]
  show "\<exists>s0. set_vertices_init brio s nb verts = Some s0 \<and>
               heights s0 = map (lifted_height verts) [0..nb - 1]" by simp
next
  fix b s'
  assume r: "set_vertices fuel C ori_inexact rnd brio cb s nb verts = Some (b, s')"
  then obtain s0 where
    i: "set_vertices_init brio s nb verts = Some s0" and f: "input_part s' = input_part s0"
    by (rule set_vertices_input)
  from f have "heights s' = heights s0" by (simp add: input_part_def)
  with set_vertices_init_heights[OF assms(1) i]
  show "heights s' = map (lifted_height verts) [0..nb - 1]" by simp
next
  fix i
  show "nonneg_double (lifted_height verts i)" by (rule lifted_height_nonneg)
qed

text \<open>C7 (as stated, refuted). For the single weighted vertex \<open>(0, 0, 0)\<close> with fourth
  component \<open>1\<close> the program stores the height \<open>1\<close>, whereas the claimed formula
  \<open>x^2 + y^2 + z^2 - t^2\<close> gives \<open>- 1\<close>, over the reals and in double precision alike. And for
  the vertex \<open>(1, 1, 1)\<close> with fourth component \<open>2^27\<close>, the last of four, the program stores
  \<open>2^54\<close>, which is not the sum \<open>2^54 + 3\<close> of the four squares either: each addition was
  rounded.\<close>

theorem heights_not_claimed_formula:
  "set_vertices 0 never_conflict exact_sign zero_stream [] None weighted_object 1 [0, 0, 0, 1]
     = Some (True, weighted_object\<lparr>heights := [Finite 1], nb_vertices := 1, vertices := [0, 0, 0, 1],
                                    reorder := [0]\<rparr>) \<and>
   claimed_height [0, 0, 0, 1] 0 = - 1 \<and>
   claimed_height_rounded [0, 0, 0, 1] 0 = Finite (- 1) \<and>
   set_vertices 0 never_conflict exact_sign zero_stream [] None weighted_object 4 weighted_points
     = Some (True, weighted_cells weighted_object) \<and>
   heights (weighted_cells weighted_object) ! 3 = Finite 18014398509481984 \<and>
   exact_height weighted_points 3 = 18014398509481987 \<and>
   claimed_height weighted_points 3 = - 18014398509481981"
proof -
  have "set_vertices 0 never_conflict exact_sign zero_stream [] None weighted_object 1 [0, 0, 0, 1]
     = Some (True, weighted_object\<lparr>heights := [Finite 1], nb_vertices := 1, vertices := [0, 0, 0, 1],
                                    reorder := [0]\<rparr>)"
    by (simp add: set_vertices_def set_vertices_init_def weighted_object_def compute_heights_def
      get_at_def create_first_tetrahedron_def first_quadruple_def Let_def double_simps)
  moreover have "claimed_height [0, 0, 0, 1] 0 = - 1" by (simp add: claimed_height_def)
  moreover have "claimed_height_rounded [0, 0, 0, 1] 0 = Finite (- 1)"
    by (simp add: claimed_height_rounded_def double_simps)
  moreover note set_vertices_weighted[of 0 never_conflict exact_sign zero_stream]
  moreover have "heights (weighted_cells weighted_object) ! 3 = Finite 18014398509481984"
    by (simp add: weighted_cells_def)
  moreover have "exact_height weighted_points 3 = 18014398509481987"
    by (simp add: exact_height_def weighted_points_def)
  moreover have "claimed_height weighted_points 3 = - 18014398509481981"
    by (simp add: claimed_height_def weighted_points_def)
  ultimately show ?thesis by (intro conjI)
qed

theorem set_vertices_heights_witness:
  "weighted weighted_object \<and> 4 * 4 \<le> int (length weighted_points) \<and>
   set_vertices 0 never_conflict exact_sign zero_stream [] None weighted_object 4 weighted_points
     = Some (True, weighted_cells weighted_object) \<and>
   heights (weighted_cells weighted_object) = map (lifted_height weighted_points) [0..4 - 1] \<and>
   map (lifted_height weighted_points) [0..4 - 1]
     = [Finite 1, Finite 1, Finite 5, Finite 18014398509481984]"
proof -
  have w: "weighted weighted_object" by (simp add: weighted_object_def)
  have l: "4 * 4 \<le> int (length weighted_points)" by (simp add: weighted_points_def)
  note r = set_vertices_weighted[of 0 never_conflict exact_sign zero_stream]
  note t = set_vertices_heights[OF w l, of "[]" 0 never_conflict exact_sign zero_stream None]
  from t[THEN conjunct2, THEN conjunct1, rule_format, OF r]
  have h: "heights (weighted_cells weighted_object) = map (lifted_height weighted_points) [0..4 - 1]" .
  then have "map (lifted_height weighted_points) [0..4 - 1]
     = [Finite 1, Finite 1, Finite 5, Finite 18014398509481984]"
    by (simp add: weighted_cells_def)
  with w l r h show ?thesis by simp
qed

text \<open>Three evaluations of the stored height. A square that needs more than 53 bits is
  rounded before it is added; a square beyond the range of the doubles is infinite; and
  the doubles nearest to \<open>0.1\<close>, \<open>0.2\<close>, \<open>0.3\<close> and \<open>0.7\<close> give the double
  \<open>0.6299999999999999\<close>.\<close>

lemma lifted_height_rounds:
  "lifted_height [1, 1, 1, 2 ^ 27] 0 = Finite (2 ^ 54)"
  by (simp add: lifted_height_def double_simps)

lemma lifted_height_overflows:
  "lifted_height [10 ^ 200, 0, 0, 0] 0 = PlusInfinity"
proof -
  have "(2::real) ^ 1024 \<le> 10 ^ 200 * 10 ^ 200" by simp
  then have "geo_sqr (10 ^ 200) = PlusInfinity"
    unfolding geo_sqr_def by (rule round_double_overflow)
  moreover have "geo_sqr 0 = Finite 0" by (simp add: geo_sqr_def round_double_def)
  ultimately show ?thesis by (simp add: lifted_height_def dadd_def)
qed

lemma lifted_height_decimal:
  "lifted_height [3602879701896397 / 36028797018963968, 3602879701896397 / 18014398509481984,
                  5404319552844595 / 18014398509481984, 3152519739159347 / 4503599627370496] 0
   = Finite (709316941310853 / 1125899906842624)"
  by (simp add: lifted_height_def double_simps)

section \<open>The scans of the first tetrahedron\<close>

lemma vertex_stride_ge3: "3 \<le> vertex_stride s" "0 < vertex_stride s"
  by (simp_all add: vertex_stride_def)

lemma vertex_ptr_pt:
  assumes "buffer_ok s" "0 \<le> i" "i < nb_vertices s"
  shows "vertex_ptr s i = Some (pt s i)"
proof -
  from assms(3) have "i + 1 \<le> nb_vertices s" by simp
  then have "vertex_stride s * (i + 1) \<le> vertex_stride s * nb_vertices s"
    using vertex_stride_ge3(2)[of s] by (simp only: mult_le_cancel_left_pos)
  with assms(1) have b: "vertex_stride s * i + vertex_stride s \<le> int (length (vertices s))"
    by (simp add: buffer_ok_def algebra_simps)
  from assms(2) vertex_stride_ge3(2)[of s] have "0 \<le> vertex_stride s * i" by simp
  with b vertex_stride_ge3(1)[of s] show ?thesis
    by (simp add: vertex_ptr_def pt_def get_at_def)
qed

lemma scan_identical_result:
  assumes "buffer_ok s" "0 \<le> iv0" "iv0 < iv1" "iv1 \<le> nb_vertices s"
  shows "\<exists>r. scan_identical s iv0 iv1 = Some r \<and> iv1 \<le> r \<and> r \<le> nb_vertices s \<and>
             (\<forall>j. iv1 \<le> j \<and> j < r \<longrightarrow> points_are_identical (pt s iv0) (pt s j)) \<and>
             (r < nb_vertices s \<longrightarrow> \<not> points_are_identical (pt s iv0) (pt s r))"
  using assms
proof (induction s iv0 iv1 rule: scan_identical.induct)
  case (1 s iv0 iv1)
  show ?case
  proof (cases "iv1 < nb_vertices s")
    case False
    with "1.prems" have "scan_identical s iv0 iv1 = Some iv1"
      by (subst scan_identical.simps) simp
    with False "1.prems" show ?thesis by auto
  next
    case True
    with "1.prems" have p: "vertex_ptr s iv0 = Some (pt s iv0)" "vertex_ptr s iv1 = Some (pt s iv1)"
      by (auto intro!: vertex_ptr_pt)
    show ?thesis
    proof (cases "points_are_identical (pt s iv0) (pt s iv1)")
      case False
      with True p have "scan_identical s iv0 iv1 = Some iv1"
        by (subst scan_identical.simps) simp
      with False True show ?thesis by auto
    next
      case id: True
      with True p have e: "scan_identical s iv0 iv1 = scan_identical s iv0 (iv1 + 1)"
        by (subst scan_identical.simps) simp
      from "1.IH"[OF True p(1) p(2) id] "1.prems" True
      obtain r where r: "scan_identical s iv0 (iv1 + 1) = Some r" "iv1 + 1 \<le> r" "r \<le> nb_vertices s"
        "\<forall>j. iv1 + 1 \<le> j \<and> j < r \<longrightarrow> points_are_identical (pt s iv0) (pt s j)"
        "r < nb_vertices s \<longrightarrow> \<not> points_are_identical (pt s iv0) (pt s r)"
        by auto
      have "\<forall>j. iv1 \<le> j \<and> j < r \<longrightarrow> points_are_identical (pt s iv0) (pt s j)"
      proof (intro allI impI)
        fix j assume "iv1 \<le> j \<and> j < r"
        then consider "j = iv1" | "iv1 + 1 \<le> j \<and> j < r" by linarith
        then show "points_are_identical (pt s iv0) (pt s j)"
          using id r(4) by cases auto
      qed
      with e r show ?thesis by auto
    qed
  qed
qed

lemma scan_colinear_result:
  assumes "buffer_ok s" "0 \<le> iv0" "iv0 < iv1" "iv1 < iv2" "iv2 \<le> nb_vertices s"
  shows "\<exists>r. scan_colinear s iv0 iv1 iv2 = Some r \<and> iv2 \<le> r \<and> r \<le> nb_vertices s \<and>
             (\<forall>j. iv2 \<le> j \<and> j < r \<longrightarrow> points_are_colinear (pt s iv0) (pt s iv1) (pt s j)) \<and>
             (r < nb_vertices s \<longrightarrow> \<not> points_are_colinear (pt s iv0) (pt s iv1) (pt s r))"
  using assms
proof (induction s iv0 iv1 iv2 rule: scan_colinear.induct)
  case (1 s iv0 iv1 iv2)
  show ?case
  proof (cases "iv2 < nb_vertices s")
    case False
    with "1.prems" have "scan_colinear s iv0 iv1 iv2 = Some iv2"
      by (subst scan_colinear.simps) simp
    with False "1.prems" show ?thesis by auto
  next
    case True
    with "1.prems" have p: "vertex_ptr s iv0 = Some (pt s iv0)" "vertex_ptr s iv1 = Some (pt s iv1)"
      "vertex_ptr s iv2 = Some (pt s iv2)"
      by (auto intro!: vertex_ptr_pt)
    show ?thesis
    proof (cases "points_are_colinear (pt s iv0) (pt s iv1) (pt s iv2)")
      case False
      with True p have "scan_colinear s iv0 iv1 iv2 = Some iv2"
        by (subst scan_colinear.simps) simp
      with False True show ?thesis by auto
    next
      case id: True
      with True p have e: "scan_colinear s iv0 iv1 iv2 = scan_colinear s iv0 iv1 (iv2 + 1)"
        by (subst scan_colinear.simps) simp
      from "1.IH"[OF True p(1) p(2) p(3) id] "1.prems" True
      obtain r where r: "scan_colinear s iv0 iv1 (iv2 + 1) = Some r" "iv2 + 1 \<le> r" "r \<le> nb_vertices s"
        "\<forall>j. iv2 + 1 \<le> j \<and> j < r \<longrightarrow> points_are_colinear (pt s iv0) (pt s iv1) (pt s j)"
        "r < nb_vertices s \<longrightarrow> \<not> points_are_colinear (pt s iv0) (pt s iv1) (pt s r)"
        by auto
      have "\<forall>j. iv2 \<le> j \<and> j < r \<longrightarrow> points_are_colinear (pt s iv0) (pt s iv1) (pt s j)"
      proof (intro allI impI)
        fix j assume "iv2 \<le> j \<and> j < r"
        then consider "j = iv2" | "iv2 + 1 \<le> j \<and> j < r" by linarith
        then show "points_are_colinear (pt s iv0) (pt s iv1) (pt s j)"
          using id r(4) by cases auto
      qed
      with e r show ?thesis by auto
    qed
  qed
qed

lemma scan_coplanar_result:
  assumes "buffer_ok s" "0 \<le> iv0" "iv0 < iv1" "iv1 < iv2" "iv2 < iv3" "iv3 \<le> nb_vertices s"
  shows "\<exists>r sg. scan_coplanar s iv0 iv1 iv2 iv3 = Some (r, sg) \<and> iv3 \<le> r \<and> r \<le> nb_vertices s \<and>
             (\<forall>j. iv3 \<le> j \<and> j < r \<longrightarrow> orient_3d (pt s iv0) (pt s iv1) (pt s iv2) (pt s j) = ZERO) \<and>
             (r < nb_vertices s \<longrightarrow> sg = orient_3d (pt s iv0) (pt s iv1) (pt s iv2) (pt s r) \<and> sg \<noteq> ZERO)"
  using assms
proof (induction s iv0 iv1 iv2 iv3 rule: scan_coplanar.induct)
  case (1 s iv0 iv1 iv2 iv3)
  show ?case
  proof (cases "iv3 < nb_vertices s")
    case False
    with "1.prems" have "scan_coplanar s iv0 iv1 iv2 iv3 = Some (iv3, ZERO)"
      by (subst scan_coplanar.simps) simp
    with False "1.prems" show ?thesis by auto
  next
    case True
    with "1.prems" have p: "vertex_ptr s iv0 = Some (pt s iv0)" "vertex_ptr s iv1 = Some (pt s iv1)"
      "vertex_ptr s iv2 = Some (pt s iv2)" "vertex_ptr s iv3 = Some (pt s iv3)"
      by (auto intro!: vertex_ptr_pt)
    show ?thesis
    proof (cases "orient_3d (pt s iv0) (pt s iv1) (pt s iv2) (pt s iv3) = ZERO")
      case False
      with True p have "scan_coplanar s iv0 iv1 iv2 iv3
          = Some (iv3, orient_3d (pt s iv0) (pt s iv1) (pt s iv2) (pt s iv3))"
        by (subst scan_coplanar.simps) simp
      with False True show ?thesis by auto
    next
      case id: True
      with True p have e: "scan_coplanar s iv0 iv1 iv2 iv3 = scan_coplanar s iv0 iv1 iv2 (iv3 + 1)"
        by (subst scan_coplanar.simps) simp
      from "1.IH"[OF True p(1) p(2) p(3) p(4) id] "1.prems" True
      obtain r sg where r: "scan_coplanar s iv0 iv1 iv2 (iv3 + 1) = Some (r, sg)" "iv3 + 1 \<le> r" "r \<le> nb_vertices s"
        "\<forall>j. iv3 + 1 \<le> j \<and> j < r \<longrightarrow> orient_3d (pt s iv0) (pt s iv1) (pt s iv2) (pt s j) = ZERO"
        "r < nb_vertices s \<longrightarrow> sg = orient_3d (pt s iv0) (pt s iv1) (pt s iv2) (pt s r) \<and> sg \<noteq> ZERO"
        by auto
      have "\<forall>j. iv3 \<le> j \<and> j < r \<longrightarrow> orient_3d (pt s iv0) (pt s iv1) (pt s iv2) (pt s j) = ZERO"
      proof (intro allI impI)
        fix j assume "iv3 \<le> j \<and> j < r"
        then consider "j = iv3" | "iv3 + 1 \<le> j \<and> j < r" by linarith
        then show "orient_3d (pt s iv0) (pt s iv1) (pt s iv2) (pt s j) = ZERO"
          using id r(4) by cases auto
      qed
      with e r show ?thesis by auto
    qed
  qed
qed

section \<open>Coplanar points\<close>

lemma points_are_identical_eq: "points_are_identical p q \<longleftrightarrow> p = q"
  by (cases p; cases q) (auto simp: points_are_identical_def)

text \<open>The orientation determinant as an affine function of its fourth point.\<close>

lemma orient_3d_Delta_affine:
  "orient_3d_Delta (x0, y0, z0) (x1, y1, z1) (x2, y2, z2) (qx, qy, qz)
     = ((y1 - y0) * (z2 - z0) - (z1 - z0) * (y2 - y0)) * (qx - x0)
     + ((z1 - z0) * (x2 - x0) - (x1 - x0) * (z2 - z0)) * (qy - y0)
     + ((x1 - x0) * (y2 - y0) - (y1 - y0) * (x2 - x0)) * (qz - z0)"
  by (simp add: orient_3d_Delta_def det3x3_def algebra_simps)

lemma cross_product_colinear:
  fixes x0 y0 z0 x1 y1 z1 x2 y2 z2 :: real
  assumes "(y1 - y0) * (z2 - z0) - (z1 - z0) * (y2 - y0) = 0"
    and "(z1 - z0) * (x2 - x0) - (x1 - x0) * (z2 - z0) = 0"
    and "(x1 - x0) * (y2 - y0) - (y1 - y0) * (x2 - x0) = 0"
  shows "points_are_colinear (x0, y0, z0) (x1, y1, z1) (x2, y2, z2)"
  unfolding points_are_colinear_def orient_3d_def geo_sgn_ZERO q000_def q001_def q010_def q100_def
    orient_3d_Delta_affine
  using assms by simp

text \<open>Three vectors orthogonal to a vector other than zero have a vanishing determinant.\<close>

lemma det3x3_orthogonal:
  fixes nx ny nz :: real
  assumes u: "nx * ux + ny * uy + nz * uz = 0"
    and v: "nx * vx + ny * vy + nz * vz = 0"
    and w: "nx * wx + ny * wy + nz * wz = 0"
    and n: "nx \<noteq> 0 \<or> ny \<noteq> 0 \<or> nz \<noteq> 0"
  shows "det3x3 ux uy uz vx vy vz wx wy wz = 0"
proof -
  let ?d = "det3x3 ux uy uz vx vy vz wx wy wz"
  have "?d * nx = (nx * ux + ny * uy + nz * uz) * (vy * wz - vz * wy)
                + (nx * vx + ny * vy + nz * vz) * (wy * uz - wz * uy)
                + (nx * wx + ny * wy + nz * wz) * (uy * vz - uz * vy)"
    by (simp add: det3x3_def algebra_simps)
  then have x: "?d * nx = 0" unfolding u v w by simp
  have "?d * ny = (nx * ux + ny * uy + nz * uz) * (vz * wx - vx * wz)
                + (nx * vx + ny * vy + nz * vz) * (wz * ux - wx * uz)
                + (nx * wx + ny * wy + nz * wz) * (uz * vx - ux * vz)"
    by (simp add: det3x3_def algebra_simps)
  then have y: "?d * ny = 0" unfolding u v w by simp
  have "?d * nz = (nx * ux + ny * uy + nz * uz) * (vx * wy - vy * wx)
                + (nx * vx + ny * vy + nz * vz) * (wx * uy - wy * ux)
                + (nx * wx + ny * wy + nz * wz) * (ux * vy - uy * vx)"
    by (simp add: det3x3_def algebra_simps)
  then have z: "?d * nz = 0" unfolding u v w by simp
  from n x y z show ?thesis by auto
qed

text \<open>Points that are coplanar with three points spanning a plane are coplanar with each
  other.\<close>

lemma coplanar_closed:
  assumes span: "\<not> points_are_colinear p0 p1 p2"
    and a: "orient_3d p0 p1 p2 a = ZERO" and b: "orient_3d p0 p1 p2 b = ZERO"
    and c: "orient_3d p0 p1 p2 c = ZERO" and d: "orient_3d p0 p1 p2 d = ZERO"
  shows "orient_3d a b c d = ZERO"
proof -
  obtain x0 y0 z0 x1 y1 z1 x2 y2 z2 where
    p: "p0 = (x0, y0, z0)" "p1 = (x1, y1, z1)" "p2 = (x2, y2, z2)"
    by (metis prod_cases3)
  obtain ax ay az bx by' bz cx cy cz dx dy dz where
    q: "a = (ax, ay, az)" "b = (bx, by', bz)" "c = (cx, cy, cz)" "d = (dx, dy, dz)"
    by (metis prod_cases3)
  define nx where "nx = (y1 - y0) * (z2 - z0) - (z1 - z0) * (y2 - y0)"
  define ny where "ny = (z1 - z0) * (x2 - x0) - (x1 - x0) * (z2 - z0)"
  define nz where "nz = (x1 - x0) * (y2 - y0) - (y1 - y0) * (x2 - x0)"
  have n: "nx \<noteq> 0 \<or> ny \<noteq> 0 \<or> nz \<noteq> 0"
  proof (rule ccontr)
    assume "\<not> (nx \<noteq> 0 \<or> ny \<noteq> 0 \<or> nz \<noteq> 0)"
    then have "points_are_colinear (x0, y0, z0) (x1, y1, z1) (x2, y2, z2)"
      unfolding nx_def ny_def nz_def by (intro cross_product_colinear) simp_all
    with span p show False by simp
  qed
  have pl: "nx * (qx - x0) + ny * (qy - y0) + nz * (qz - z0) = 0"
    if "orient_3d p0 p1 p2 (qx, qy, qz) = ZERO" for qx qy qz
    using that unfolding p orient_3d_def geo_sgn_ZERO orient_3d_Delta_affine nx_def ny_def nz_def .
  note ea = pl[OF a[unfolded q]] and eb = pl[OF b[unfolded q]]
    and ec = pl[OF c[unfolded q]] and ed = pl[OF d[unfolded q]]
  have u: "nx * (bx - ax) + ny * (by' - ay) + nz * (bz - az) = 0"
    using ea eb by (simp add: algebra_simps)
  have v: "nx * (cx - ax) + ny * (cy - ay) + nz * (cz - az) = 0"
    using ea ec by (simp add: algebra_simps)
  have w: "nx * (dx - ax) + ny * (dy - ay) + nz * (dz - az) = 0"
    using ea ed by (simp add: algebra_simps)
  from det3x3_orthogonal[OF u v w n] show ?thesis
    unfolding q orient_3d_def geo_sgn_ZERO by (simp add: orient_3d_Delta_def)
qed

lemma colinear_coplanar:
  assumes "points_are_colinear p0 p1 q"
  shows "orient_3d p0 p1 p2 q = ZERO"
proof -
  obtain x0 y0 z0 x1 y1 z1 x2 y2 z2 qx qy qz where
    p: "p0 = (x0, y0, z0)" "p1 = (x1, y1, z1)" "p2 = (x2, y2, z2)" "q = (qx, qy, qz)"
    by (metis prod_cases3)
  note c = colinear_cross_product[OF assms[unfolded p]]
  have "orient_3d_Delta (x0, y0, z0) (x1, y1, z1) (x2, y2, z2) (qx, qy, qz)
     = - ((x2 - x0) * ((y1 - y0) * (qz - z0) - (z1 - z0) * (qy - y0))
        + (y2 - y0) * ((z1 - z0) * (qx - x0) - (x1 - x0) * (qz - z0))
        + (z2 - z0) * ((x1 - x0) * (qy - y0) - (y1 - y0) * (qx - x0)))"
    by (simp add: orient_3d_Delta_def det3x3_def algebra_simps)
  also have "\<dots> = 0" unfolding c by simp
  finally show ?thesis unfolding p orient_3d_def geo_sgn_ZERO .
qed

lemma colinear_first: "points_are_colinear p0 p1 p0"
proof -
  obtain x0 y0 z0 x1 y1 z1 where p: "p0 = (x0, y0, z0)" "p1 = (x1, y1, z1)"
    by (metis prod_cases3)
  show ?thesis unfolding p by (rule cross_product_colinear) simp_all
qed

lemma colinear_second: "points_are_colinear p0 p1 p1"
proof -
  obtain x0 y0 z0 x1 y1 z1 where p: "p0 = (x0, y0, z0)" "p1 = (x1, y1, z1)"
    by (metis prod_cases3)
  show ?thesis unfolding p by (rule cross_product_colinear) simp_all
qed

lemma orient_3d_repeated: "orient_3d p0 p1 p2 p2 = ZERO"
  by (cases p0; cases p1; cases p2) (simp add: orient_3d_def geo_sgn_ZERO orient_3d_Delta_def det3x3_def algebra_simps)

text \<open>Beside two distinct points there is a third one not on their line.\<close>

lemma spanning_point:
  assumes "p0 \<noteq> p1"
  shows "\<exists>p2. \<not> points_are_colinear p0 p1 p2"
proof -
  obtain x0 y0 z0 x1 y1 z1 where p: "p0 = (x0, y0, z0)" "p1 = (x1, y1, z1)"
    by (metis prod_cases3)
  consider "x1 \<noteq> x0" | "y1 \<noteq> y0" | "z1 \<noteq> z0" using assms p by auto
  then show ?thesis
  proof cases
    case 1
    have "\<not> points_are_colinear (x0, y0, z0) (x1, y1, z1) (x0, y0 + 1, z0)"
    proof
      assume "points_are_colinear (x0, y0, z0) (x1, y1, z1) (x0, y0 + 1, z0)"
      from colinear_cross_product(3)[OF this] 1 show False by simp
    qed
    with p show ?thesis by blast
  next
    case 2
    have "\<not> points_are_colinear (x0, y0, z0) (x1, y1, z1) (x0 + 1, y0, z0)"
    proof
      assume "points_are_colinear (x0, y0, z0) (x1, y1, z1) (x0 + 1, y0, z0)"
      from colinear_cross_product(3)[OF this] 2 show False by simp
    qed
    with p show ?thesis by blast
  next
    case 3
    have "\<not> points_are_colinear (x0, y0, z0) (x1, y1, z1) (x0 + 1, y0, z0)"
    proof
      assume "points_are_colinear (x0, y0, z0) (x1, y1, z1) (x0 + 1, y0, z0)"
      from colinear_cross_product(2)[OF this] 3 show False by simp
    qed
    with p show ?thesis by blast
  qed
qed

section \<open>Two constructions of four points\<close>

lemma init_corner: "set_vertices_init [] plain_object 4 corner_points =
   Some (plain_object\<lparr>nb_vertices := 4, vertices := corner_points, reorder := [0, 1, 2, 3]\<rparr>)"
  by (simp add: set_vertices_init_def plain_object_def Let_def upto.simps)

lemma quad_corner: "first_quadruple (plain_object\<lparr>nb_vertices := 4, vertices := corner_points, reorder := [0, 1, 2, 3]\<rparr>)
   = Some (Some (0, 1, 2, 3))"
  by (simp add: first_quadruple_def scan_identical.simps scan_colinear.simps scan_coplanar.simps
      plain_object_def corner_points_def vertex_ptr_def vertex_stride_def get_at_def
      points_are_identical_def points_are_colinear_def orient_3d_def orient_3d_Delta_def det3x3_def geo_sgn_def
      q000_def q001_def q010_def q100_def)

lemma quad_line: "first_quadruple (plain_object\<lparr>nb_vertices := 4, vertices := line_points, reorder := [0, 1, 2, 3]\<rparr>)
   = Some None"
  by (simp add: first_quadruple_def scan_identical.simps scan_colinear.simps scan_coplanar.simps
      plain_object_def line_points_def vertex_ptr_def vertex_stride_def get_at_def
      points_are_identical_def points_are_colinear_def orient_3d_def orient_3d_Delta_def det3x3_def geo_sgn_def
      q000_def q001_def q010_def q100_def)

lemma first_corner: "create_first_tetrahedron (plain_object\<lparr>nb_vertices := 4, vertices := corner_points, reorder := [0, 1, 2, 3]\<rparr>)
   = Some (Some (0, 1, 2, 3), corner_cells)"
  unfolding create_first_tetrahedron_def quad_corner
  by (simp add: first_cells_explicit plain_object_def corner_cells_def)

lemma insert_corner: "insert_all fuel C ori rnd None (0, 1, 2, 3) [0, 1, 2, 3] corner_cells NO_TETRAHEDRON 0
   = Some (Inr (corner_cells, 0))"
  by (simp add: corner_cells_def plain_object_def get_at_def)

lemma finalize_corner: "finalize fuel corner_cells =
   Some (corner_cells\<lparr>cell_to_v_store := [0, 1, 2, 3], cell_to_cell_store := [-1, -1, -1, -1],
           cell_next := [0, -1, -1, -1, -1], nb_cells := 1\<rparr>)"
  by (simp add: finalize_def corner_cells_def plain_object_def max_t_def upto.simps Let_def
      tet_is_real_def tet_is_free_def tet_is_in_list_def tet_is_finite_def tet_is_virtual_def
      tet_vertex_def get_at_def set_at_def copy_cell_def VERTEX_AT_INFINITY_def)

lemma set_vertices_corner: "set_vertices fuel C ori rnd [] None plain_object 4 corner_points =
   Some (True, corner_cells\<lparr>cell_to_v_store := [0, 1, 2, 3], cell_to_cell_store := [-1, -1, -1, -1],
           cell_next := [0, -1, -1, -1, -1], nb_cells := 1\<rparr>)"
  unfolding set_vertices_def init_corner
  by (simp add: first_corner upto_0_3 insert_corner finalize_corner del: insert_all.simps)

lemma init_line: "set_vertices_init [] plain_object 4 line_points =
   Some (plain_object\<lparr>nb_vertices := 4, vertices := line_points, reorder := [0, 1, 2, 3]\<rparr>)"
  by (simp add: set_vertices_init_def plain_object_def Let_def upto.simps)

lemma set_vertices_line: "set_vertices fuel C ori rnd [] None plain_object 4 line_points =
   Some (True, plain_object\<lparr>nb_vertices := 4, vertices := line_points, reorder := [0, 1, 2, 3]\<rparr>)"
  unfolding set_vertices_def init_line
  by (simp add: create_first_tetrahedron_def quad_line)

section \<open>Degenerate input\<close>

lemma first_quadruple_degenerate:
  assumes buf: "buffer_ok s" and deg: "nb_vertices s < 4 \<or> all_coplanar s"
  shows "first_quadruple s = Some None"
proof (cases "nb_vertices s < 4")
  case True
  then show ?thesis by (simp add: first_quadruple_def)
next
  case False
  with deg have cop: "all_coplanar s" by simp
  from False scan_identical_result[OF buf, of 0 1] obtain r1 where
    r1: "scan_identical s 0 1 = Some r1" "1 \<le> r1" "r1 \<le> nb_vertices s" by auto
  show ?thesis
  proof (cases "r1 = nb_vertices s")
    case True
    with False r1 show ?thesis by (simp add: first_quadruple_def)
  next
    case n1: False
    with r1 scan_colinear_result[OF buf, of 0 r1 "r1 + 1"] obtain r2 where
      r2: "scan_colinear s 0 r1 (r1 + 1) = Some r2" "r1 + 1 \<le> r2" "r2 \<le> nb_vertices s" by auto
    show ?thesis
    proof (cases "r2 = nb_vertices s")
      case True
      with False r1 n1 r2 show ?thesis by (simp add: first_quadruple_def)
    next
      case n2: False
      with r1 r2 scan_coplanar_result[OF buf, of 0 r1 r2 "r2 + 1"] obtain r3 sg where
        r3: "scan_coplanar s 0 r1 r2 (r2 + 1) = Some (r3, sg)" "r2 + 1 \<le> r3" "r3 \<le> nb_vertices s"
          "r3 < nb_vertices s \<longrightarrow> sg = orient_3d (pt s 0) (pt s r1) (pt s r2) (pt s r3) \<and> sg \<noteq> ZERO"
        by auto
      have "r3 = nb_vertices s"
      proof (rule ccontr)
        assume "r3 \<noteq> nb_vertices s"
        with r3 have lt: "r3 < nb_vertices s" by simp
        with r3 have nz: "orient_3d (pt s 0) (pt s r1) (pt s r2) (pt s r3) \<noteq> ZERO" by auto
        from cop[unfolded all_coplanar_def, rule_format, of 0 r1 r2 r3] r1 r2 r3 lt
        have "orient_3d (pt s 0) (pt s r1) (pt s r2) (pt s r3) = ZERO" by simp
        with nz show False by simp
      qed
      with False r1 n1 r2 n2 r3 show ?thesis by (simp add: first_quadruple_def)
    qed
  qed
qed

lemma all_coplanarI:
  assumes "\<not> points_are_colinear p0 p1 p2"
    and "\<And>j. 0 \<le> j \<Longrightarrow> j < nb_vertices s \<Longrightarrow> orient_3d p0 p1 p2 (pt s j) = ZERO"
  shows "all_coplanar s"
  unfolding all_coplanar_def
proof (intro allI impI)
  fix i j k l
  assume r: "0 \<le> i \<and> i < nb_vertices s \<and> 0 \<le> j \<and> j < nb_vertices s \<and>
      0 \<le> k \<and> k < nb_vertices s \<and> 0 \<le> l \<and> l < nb_vertices s"
  from r have "orient_3d p0 p1 p2 (pt s i) = ZERO" by (intro assms(2)) simp_all
  moreover from r have "orient_3d p0 p1 p2 (pt s j) = ZERO" by (intro assms(2)) simp_all
  moreover from r have "orient_3d p0 p1 p2 (pt s k) = ZERO" by (intro assms(2)) simp_all
  moreover from r have "orient_3d p0 p1 p2 (pt s l) = ZERO" by (intro assms(2)) simp_all
  ultimately show "orient_3d (pt s i) (pt s j) (pt s k) (pt s l) = ZERO"
    by (rule coplanar_closed[OF assms(1)])
qed

text \<open>The scan is complete: it only gives up on an input all of whose points lie in a
  common plane.\<close>

lemma first_quadruple_failure:
  assumes buf: "buffer_ok s" and n4: "4 \<le> nb_vertices s" and q: "first_quadruple s = Some None"
  shows "all_coplanar s"
proof -
  from n4 have nn4: "\<not> nb_vertices s < 4" by simp
  from n4 scan_identical_result[OF buf, of 0 1] obtain r1 where
    r1: "scan_identical s 0 1 = Some r1" "1 \<le> r1" "r1 \<le> nb_vertices s"
      "\<forall>j. 1 \<le> j \<and> j < r1 \<longrightarrow> points_are_identical (pt s 0) (pt s j)"
      "r1 < nb_vertices s \<longrightarrow> \<not> points_are_identical (pt s 0) (pt s r1)" by auto
  have same: "pt s j = pt s 0" if "0 \<le> j" "j < r1" for j
  proof (cases "j = 0")
    case True
    then show ?thesis by simp
  next
    case False
    with that r1(4) have "points_are_identical (pt s 0) (pt s j)" by simp
    then show ?thesis by (simp add: points_are_identical_eq)
  qed
  show ?thesis
  proof (cases "r1 = nb_vertices s")
    case True
    show ?thesis unfolding all_coplanar_def
    proof (intro allI impI)
      fix i j k l
      assume r: "0 \<le> i \<and> i < nb_vertices s \<and> 0 \<le> j \<and> j < nb_vertices s \<and>
        0 \<le> k \<and> k < nb_vertices s \<and> 0 \<le> l \<and> l < nb_vertices s"
      from r True have "pt s i = pt s 0" by (intro same) simp_all
      moreover from r True have "pt s j = pt s 0" by (intro same) simp_all
      moreover from r True have "pt s k = pt s 0" by (intro same) simp_all
      moreover from r True have "pt s l = pt s 0" by (intro same) simp_all
      ultimately show "orient_3d (pt s i) (pt s j) (pt s k) (pt s l) = ZERO"
        by (simp add: orient_3d_repeated)
    qed
  next
    case n1: False
    with r1 have lt1: "r1 < nb_vertices s" and ne: "pt s 0 \<noteq> pt s r1"
      by (simp_all add: points_are_identical_eq)
    from lt1 r1 scan_colinear_result[OF buf, of 0 r1 "r1 + 1"] obtain r2 where
      r2: "scan_colinear s 0 r1 (r1 + 1) = Some r2" "r1 + 1 \<le> r2" "r2 \<le> nb_vertices s"
        "\<forall>j. r1 + 1 \<le> j \<and> j < r2 \<longrightarrow> points_are_colinear (pt s 0) (pt s r1) (pt s j)"
        "r2 < nb_vertices s \<longrightarrow> \<not> points_are_colinear (pt s 0) (pt s r1) (pt s r2)" by auto
    have col: "points_are_colinear (pt s 0) (pt s r1) (pt s j)" if "0 \<le> j" "j < r2" for j
    proof -
      consider "j < r1" | "j = r1" | "r1 + 1 \<le> j" by linarith
      then show ?thesis
      proof cases
        case 1
        with that have "pt s j = pt s 0" by (intro same) simp_all
        then show ?thesis by (simp add: colinear_first)
      next
        case 2
        then show ?thesis by (simp add: colinear_second)
      next
        case 3
        with that r2(4) show ?thesis by simp
      qed
    qed
    show ?thesis
    proof (cases "r2 = nb_vertices s")
      case True
      from spanning_point[OF ne] obtain p2 where
        p2: "\<not> points_are_colinear (pt s 0) (pt s r1) p2" ..
      show ?thesis
      proof (rule all_coplanarI[OF p2])
        fix j assume "0 \<le> j" "j < nb_vertices s"
        with True have "points_are_colinear (pt s 0) (pt s r1) (pt s j)" by (intro col) simp_all
        then show "orient_3d (pt s 0) (pt s r1) p2 (pt s j) = ZERO" by (rule colinear_coplanar)
      qed
    next
      case n2: False
      with r2 have lt2: "r2 < nb_vertices s"
        and span: "\<not> points_are_colinear (pt s 0) (pt s r1) (pt s r2)" by simp_all
      from lt2 r1 r2 scan_coplanar_result[OF buf, of 0 r1 r2 "r2 + 1"] obtain r3 sg where
        r3: "scan_coplanar s 0 r1 r2 (r2 + 1) = Some (r3, sg)" "r2 + 1 \<le> r3" "r3 \<le> nb_vertices s"
          "\<forall>j. r2 + 1 \<le> j \<and> j < r3 \<longrightarrow> orient_3d (pt s 0) (pt s r1) (pt s r2) (pt s j) = ZERO"
        by auto
      from q nn4 r1(1) n1 r2(1) n2 r3(1) have e3: "r3 = nb_vertices s"
        by (auto simp: first_quadruple_def split: if_splits)
      show ?thesis
      proof (rule all_coplanarI[OF span])
        fix j assume j: "0 \<le> j" "j < nb_vertices s"
        consider "j < r2" | "j = r2" | "r2 + 1 \<le> j" by linarith
        then show "orient_3d (pt s 0) (pt s r1) (pt s r2) (pt s j) = ZERO"
        proof cases
          case 1
          with j have "points_are_colinear (pt s 0) (pt s r1) (pt s j)" by (intro col) simp_all
          then show ?thesis by (rule colinear_coplanar)
        next
          case 2
          then show ?thesis by (simp add: orient_3d_repeated)
        next
          case 3
          with j e3 r3(4) show ?thesis by simp
        qed
      qed
    qed
  qed
qed

lemma first_quadruple_total:
  assumes buf: "buffer_ok s"
  shows "\<exists>r. first_quadruple s = Some r"
proof (cases "nb_vertices s < 4")
  case True
  then show ?thesis by (simp add: first_quadruple_def)
next
  case False
  from False scan_identical_result[OF buf, of 0 1] obtain r1 where
    r1: "scan_identical s 0 1 = Some r1" "1 \<le> r1" "r1 \<le> nb_vertices s" by auto
  show ?thesis
  proof (cases "r1 = nb_vertices s")
    case True
    with False r1 show ?thesis by (simp add: first_quadruple_def)
  next
    case n1: False
    with r1 scan_colinear_result[OF buf, of 0 r1 "r1 + 1"] obtain r2 where
      r2: "scan_colinear s 0 r1 (r1 + 1) = Some r2" "r1 + 1 \<le> r2" "r2 \<le> nb_vertices s" by auto
    show ?thesis
    proof (cases "r2 = nb_vertices s")
      case True
      with False r1 n1 r2 show ?thesis by (simp add: first_quadruple_def)
    next
      case n2: False
      with r1 r2 scan_coplanar_result[OF buf, of 0 r1 r2 "r2 + 1"] obtain r3 sg where
        r3: "scan_coplanar s 0 r1 r2 (r2 + 1) = Some (r3, sg)" by auto
      with False r1 n1 r2 n2 show ?thesis by (simp add: first_quadruple_def)
    qed
  qed
qed

text \<open>An input of at least four points that are not all coplanar makes the scan succeed.\<close>

lemma first_quadruple_nondegenerate:
  assumes buf: "buffer_ok s" and n4: "4 \<le> nb_vertices s" and nd: "\<not> all_coplanar s"
  shows "\<exists>iv0 iv1 iv2 iv3. first_quadruple s = Some (Some (iv0, iv1, iv2, iv3))"
proof -
  from first_quadruple_total[OF buf] obtain r where r: "first_quadruple s = Some r" ..
  show ?thesis
  proof (cases r)
    case None
    with r first_quadruple_failure[OF buf n4] nd show ?thesis by simp
  next
    case (Some q)
    obtain iv0 iv1 iv2 iv3 where "q = (iv0, iv1, iv2, iv3)" by (cases q)
    with Some r show ?thesis by simp
  qed
qed

text \<open>The insertion loop is abandoned only on a negative answer of the progress callback.\<close>

lemma insert_all_cancelled:
  "insert_all fuel C ori_inexact rnd cb vs is s hint k = Some (Inl s') \<Longrightarrow>
   \<exists>progress. cb = Some progress \<and> (\<exists>i\<in>set is. \<not> progress i (nb_vertices s))"
proof (induction "is" arbitrary: s hint k)
  case Nil
  then show ?case by simp
next
  case (Cons i "is")
  show ?case
  proof (cases "case cb of None \<Rightarrow> False | Some progress \<Rightarrow> \<not> progress i (nb_vertices s)")
    case True
    then obtain progress where "cb = Some progress" "\<not> progress i (nb_vertices s)"
      by (cases cb) auto
    then show ?thesis by simp
  next
    case False
    with Cons.prems obtain v where v: "get_at (reorder s) i = Some v"
      by (auto simp: bind_eq_Some_conv)
    show ?thesis
    proof (cases "v \<noteq> fst vs \<and> v \<noteq> fst (snd vs) \<and> v \<noteq> fst (snd (snd vs)) \<and> v \<noteq> snd (snd (snd vs))")
      case True
      with Cons.prems False v obtain new_hint s1 k1 where
        a: "insert_vertex fuel C ori_inexact rnd s v hint k = Some (new_hint, s1, k1)"
        and b: "insert_all fuel C ori_inexact rnd cb vs is s1
            (if new_hint \<noteq> NO_TETRAHEDRON then new_hint else hint) k1 = Some (Inl s')"
        by (auto simp: bind_eq_Some_conv)
      from insert_vertex_input[OF a] have "nb_vertices s1 = nb_vertices s"
        by (simp add: input_part_def)
      with Cons.IH[OF b] show ?thesis by auto
    next
      case nv: False
      with Cons.prems False v have "insert_all fuel C ori_inexact rnd cb vs is s hint k = Some (Inl s')"
        by (auto simp: bind_eq_Some_conv)
      from Cons.IH[OF this] show ?thesis by auto
    qed
  qed
qed

lemma set_vertices_false:
  assumes "set_vertices fuel C ori_inexact rnd brio cb s nb verts = Some (False, s')"
  shows "cancelled cb nb"
proof -
  from assms obtain s0 where
    i: "set_vertices_init brio s nb verts = Some s0"
    and k: "(if (case cb of None \<Rightarrow> False | Some progress \<Rightarrow> \<not> progress 0 0) then Some (False, s0)
     else do {
       (first, s) \<leftarrow> create_first_tetrahedron s0;
       case first of
         None \<Rightarrow> Some (True, s)
       | Some vs \<Rightarrow> do {
           r \<leftarrow> insert_all fuel C ori_inexact rnd cb vs [0..nb - 1] s NO_TETRAHEDRON 0;
           case r of
             Inl s \<Rightarrow> Some (False, s)
           | Inr (s, k) \<Rightarrow> do { s \<leftarrow> finalize fuel s; Some (True, s) }
         }
     }) = Some (False, s')"
    unfolding set_vertices_def by (auto simp: bind_eq_Some_conv)
  from i have nb0: "nb_vertices s0 = nb"
    unfolding set_vertices_init_def by (auto simp: bind_eq_Some_conv Let_def split: if_splits)
  show ?thesis
  proof (cases "case cb of None \<Rightarrow> False | Some progress \<Rightarrow> \<not> progress 0 0")
    case True
    then show ?thesis by (cases cb) (auto simp: cancelled_def)
  next
    case False
    with k obtain first s1 where
      c: "create_first_tetrahedron s0 = Some (first, s1)"
      and k1: "(case first of
         None \<Rightarrow> Some (True, s1)
       | Some vs \<Rightarrow> do {
           r \<leftarrow> insert_all fuel C ori_inexact rnd cb vs [0..nb - 1] s1 NO_TETRAHEDRON 0;
           case r of
             Inl s \<Rightarrow> Some (False, s)
           | Inr (s, k) \<Rightarrow> do { s \<leftarrow> finalize fuel s; Some (True, s) }
         }) = Some (False, s')"
      by (auto simp: bind_eq_Some_conv)
    from create_first_tetrahedron_input[OF c] nb0 have nb1: "nb_vertices s1 = nb"
      by (simp add: input_part_def)
    show ?thesis
    proof (cases first)
      case None
      with k1 show ?thesis by simp
    next
      case (Some vs)
      with k1 obtain r where
        r: "insert_all fuel C ori_inexact rnd cb vs [0..nb - 1] s1 NO_TETRAHEDRON 0 = Some r"
        and k2: "(case r of
             Inl s \<Rightarrow> Some (False, s)
           | Inr (s, k) \<Rightarrow> do { s \<leftarrow> finalize fuel s; Some (True, s) }) = Some (False, s')"
        by (auto simp: bind_eq_Some_conv)
      show ?thesis
      proof (cases r)
        case (Inl s2)
        with r insert_all_cancelled[of fuel C ori_inexact rnd cb vs "[0..nb - 1]" s1 NO_TETRAHEDRON 0 s2]
        obtain progress where "cb = Some progress" "\<exists>i\<in>set [0..nb - 1]. \<not> progress i (nb_vertices s1)"
          by auto
        with nb1 show ?thesis by (simp add: cancelled_def)
      next
        case (Inr p)
        with k2 show ?thesis by (cases p) (auto simp: bind_eq_Some_conv)
      qed
    qed
  qed
qed

text \<open>C6 (amended). With an input buffer that holds \<open>nb\<close> points: when the input is
  degenerate (fewer than 4 points, or all points coplanar, which covers identical and
  collinear points) and the progress callback does not cancel at the start,
  \<open>set_vertices\<close> returns for every amount of fuel, without undefined behaviour; it leaves
  the tetrahedron store empty, so that no tetrahedron exists; it does not touch the
  published number of cells, which therefore is zero on a fresh object and the number of
  the previous construction on an object that is used again; and it returns \<open>true\<close>, the
  value it also returns after a successful construction. On any input, \<open>false\<close> is returned
  only if the progress callback has answered false.\<close>

theorem degenerate_input_outcome:
  assumes buf: "vertex_stride s * nb \<le> int (length verts)"
  shows "((case cb of None \<Rightarrow> True | Some progress \<Rightarrow> progress 0 0) \<and>
          (nb < 4 \<or> all_coplanar (s\<lparr>nb_vertices := nb, vertices := verts\<rparr>)) \<longrightarrow>
          (\<exists>s'. set_vertices fuel C ori_inexact rnd brio cb s nb verts = Some (True, s') \<and>
                cell_to_v_store s' = [] \<and> cell_to_cell_store s' = [] \<and> cell_next s' = [] \<and>
                max_t s' = 0 \<and> nb_cells s' = nb_cells s \<and>
                (\<forall>dimension keep_inf reord.
                   new_Delaunay3d dimension keep_inf reord = Some s \<longrightarrow> nb_cells s' = 0))) \<and>
         (\<forall>s'. set_vertices fuel C ori_inexact rnd brio cb s nb verts = Some (False, s') \<longrightarrow>
                cancelled cb nb)"
proof (intro conjI impI allI)
  assume a: "(case cb of None \<Rightarrow> True | Some progress \<Rightarrow> progress 0 0) \<and>
          (nb < 4 \<or> all_coplanar (s\<lparr>nb_vertices := nb, vertices := verts\<rparr>))"
  then have cb: "case cb of None \<Rightarrow> True | Some progress \<Rightarrow> progress 0 0"
    and deg: "nb < 4 \<or> all_coplanar (s\<lparr>nb_vertices := nb, vertices := verts\<rparr>)" by simp_all
  from buf obtain s0 where s0: "set_vertices_init brio s nb verts = Some s0"
    "cell_to_v_store s0 = []" "cell_to_cell_store s0 = []" "cell_next s0 = []"
    "nb_vertices s0 = nb" "vertices s0 = verts" "weighted s0 = weighted s" "nb_cells s0 = nb_cells s"
    by (rule set_vertices_init_result[where brio = brio]) blast
  have st: "vertex_stride s0 = vertex_stride s"
    using s0 by (simp add: vertex_stride_def)
  have "buffer_ok s0" using buf s0 st by (simp add: buffer_ok_def)
  moreover have "pt s0 = pt (s\<lparr>nb_vertices := nb, vertices := verts\<rparr>)"
    using s0 by (intro ext) (simp add: pt_def vertex_stride_def)
  with deg s0 have "nb_vertices s0 < 4 \<or> all_coplanar s0"
    by (auto simp: all_coplanar_def)
  ultimately have "first_quadruple s0 = Some None" by (rule first_quadruple_degenerate)
  then have "create_first_tetrahedron s0 = Some (None, s0)"
    by (simp add: create_first_tetrahedron_def)
  moreover from cb have "\<not> (case cb of None \<Rightarrow> False | Some progress \<Rightarrow> \<not> progress 0 0)"
    by (cases cb) auto
  ultimately have "set_vertices fuel C ori_inexact rnd brio cb s nb verts = Some (True, s0)"
    using s0(1) by (simp add: set_vertices_def)
  then have r: "set_vertices fuel C ori_inexact rnd brio cb s nb verts = Some (True, s0)" .
  have fresh: "\<forall>dimension keep_inf reord.
      new_Delaunay3d dimension keep_inf reord = Some s \<longrightarrow> nb_cells s0 = 0"
    using s0(8) by (auto simp: new_Delaunay3d_def split: if_splits)
  have m: "max_t s0 = 0" using s0 by (simp add: max_t_def)
  from r s0(2-4) m s0(8) fresh
  show "\<exists>s'. set_vertices fuel C ori_inexact rnd brio cb s nb verts = Some (True, s') \<and>
                cell_to_v_store s' = [] \<and> cell_to_cell_store s' = [] \<and> cell_next s' = [] \<and>
                max_t s' = 0 \<and> nb_cells s' = nb_cells s \<and>
                (\<forall>dimension keep_inf reord.
                   new_Delaunay3d dimension keep_inf reord = Some s \<longrightarrow> nb_cells s' = 0)"
    by (intro exI[of _ s0] conjI)
next
  fix s'
  assume "set_vertices fuel C ori_inexact rnd brio cb s nb verts = Some (False, s')"
  then show "cancelled cb nb" by (rule set_vertices_false)
qed

lemma line_points_pt:
  assumes "0 \<le> i" "i < 4"
  shows "snd (pt (plain_object\<lparr>nb_vertices := 4, vertices := line_points\<rparr>) i) = (0, 0)"
proof -
  from assms have "i = 0 \<or> i = 1 \<or> i = 2 \<or> i = 3" by arith
  then show ?thesis
    by (auto simp: pt_def plain_object_def line_points_def vertex_stride_def)
qed

lemma orient_3d_on_axis:
  assumes "snd p0 = (0, 0)" "snd p1 = (0, 0)" "snd p2 = (0, 0)" "snd p3 = (0, 0)"
  shows "orient_3d p0 p1 p2 p3 = ZERO"
  using assms
  by (cases p0; cases p1; cases p2; cases p3)
     (simp add: orient_3d_def orient_3d_Delta_def det3x3_def geo_sgn_def)

lemma line_points_coplanar: "all_coplanar (plain_object\<lparr>nb_vertices := 4, vertices := line_points\<rparr>)"
  unfolding all_coplanar_def
  by (intro allI impI orient_3d_on_axis line_points_pt) simp_all

lemma set_vertices_line_again:
  "set_vertices fuel C ori rnd [] None corner_result 4 line_points = Some (True, line_result\<lparr>nb_cells := 1\<rparr>)"
proof -
  have i: "set_vertices_init [] corner_result 4 line_points = Some (line_result\<lparr>nb_cells := 1\<rparr>)"
    by (simp add: set_vertices_init_def corner_result_def corner_cells_def line_result_def
        plain_object_def Let_def upto.simps)
  have q: "first_quadruple (line_result\<lparr>nb_cells := 1\<rparr>) = Some None"
    by (simp add: first_quadruple_def scan_identical.simps scan_colinear.simps scan_coplanar.simps
      line_result_def plain_object_def line_points_def vertex_ptr_def vertex_stride_def get_at_def
      geometry_simps)
  show ?thesis
    unfolding set_vertices_def i by (simp add: create_first_tetrahedron_def q)
qed

lemma set_vertices_cancelled:
  "set_vertices fuel C ori rnd [] (Some cancel_at_2) plain_object 4 corner_points = Some (False, corner_cells)"
proof -
  have r: "insert_all fuel C ori rnd (Some cancel_at_2) (0, 1, 2, 3) [0, 1, 2, 3] corner_cells NO_TETRAHEDRON 0
     = Some (Inl corner_cells)"
    by (simp add: corner_cells_def plain_object_def get_at_def cancel_at_2_def)
  show ?thesis
    unfolding set_vertices_def init_corner
    by (simp add: first_corner upto_0_3 r cancel_at_2_def del: insert_all.simps)
qed

text \<open>C6 (as stated, refuted). Four collinear points and the four corners of a tetrahedron
  both make \<open>set_vertices\<close> return \<open>true\<close>: the store is empty in the first case and holds
  one tetrahedron in the second, but the boolean result is the same. And when the object
  that holds the tetrahedron is given the four collinear points, it returns \<open>true\<close> again
  and still publishes one cell.\<close>

theorem degenerate_not_reported:
  "set_vertices 0 never_conflict exact_sign zero_stream [] None plain_object 4 line_points
     = Some (True, line_result) \<and>
   set_vertices 0 never_conflict exact_sign zero_stream [] None plain_object 4 corner_points
     = Some (True, corner_result) \<and>
   set_vertices 0 never_conflict exact_sign zero_stream [] None corner_result 4 line_points
     = Some (True, line_result\<lparr>nb_cells := 1\<rparr>) \<and>
   max_t (line_result\<lparr>nb_cells := 1\<rparr>) = 0 \<and> nb_cells (line_result\<lparr>nb_cells := 1\<rparr>) = 1"
  using set_vertices_line set_vertices_corner set_vertices_line_again
  by (simp add: line_result_def corner_result_def max_t_def plain_object_def)

lemma plain_object_fresh: "new_Delaunay3d 3 False False = Some plain_object"
  by (simp add: new_Delaunay3d_def plain_object_def)

theorem degenerate_input_outcome_witness:
  "vertex_stride plain_object * 4 \<le> int (length line_points) \<and>
   all_coplanar (plain_object\<lparr>nb_vertices := 4, vertices := line_points\<rparr>) \<and>
   new_Delaunay3d 3 False False = Some plain_object \<and>
   (\<exists>s'. set_vertices 0 never_conflict exact_sign zero_stream [] None plain_object 4 line_points = Some (True, s') \<and>
           cell_to_v_store s' = [] \<and> cell_to_cell_store s' = [] \<and> cell_next s' = [] \<and>
           max_t s' = 0 \<and> nb_cells s' = nb_cells plain_object \<and> nb_cells s' = 0) \<and>
   vertex_stride plain_object * 4 \<le> int (length corner_points) \<and>
   set_vertices 0 never_conflict exact_sign zero_stream [] (Some cancel_at_2) plain_object 4 corner_points
     = Some (False, corner_cells) \<and>
   cancelled (Some cancel_at_2) 4"
proof -
  have b: "vertex_stride plain_object * 4 \<le> int (length line_points)"
    by (simp add: vertex_stride_def plain_object_def line_points_def)
  have c: "case (None :: (int \<Rightarrow> int \<Rightarrow> bool) option) of None \<Rightarrow> True | Some progress \<Rightarrow> progress 0 0"
    by simp
  note t1 = degenerate_input_outcome[OF b, of None 0 never_conflict exact_sign zero_stream "[]"]
  from t1[THEN conjunct1, rule_format, OF conjI, OF c disjI2, OF line_points_coplanar]
  obtain s' where s': "set_vertices 0 never_conflict exact_sign zero_stream [] None plain_object 4 line_points = Some (True, s')"
    "cell_to_v_store s' = []" "cell_to_cell_store s' = []" "cell_next s' = []"
    "max_t s' = 0" "nb_cells s' = nb_cells plain_object"
    "\<forall>dimension keep_inf reord.
        new_Delaunay3d dimension keep_inf reord = Some plain_object \<longrightarrow> nb_cells s' = 0"
    by blast
  from s'(7)[rule_format, OF plain_object_fresh] have z: "nb_cells s' = 0" .
  from s'(1-6) z
  have 1: "\<exists>s'. set_vertices 0 never_conflict exact_sign zero_stream [] None plain_object 4 line_points = Some (True, s') \<and>
           cell_to_v_store s' = [] \<and> cell_to_cell_store s' = [] \<and> cell_next s' = [] \<and>
           max_t s' = 0 \<and> nb_cells s' = nb_cells plain_object \<and> nb_cells s' = 0"
    by (intro exI[of _ s'] conjI)
  have b2: "vertex_stride plain_object * 4 \<le> int (length corner_points)"
    by (simp add: vertex_stride_def plain_object_def corner_points_def)
  note r = set_vertices_cancelled[of 0 never_conflict exact_sign zero_stream]
  note t2 = degenerate_input_outcome[OF b2, of "Some cancel_at_2" 0 never_conflict exact_sign zero_stream "[]"]
  from t2[THEN conjunct2, rule_format, OF r] have 2: "cancelled (Some cancel_at_2) 4" .
  from b line_points_coplanar plain_object_fresh 1 b2 r 2 show ?thesis by (intro conjI)
qed

lemma orient_3d_swap_last:
  "orient_3d p0 p1 p3 p2 = (case orient_3d p0 p1 p2 p3 of NEGATIVE \<Rightarrow> POSITIVE | ZERO \<Rightarrow> ZERO | POSITIVE \<Rightarrow> NEGATIVE)"
proof -
  have "orient_3d_Delta p0 p1 p3 p2 = - orient_3d_Delta p0 p1 p2 p3"
    by (cases p0; cases p1; cases p2; cases p3)
       (simp add: orient_3d_Delta_def det3x3_def algebra_simps)
  then show ?thesis by (simp add: orient_3d_def geo_sgn_def)
qed

lemma first_quadruple_found:
  assumes buf: "buffer_ok s" and q: "first_quadruple s = Some (Some (iv0, iv1, iv2, iv3))"
  shows "\<exists>j2 j3. iv0 = 0 \<and> 0 < iv1 \<and> iv1 < j2 \<and> j2 < j3 \<and> j3 < nb_vertices s \<and>
      (\<forall>j. 0 < j \<and> j < iv1 \<longrightarrow> points_are_identical (pt s 0) (pt s j)) \<and>
      \<not> points_are_identical (pt s 0) (pt s iv1) \<and>
      (\<forall>j. iv1 < j \<and> j < j2 \<longrightarrow> points_are_colinear (pt s 0) (pt s iv1) (pt s j)) \<and>
      \<not> points_are_colinear (pt s 0) (pt s iv1) (pt s j2) \<and>
      (\<forall>j. j2 < j \<and> j < j3 \<longrightarrow> orient_3d (pt s 0) (pt s iv1) (pt s j2) (pt s j) = ZERO) \<and>
      orient_3d (pt s 0) (pt s iv1) (pt s j2) (pt s j3) \<noteq> ZERO \<and>
      (iv2, iv3) = (if orient_3d (pt s 0) (pt s iv1) (pt s j2) (pt s j3) = NEGATIVE then (j3, j2) else (j2, j3))"
proof -
  from q have n4: "\<not> nb_vertices s < 4"
    by (auto simp: first_quadruple_def split: if_splits)
  from n4 scan_identical_result[OF buf, of 0 1] obtain r1 where
    r1: "scan_identical s 0 1 = Some r1" "1 \<le> r1" "r1 \<le> nb_vertices s"
      "\<forall>j. 1 \<le> j \<and> j < r1 \<longrightarrow> points_are_identical (pt s 0) (pt s j)"
      "r1 < nb_vertices s \<longrightarrow> \<not> points_are_identical (pt s 0) (pt s r1)" by auto
  from q n4 r1(1) have n1: "r1 \<noteq> nb_vertices s"
    by (auto simp: first_quadruple_def split: if_splits)
  with r1 scan_colinear_result[OF buf, of 0 r1 "r1 + 1"] obtain r2 where
    r2: "scan_colinear s 0 r1 (r1 + 1) = Some r2" "r1 + 1 \<le> r2" "r2 \<le> nb_vertices s"
      "\<forall>j. r1 + 1 \<le> j \<and> j < r2 \<longrightarrow> points_are_colinear (pt s 0) (pt s r1) (pt s j)"
      "r2 < nb_vertices s \<longrightarrow> \<not> points_are_colinear (pt s 0) (pt s r1) (pt s r2)" by auto
  from q n4 r1(1) n1 r2(1) have n2: "r2 \<noteq> nb_vertices s"
    by (auto simp: first_quadruple_def split: if_splits)
  with r1 r2 scan_coplanar_result[OF buf, of 0 r1 r2 "r2 + 1"] obtain r3 sg where
    r3: "scan_coplanar s 0 r1 r2 (r2 + 1) = Some (r3, sg)" "r2 + 1 \<le> r3" "r3 \<le> nb_vertices s"
      "\<forall>j. r2 + 1 \<le> j \<and> j < r3 \<longrightarrow> orient_3d (pt s 0) (pt s r1) (pt s r2) (pt s j) = ZERO"
      "r3 < nb_vertices s \<longrightarrow> sg = orient_3d (pt s 0) (pt s r1) (pt s r2) (pt s r3) \<and> sg \<noteq> ZERO"
    by auto
  from q n4 r1(1) n1 r2(1) n2 r3(1) have n3: "r3 \<noteq> nb_vertices s"
    and e: "(iv0, iv1, iv2, iv3) = (if sg = NEGATIVE then (0, r1, r3, r2) else (0, r1, r2, r3))"
    by (auto simp: first_quadruple_def split: if_splits)
  from n3 r3 have sg: "sg = orient_3d (pt s 0) (pt s r1) (pt s r2) (pt s r3)" "sg \<noteq> ZERO" by auto
  from e have i: "iv0 = 0" "iv1 = r1" "(iv2, iv3) = (if sg = NEGATIVE then (r3, r2) else (r2, r3))"
    by (auto split: if_splits)
  show ?thesis
  proof (rule exI[of _ r2], rule exI[of _ r3], intro conjI)
    show "iv0 = 0" by (rule i)
    show "0 < iv1" using i r1 by simp
    show "iv1 < r2" using i r2 by simp
    show "r2 < r3" using r3 by simp
    show "r3 < nb_vertices s" using n3 r3 by simp
    show "\<forall>j. 0 < j \<and> j < iv1 \<longrightarrow> points_are_identical (pt s 0) (pt s j)"
      using r1(4) i by simp
    show "\<not> points_are_identical (pt s 0) (pt s iv1)" using r1 n1 i by simp
    show "\<forall>j. iv1 < j \<and> j < r2 \<longrightarrow> points_are_colinear (pt s 0) (pt s iv1) (pt s j)"
      using r2(4) i by simp
    show "\<not> points_are_colinear (pt s 0) (pt s iv1) (pt s r2)" using r2 n2 i by simp
    show "\<forall>j. r2 < j \<and> j < r3 \<longrightarrow> orient_3d (pt s 0) (pt s iv1) (pt s r2) (pt s j) = ZERO"
      using r3(4) i by simp
    show "orient_3d (pt s 0) (pt s iv1) (pt s r2) (pt s r3) \<noteq> ZERO" using sg i by simp
    show "(iv2, iv3) = (if orient_3d (pt s 0) (pt s iv1) (pt s r2) (pt s r3) = NEGATIVE then (r3, r2) else (r2, r3))"
      using i sg by simp
  qed
qed

lemma first_quadruple_positive:
  assumes buf: "buffer_ok s" and q: "first_quadruple s = Some (Some (iv0, iv1, iv2, iv3))"
  shows "orient_3d (pt s iv0) (pt s iv1) (pt s iv2) (pt s iv3) = POSITIVE"
proof -
  from first_quadruple_found[OF buf q] obtain j2 j3 where
    j: "iv0 = 0" "orient_3d (pt s 0) (pt s iv1) (pt s j2) (pt s j3) \<noteq> ZERO"
    "(iv2, iv3) = (if orient_3d (pt s 0) (pt s iv1) (pt s j2) (pt s j3) = NEGATIVE then (j3, j2) else (j2, j3))"
    by blast
  show ?thesis
  proof (cases "orient_3d (pt s 0) (pt s iv1) (pt s j2) (pt s j3)")
    case NEGATIVE
    with j have "iv2 = j3" "iv3 = j2" by auto
    with j(1) NEGATIVE show ?thesis
      by (simp add: orient_3d_swap_last[where ?p2.0 = "pt s j2" and ?p3.0 = "pt s j3"])
  next
    case ZERO
    with j show ?thesis by simp
  next
    case POSITIVE
    with j show ?thesis by auto
  qed
qed

section \<open>The first tetrahedron and its neighbors\<close>

lemma upto_0_4: "[0..(4::int)] = [0, 1, 2, 3, 4]"
  by (simp add: upto.simps)

lemma first_stores_finite_virtual:
  assumes "0 \<le> a" "0 \<le> b" "0 \<le> c" "0 \<le> d"
  shows "one_finite_four_virtual (first_stores s a b c d)"
  using assms
  by (simp add: one_finite_four_virtual_def first_stores_def max_t_def tet_is_virtual_def
      tet_vertex_def get_at_def VERTEX_AT_INFINITY_def)

lemma first_stores_match: "virtual_cells_match_faces (first_stores s a b c d)"
  by (simp add: virtual_cells_match_faces_def first_stores_def tet_adjacent_def
      tet_vertex_def get_at_def VERTEX_AT_INFINITY_def insert_commute)

lemma first_stores_symmetric: "adjacency_symmetric (first_stores s a b c d)"
  by (simp add: adjacency_symmetric_def first_stores_def max_t_def upto_0_4 tet_adjacent_def get_at_def)

text \<open>C5 (amended). With an input buffer that holds \<open>nb\<close> points, at least four of them and
  not all of them coplanar, \<open>create_first_tetrahedron\<close> succeeds on the store that
  \<open>set_vertices\<close> has prepared. It scans the vertices in their original index order (not in
  the order of the spatial sort, whatever that order is): vertex \<open>0\<close>, the first vertex
  \<open>iv1\<close> not identical to it, the first vertex \<open>j2\<close> after \<open>iv1\<close> not collinear with these
  two, and the first vertex \<open>j3\<close> after \<open>j2\<close> not coplanar with these three; when the
  orientation of \<open>(0, iv1, j2, j3)\<close> is negative the last two indices are swapped, so that
  the created cell is positively oriented. The store then holds exactly one finite cell
  and four virtual cells; the three finite vertices of the virtual cell across facet \<open>f\<close>
  are those of facet \<open>f\<close> of the finite cell; and every neighbor slot is set, with a link
  back.\<close>

theorem first_tetrahedron_construction:
  assumes buf: "vertex_stride s * nb \<le> int (length verts)"
    and n4: "4 \<le> nb"
    and nd: "\<not> all_coplanar (s\<lparr>nb_vertices := nb, vertices := verts\<rparr>)"
  shows "\<exists>s0 iv1 iv2 iv3 j2 j3.
      set_vertices_init brio s nb verts = Some s0 \<and>
      create_first_tetrahedron s0 = Some (Some (0, iv1, iv2, iv3), first_stores s0 0 iv1 iv2 iv3) \<and>
      0 < iv1 \<and> iv1 < j2 \<and> j2 < j3 \<and> j3 < nb \<and>
      (\<forall>j. 0 < j \<and> j < iv1 \<longrightarrow> points_are_identical (pt s0 0) (pt s0 j)) \<and>
      \<not> points_are_identical (pt s0 0) (pt s0 iv1) \<and>
      (\<forall>j. iv1 < j \<and> j < j2 \<longrightarrow> points_are_colinear (pt s0 0) (pt s0 iv1) (pt s0 j)) \<and>
      \<not> points_are_colinear (pt s0 0) (pt s0 iv1) (pt s0 j2) \<and>
      (\<forall>j. j2 < j \<and> j < j3 \<longrightarrow> orient_3d (pt s0 0) (pt s0 iv1) (pt s0 j2) (pt s0 j) = ZERO) \<and>
      orient_3d (pt s0 0) (pt s0 iv1) (pt s0 j2) (pt s0 j3) \<noteq> ZERO \<and>
      (iv2, iv3) = (if orient_3d (pt s0 0) (pt s0 iv1) (pt s0 j2) (pt s0 j3) = NEGATIVE
                    then (j3, j2) else (j2, j3)) \<and>
      orient_3d (pt s0 0) (pt s0 iv1) (pt s0 iv2) (pt s0 iv3) = POSITIVE \<and>
      one_finite_four_virtual (first_stores s0 0 iv1 iv2 iv3) \<and>
      virtual_cells_match_faces (first_stores s0 0 iv1 iv2 iv3) \<and>
      adjacency_symmetric (first_stores s0 0 iv1 iv2 iv3)"
proof -
  from buf obtain s0 where s0: "set_vertices_init brio s nb verts = Some s0"
    "cell_to_v_store s0 = []" "cell_to_cell_store s0 = []" "cell_next s0 = []"
    "first_free s0 = END_OF_LIST" "nb_vertices s0 = nb" "vertices s0 = verts"
    "weighted s0 = weighted s"
    by (rule set_vertices_init_result[where brio = brio]) blast
  have bok: "buffer_ok s0" using buf s0 by (simp add: buffer_ok_def vertex_stride_def)
  have "pt s0 = pt (s\<lparr>nb_vertices := nb, vertices := verts\<rparr>)"
    using s0 by (intro ext) (simp add: pt_def vertex_stride_def)
  with nd s0 have nd0: "\<not> all_coplanar s0" by (simp add: all_coplanar_def)
  from n4 s0 have n40: "4 \<le> nb_vertices s0" by simp
  from first_quadruple_nondegenerate[OF bok n40 nd0] obtain iv0 iv1 iv2 iv3 where
    q: "first_quadruple s0 = Some (Some (iv0, iv1, iv2, iv3))" by blast
  from first_quadruple_found[OF bok q] obtain j2 j3 where
    f: "iv0 = 0" "0 < iv1" "iv1 < j2" "j2 < j3" "j3 < nb_vertices s0"
      "\<forall>j. 0 < j \<and> j < iv1 \<longrightarrow> points_are_identical (pt s0 0) (pt s0 j)"
      "\<not> points_are_identical (pt s0 0) (pt s0 iv1)"
      "\<forall>j. iv1 < j \<and> j < j2 \<longrightarrow> points_are_colinear (pt s0 0) (pt s0 iv1) (pt s0 j)"
      "\<not> points_are_colinear (pt s0 0) (pt s0 iv1) (pt s0 j2)"
      "\<forall>j. j2 < j \<and> j < j3 \<longrightarrow> orient_3d (pt s0 0) (pt s0 iv1) (pt s0 j2) (pt s0 j) = ZERO"
      "orient_3d (pt s0 0) (pt s0 iv1) (pt s0 j2) (pt s0 j3) \<noteq> ZERO"
      "(iv2, iv3) = (if orient_3d (pt s0 0) (pt s0 iv1) (pt s0 j2) (pt s0 j3) = NEGATIVE
                    then (j3, j2) else (j2, j3))"
    by blast
  from f(1-4,12) have nn: "(0::int) \<le> 0" "0 \<le> iv1" "0 \<le> iv2" "0 \<le> iv3"
    by (auto split: if_splits)
  from first_cells_explicit[OF s0(2-5), of 0 iv1 iv2 iv3]
  have c: "first_cells s0 0 iv1 iv2 iv3 = Some (first_stores s0 0 iv1 iv2 iv3)"
    by (simp add: first_stores_def)
  from q f(1) c have r: "create_first_tetrahedron s0
      = Some (Some (0, iv1, iv2, iv3), first_stores s0 0 iv1 iv2 iv3)"
    by (simp add: create_first_tetrahedron_def)
  from first_quadruple_positive[OF bok q] f(1)
  have p: "orient_3d (pt s0 0) (pt s0 iv1) (pt s0 iv2) (pt s0 iv3) = POSITIVE" by simp
  note 3 = first_stores_finite_virtual[OF nn, of s0] first_stores_match[of s0 0 iv1 iv2 iv3]
    first_stores_symmetric[of s0 0 iv1 iv2 iv3]
  from f(5) s0(6) have lt: "j3 < nb" by simp
  show ?thesis
    apply (rule exI[of _ s0], rule exI[of _ iv1], rule exI[of _ iv2], rule exI[of _ iv3])
    apply (rule exI[of _ j2], rule exI[of _ j3])
    apply (intro conjI)
    apply (rule s0(1))
    apply (rule r)
    apply (rule f(2))
    apply (rule f(3))
    apply (rule f(4))
    apply (rule lt)
    apply (rule f(6))
    apply (rule f(7))
    apply (rule f(8))
    apply (rule f(9))
    apply (rule f(10))
    apply (rule f(11))
    apply (rule f(12))
    apply (rule p)
    apply (rule 3(1))
    apply (rule 3(2))
    apply (rule 3(3))
    done
qed

lemma init_five: "set_vertices_init [4, 3, 2, 1, 0] reordering_object 5 five_points = Some five_prepared"
  by (simp add: set_vertices_init_def reordering_object_def plain_object_def five_prepared_def Let_def)

lemma quad_five: "first_quadruple five_prepared = Some (Some (0, 1, 2, 3))"
  by (simp add: first_quadruple_def scan_identical.simps scan_colinear.simps scan_coplanar.simps
      five_prepared_def reordering_object_def plain_object_def five_points_def vertex_ptr_def vertex_stride_def get_at_def
      points_are_identical_def points_are_colinear_def orient_3d_def orient_3d_Delta_def det3x3_def geo_sgn_def
      q000_def q001_def q010_def q100_def)

lemma first_five: "create_first_tetrahedron five_prepared = Some (Some (0, 1, 2, 3), first_stores five_prepared 0 1 2 3)"
  unfolding create_first_tetrahedron_def quad_five
  by (simp add: first_cells_explicit first_stores_def five_prepared_def reordering_object_def plain_object_def)

lemma claimed_five: "claimed_first_quadruple five_prepared = Some (Some (4, 3, 2, 1))"
  by (simp add: claimed_first_quadruple_def reordered_view_def
      first_quadruple_def scan_identical.simps scan_colinear.simps scan_coplanar.simps
      five_prepared_def reordering_object_def plain_object_def five_points_def vertex_ptr_def vertex_stride_def get_at_def
      points_are_identical_def points_are_colinear_def orient_3d_def orient_3d_Delta_def det3x3_def geo_sgn_def
      q000_def q001_def q010_def q100_def)

text \<open>C5 (as stated, refuted). Five points sorted as \<open>4, 3, 2, 1, 0\<close> by the spatial sort:
  the scan of the reordered sequence would give the tetrahedron \<open>(4, 3, 2, 1)\<close>, the program
  builds \<open>(0, 1, 2, 3)\<close>.\<close>

theorem first_tetrahedron_not_reordered:
  "set_vertices_init [4, 3, 2, 1, 0] reordering_object 5 five_points = Some five_prepared \<and>
   create_first_tetrahedron five_prepared = Some (Some (0, 1, 2, 3), first_stores five_prepared 0 1 2 3) \<and>
   claimed_first_quadruple five_prepared = Some (Some (4, 3, 2, 1))"
  using init_five first_five claimed_five by simp

lemma corner_not_coplanar: "\<not> all_coplanar (plain_object\<lparr>nb_vertices := 4, vertices := corner_points\<rparr>)"
proof
  assume "all_coplanar (plain_object\<lparr>nb_vertices := 4, vertices := corner_points\<rparr>)"
  from this[unfolded all_coplanar_def, rule_format, of 0 1 2 3] show False
    by (simp add: pt_def plain_object_def corner_points_def vertex_stride_def geometry_simps)
qed

theorem first_tetrahedron_construction_witness:
  "vertex_stride plain_object * 4 \<le> int (length corner_points) \<and> (4::int) \<le> 4 \<and>
   \<not> all_coplanar (plain_object\<lparr>nb_vertices := 4, vertices := corner_points\<rparr>) \<and>
   (\<exists>s0 iv1 iv2 iv3 j2 j3.
      set_vertices_init [] plain_object 4 corner_points = Some s0 \<and>
      create_first_tetrahedron s0 = Some (Some (0, iv1, iv2, iv3), first_stores s0 0 iv1 iv2 iv3) \<and>
      0 < iv1 \<and> iv1 < j2 \<and> j2 < j3 \<and> j3 < 4 \<and>
      (\<forall>j. 0 < j \<and> j < iv1 \<longrightarrow> points_are_identical (pt s0 0) (pt s0 j)) \<and>
      \<not> points_are_identical (pt s0 0) (pt s0 iv1) \<and>
      (\<forall>j. iv1 < j \<and> j < j2 \<longrightarrow> points_are_colinear (pt s0 0) (pt s0 iv1) (pt s0 j)) \<and>
      \<not> points_are_colinear (pt s0 0) (pt s0 iv1) (pt s0 j2) \<and>
      (\<forall>j. j2 < j \<and> j < j3 \<longrightarrow> orient_3d (pt s0 0) (pt s0 iv1) (pt s0 j2) (pt s0 j) = ZERO) \<and>
      orient_3d (pt s0 0) (pt s0 iv1) (pt s0 j2) (pt s0 j3) \<noteq> ZERO \<and>
      (iv2, iv3) = (if orient_3d (pt s0 0) (pt s0 iv1) (pt s0 j2) (pt s0 j3) = NEGATIVE
                    then (j3, j2) else (j2, j3)) \<and>
      orient_3d (pt s0 0) (pt s0 iv1) (pt s0 iv2) (pt s0 iv3) = POSITIVE \<and>
      one_finite_four_virtual (first_stores s0 0 iv1 iv2 iv3) \<and>
      virtual_cells_match_faces (first_stores s0 0 iv1 iv2 iv3) \<and>
      adjacency_symmetric (first_stores s0 0 iv1 iv2 iv3)) \<and>
   create_first_tetrahedron (plain_object\<lparr>nb_vertices := 4, vertices := corner_points, reorder := [0, 1, 2, 3]\<rparr>)
     = Some (Some (0, 1, 2, 3), corner_cells)"
proof -
  have b: "vertex_stride plain_object * 4 \<le> int (length corner_points)"
    by (simp add: vertex_stride_def plain_object_def corner_points_def)
  have n: "(4::int) \<le> 4" by simp
  note t = first_tetrahedron_construction[OF b n corner_not_coplanar, of "[]"]
  from b n corner_not_coplanar t first_corner show ?thesis by (intro conjI)
qed

section \<open>The walks of point location\<close>

lemma locate_run_after_steps:
  "locate_steps n rnd s p w0 = Some w \<Longrightarrow> locate_run (n + m) rnd s p w0 = locate_run m rnd s p w"
proof (induction n arbitrary: w0)
  case 0
  then show ?case by simp
next
  case (Suc n)
  from Suc.prems obtain w' where
    "locate_step rnd s p w0 = Some (Continue w')" "locate_steps n rnd s p w' = Some w"
    by (auto split: option.splits step.splits)
  with Suc.IH[of w'] show ?case by simp
qed

lemma locate_inexact_run_after_steps:
  "locate_inexact_steps n ori s p w0 = Some w \<Longrightarrow>
   locate_inexact_run (n + m) ori s p w0 = locate_inexact_run m ori s p w"
proof (induction n arbitrary: w0)
  case 0
  then show ?case by simp
next
  case (Suc n)
  from Suc.prems obtain w' where
    "locate_inexact_step ori s p w0 = Some (Continue w')" "locate_inexact_steps n ori s p w' = Some w"
    by (auto split: option.splits step.splits)
  with Suc.IH[of w'] show ?case by simp
qed

lemma locate_step_unset:
  assumes "w_df w < 4" "tet_adjacent s (w_t w) (int (examined_facet w)) = Some (-1)"
  shows "locate_step rnd s p w = Some (Return (NO_TETRAHEDRON, w_orient w, w_k w))"
  using assms by (simp add: locate_step_def)

lemma locate_inexact_step_unset:
  assumes "iw_f w < 4" "tet_adjacent s (iw_t w) (int (iw_f w)) = Some (-1)"
  shows "locate_inexact_step ori s p w = Some (Return NO_TETRAHEDRON)"
  using assms by (simp add: locate_inexact_step_def)

lemma locate_run_unset:
  assumes "locate_steps n rnd s p w0 = Some w" "w_df w < 4"
    "tet_adjacent s (w_t w) (int (examined_facet w)) = Some (-1)" "n < fuel"
  shows "locate_run fuel rnd s p w0 = Some (NO_TETRAHEDRON, w_orient w, w_k w)"
proof -
  from less_imp_Suc_add[OF assms(4)] obtain m where "fuel = Suc (n + m)" ..
  then have f: "fuel = n + Suc m" by simp
  have "locate_run fuel rnd s p w0 = locate_run (Suc m) rnd s p w"
    unfolding f by (rule locate_run_after_steps[OF assms(1)])
  also have "\<dots> = Some (NO_TETRAHEDRON, w_orient w, w_k w)"
    by (simp add: locate_step_unset[OF assms(2,3)])
  finally show ?thesis .
qed

lemma locate_inexact_run_unset:
  assumes "locate_inexact_steps n ori s p w0 = Some w" "iw_f w < 4"
    "tet_adjacent s (iw_t w) (int (iw_f w)) = Some (-1)" "n < fuel"
  shows "locate_inexact_run fuel ori s p w0 = Some NO_TETRAHEDRON"
proof -
  from less_imp_Suc_add[OF assms(4)] obtain m where "fuel = Suc (n + m)" ..
  then have f: "fuel = n + Suc m" by simp
  have "locate_inexact_run fuel ori s p w0 = locate_inexact_run (Suc m) ori s p w"
    unfolding f by (rule locate_inexact_run_after_steps[OF assms(1)])
  also have "\<dots> = Some NO_TETRAHEDRON"
    by (simp add: locate_inexact_step_unset[OF assms(2,3)])
  finally show ?thesis .
qed

lemma locate_run_return:
  assumes "locate_steps n rnd s p w0 = Some w" "locate_step rnd s p w = Some (Return r)" "n < fuel"
  shows "locate_run fuel rnd s p w0 = Some r"
proof -
  from less_imp_Suc_add[OF assms(3)] obtain m where "fuel = Suc (n + m)" ..
  then have f: "fuel = n + Suc m" by simp
  have "locate_run fuel rnd s p w0 = locate_run (Suc m) rnd s p w"
    unfolding f by (rule locate_run_after_steps[OF assms(1)])
  also have "\<dots> = Some r"
    by (simp add: assms(2))
  finally show ?thesis .
qed

lemma locate_inexact_run_return:
  assumes "locate_inexact_steps n ori s p w0 = Some w" "locate_inexact_step ori s p w = Some (Return r)"
    "n < fuel"
  shows "locate_inexact_run fuel ori s p w0 = Some r"
proof -
  from less_imp_Suc_add[OF assms(3)] obtain m where "fuel = Suc (n + m)" ..
  then have f: "fuel = n + Suc m" by simp
  have "locate_inexact_run fuel ori s p w0 = locate_inexact_run (Suc m) ori s p w"
    unfolding f by (rule locate_inexact_run_after_steps[OF assms(1)])
  also have "\<dots> = Some r"
    by (simp add: assms(2))
  finally show ?thesis .
qed

text \<open>C8. Whenever the walk of \<open>locate\<close> or of \<open>locate_inexact\<close>, after any number of facet
  examinations, examines a facet of its current cell whose neighbor slot is unset (\<open>-1\<close>),
  the routine returns, and what it returns is \<open>NO_TETRAHEDRON\<close>: it has a defined result,
  so nothing was read through the missing neighbor.\<close>

theorem unset_neighbor_not_found:
  "(locate_start fuel ori_inexact rnd s p hint orient k = Some w0 \<and>
    locate_steps n rnd s p w0 = Some w \<and> w_df w < 4 \<and>
    tet_adjacent s (w_t w) (int (examined_facet w)) = Some (-1) \<and> n < fuel \<longrightarrow>
    locate fuel ori_inexact rnd s p hint orient k = Some (NO_TETRAHEDRON, w_orient w, w_k w)) \<and>
   (locate_inexact_start fuel rnd s hint max_iter k = Some (iw0, k1) \<and>
    locate_inexact_steps n ori_inexact s p iw0 = Some iw \<and> iw_f iw < 4 \<and>
    tet_adjacent s (iw_t iw) (int (iw_f iw)) = Some (-1) \<and> n < fuel \<longrightarrow>
    locate_inexact fuel ori_inexact rnd s p hint max_iter k = Some (NO_TETRAHEDRON, k1))"
proof (intro conjI impI)
  assume a: "locate_start fuel ori_inexact rnd s p hint orient k = Some w0 \<and>
    locate_steps n rnd s p w0 = Some w \<and> w_df w < 4 \<and>
    tet_adjacent s (w_t w) (int (examined_facet w)) = Some (-1) \<and> n < fuel"
  then have "locate_run fuel rnd s p w0 = Some (NO_TETRAHEDRON, w_orient w, w_k w)"
    by (intro locate_run_unset[of n]) simp_all
  with a show "locate fuel ori_inexact rnd s p hint orient k = Some (NO_TETRAHEDRON, w_orient w, w_k w)"
    by (simp add: locate_def)
next
  assume a: "locate_inexact_start fuel rnd s hint max_iter k = Some (iw0, k1) \<and>
    locate_inexact_steps n ori_inexact s p iw0 = Some iw \<and> iw_f iw < 4 \<and>
    tet_adjacent s (iw_t iw) (int (iw_f iw)) = Some (-1) \<and> n < fuel"
  then have "locate_inexact_run fuel ori_inexact s p iw0 = Some NO_TETRAHEDRON"
    by (intro locate_inexact_run_unset[of n _ _ _ _ iw]) simp_all
  with a show "locate_inexact fuel ori_inexact rnd s p hint max_iter k = Some (NO_TETRAHEDRON, k1)"
    by (simp add: locate_inexact_def)
qed

section \<open>A mesh without its infinite cells\<close>

lemmas store_simps = tet_adjacent_def tet_vertex_def finite_tet_vertex_def tet_is_virtual_def
  tet_is_free_def tet_is_in_list_def get_at_def vertex_ptr_def vertex_stride_def max_t_def
  VERTEX_AT_INFINITY_def NO_TETRAHEDRON_def

lemmas sign_simps = orient_pv_def deref_def orient_3d_def orient_3d_Delta_def det3x3_def geo_sgn_def
  exact_sign_def

lemma inexact_start: "locate_inexact_start 10 zero_stream stripped_mesh 0 2500 0 =
   Some (\<lparr>iw_t = 0, iw_pred = -1, iw_pv = [Vtx 0, Vtx 1, Vtx 2, Vtx 4], iw_f = 0, iw_max_iter = 2500\<rparr>, 0)"
  by (simp add: locate_inexact_start_def real_start_def load_pv_def stripped_mesh_def store_simps)

lemma inexact_step1: "locate_inexact_steps 1 exact_sign stripped_mesh outside_point
    \<lparr>iw_t = 0, iw_pred = -1, iw_pv = [Vtx 0, Vtx 1, Vtx 2, Vtx 4], iw_f = 0, iw_max_iter = 2500\<rparr>
  = Some \<lparr>iw_t = 1, iw_pred = 0, iw_pv = [Vtx 4, Vtx 1, Vtx 2, Vtx 3], iw_f = 0, iw_max_iter = 2499\<rparr>"
  by (simp add: locate_inexact_step_def load_pv_def stripped_mesh_def outside_point_def store_simps sign_simps)

lemma inexact_result: "locate_inexact 10 exact_sign zero_stream stripped_mesh outside_point 0 2500 0 = Some (NO_TETRAHEDRON, 0)"
proof -
  have "locate_inexact_run 10 exact_sign stripped_mesh outside_point
      \<lparr>iw_t = 0, iw_pred = -1, iw_pv = [Vtx 0, Vtx 1, Vtx 2, Vtx 4], iw_f = 0, iw_max_iter = 2500\<rparr>
    = Some NO_TETRAHEDRON"
    by (rule locate_inexact_run_unset[OF inexact_step1])
       (simp_all add: stripped_mesh_def tet_adjacent_def get_at_def)
  then show ?thesis
    unfolding locate_inexact_def inexact_start by simp
qed

lemma exact_start: "locate_start 10 exact_sign zero_stream stripped_mesh outside_point 0 [None, None, None, None] 0 =
   Some \<lparr>w_t = 0, w_pred = -1, w_pv = [Vtx 0, Vtx 1, Vtx 2, Vtx 4], w_f0 = 0, w_df = 0,
          w_orient = [None, None, None, None], w_k = 2\<rparr>"
  unfolding locate_start_def inexact_result
  by (simp add: eval_nat_numeral real_start_def load_pv_def zero_stream_def stripped_mesh_def store_simps)

lemma exact_step1: "locate_steps 1 zero_stream stripped_mesh outside_point
     \<lparr>w_t = 0, w_pred = -1, w_pv = [Vtx 0, Vtx 1, Vtx 2, Vtx 4], w_f0 = 0, w_df = 0,
          w_orient = [None, None, None, None], w_k = 2\<rparr>
   = Some \<lparr>w_t = 1, w_pred = 0, w_pv = [Vtx 4, Vtx 1, Vtx 2, Vtx 3], w_f0 = 0, w_df = 0,
          w_orient = [Some NEGATIVE, None, None, None], w_k = 3\<rparr>"
  by (simp add: locate_step_def examined_facet_def load_pv_def zero_stream_def stripped_mesh_def outside_point_def store_simps sign_simps)

section \<open>The outcomes of the exact walk\<close>




lemma nonnegative_slot_simps [simp]:
  "nonnegative_slot (Some POSITIVE)" "nonnegative_slot (Some ZERO)"
  "\<not> nonnegative_slot (Some NEGATIVE)" "\<not> nonnegative_slot None"
  by (simp_all add: nonnegative_slot_def)







section \<open>A mesh with a duplicate vertex\<close>

lemma dup_p: "vertex_ptr duplicate_mesh 4 = Some (0, 0, 0)"
  by (simp add: duplicate_mesh_def store_simps)

lemma dup_inexact_start: "locate_inexact_start 10 zero_stream duplicate_mesh NO_TETRAHEDRON 2500 0 =
   Some (\<lparr>iw_t = 0, iw_pred = -1, iw_pv = [Vtx 0, Vtx 1, Vtx 2, Vtx 3], iw_f = 0, iw_max_iter = 2500\<rparr>, 1)"
  by (simp add: locate_inexact_start_def eval_nat_numeral real_start_def load_pv_def zero_stream_def duplicate_mesh_def store_simps)

lemma dup_inexact_steps: "locate_inexact_steps (Suc (Suc (Suc (Suc 0)))) exact_sign duplicate_mesh (Some (0, 0, 0))
    \<lparr>iw_t = 0, iw_pred = -1, iw_pv = [Vtx 0, Vtx 1, Vtx 2, Vtx 3], iw_f = 0, iw_max_iter = 2500\<rparr>
  = Some \<lparr>iw_t = 0, iw_pred = -1, iw_pv = [Vtx 0, Vtx 1, Vtx 2, Vtx 3], iw_f = 4, iw_max_iter = 2500\<rparr>"
  by (simp add: locate_inexact_step_def duplicate_mesh_def store_simps sign_simps)

section \<open>The conflict zone and the result of an insertion\<close>

lemma add_tet_to_list_ok:
  assumes "add_tet_to_list s t first lst = Some (s', first', lst')" "max_t s \<le> END_OF_LIST"
    "lst = END_OF_LIST \<or> (first \<noteq> END_OF_LIST \<and> lst \<noteq> END_OF_LIST)"
  shows "max_t s' \<le> END_OF_LIST \<and> first' \<noteq> END_OF_LIST \<and> lst' \<noteq> END_OF_LIST"
  using assms
  by (auto simp: add_tet_to_list_def set_at_def max_t_def bind_eq_Some_conv split: if_splits)

lemma mark_tet_max_t: "mark_tet s t = Some s' \<Longrightarrow> max_t s' = max_t s"
  by (auto simp: mark_tet_def set_at_def max_t_def bind_eq_Some_conv split: if_splits)

lemma find_conflict_zone_recursive_ok:
  "find_conflict_zone_recursive n C v t lfs z = Some z' \<Longrightarrow> zone_ok z \<Longrightarrow> zone_ok z'"
proof (induction n arbitrary: t lfs z z')
  case 0
  then show ?case by (cases lfs) simp_all
next
  case (Suc n)
  from Suc.prems show ?case
  proof (induction lfs arbitrary: z)
    case Nil
    then show ?case by simp
  next
    case (Cons lf lfs)
    from Cons.prems(1) obtain t2 in_list marked where
      r: "tet_adjacent (cz_s z) t lf = Some t2" "tet_is_in_list (cz_s z) t2 = Some in_list"
         "tet_is_marked (cz_s z) t2 = Some marked"
      and k: "(if in_list \<or> marked then find_conflict_zone_recursive (Suc n) C v t lfs z
           else do {
             conflict \<leftarrow> C (cz_s z) t2 v;
             if conflict then do {
               (s1, first, lst) \<leftarrow> add_tet_to_list (cz_s z) t2 (cz_first z) (cz_last z);
               z1 \<leftarrow> find_conflict_zone_recursive n C v t2 [0, 1, 2, 3]
                       (z\<lparr>cz_s := s1, cz_first := first, cz_last := lst\<rparr>);
               find_conflict_zone_recursive (Suc n) C v t lfs z1
             } else do {
               s1 \<leftarrow> mark_tet (cz_s z) t2;
               find_conflict_zone_recursive (Suc n) C v t lfs
                 (z\<lparr>cz_s := s1, cz_t_bndry := Some t, cz_f_bndry := Some lf\<rparr>)
             }
           }) = Some z'"
      by (auto simp: bind_eq_Some_conv)
    show ?case
    proof (cases "in_list \<or> marked")
      case True
      with k Cons.IH Cons.prems(2) show ?thesis by simp
    next
      case False
      with k obtain conflict where c: "C (cz_s z) t2 v = Some conflict"
        by (auto simp: bind_eq_Some_conv)
      show ?thesis
      proof (cases conflict)
        case True
        with k False c obtain s1 first lst z1 where
          a: "add_tet_to_list (cz_s z) t2 (cz_first z) (cz_last z) = Some (s1, first, lst)"
          and b: "find_conflict_zone_recursive n C v t2 [0, 1, 2, 3]
                       (z\<lparr>cz_s := s1, cz_first := first, cz_last := lst\<rparr>) = Some z1"
          and d: "find_conflict_zone_recursive (Suc n) C v t lfs z1 = Some z'"
          by (auto simp: bind_eq_Some_conv)
        from add_tet_to_list_ok[OF a] Cons.prems(2)
        have "zone_ok (z\<lparr>cz_s := s1, cz_first := first, cz_last := lst\<rparr>)"
          by (simp add: zone_ok_def)
        from Suc.IH[OF b this] Cons.IH[OF d] show ?thesis by simp
      next
        case nc: False
        with k False c obtain s1 where
          a: "mark_tet (cz_s z) t2 = Some s1"
          and d: "find_conflict_zone_recursive (Suc n) C v t lfs
                 (z\<lparr>cz_s := s1, cz_t_bndry := Some t, cz_f_bndry := Some lf\<rparr>) = Some z'"
          by (auto simp: bind_eq_Some_conv)
        from mark_tet_max_t[OF a] Cons.prems(2)
        have "zone_ok (z\<lparr>cz_s := s1, cz_t_bndry := Some t, cz_f_bndry := Some lf\<rparr>)"
          by (simp add: zone_ok_def)
        from Cons.IH[OF d this] show ?thesis .
      qed
    qed
  qed
qed

lemma add_zero_neighbors_ok:
  "add_zero_neighbors t os lfs z = Some z' \<Longrightarrow> zone_ok z \<Longrightarrow> zone_ok z'"
proof (induction lfs arbitrary: z)
  case Nil
  then show ?case by simp
next
  case (Cons lf lfs)
  show ?case
  proof (cases "os ! nat lf = ZERO")
    case True
    with Cons.prems obtain t2 s1 first lst where
      a: "add_tet_to_list (cz_s z) t2 (cz_first z) (cz_last z) = Some (s1, first, lst)"
      and b: "add_zero_neighbors t os lfs (z\<lparr>cz_s := s1, cz_first := first, cz_last := lst\<rparr>) = Some z'"
      by (auto simp: bind_eq_Some_conv)
    from add_tet_to_list_ok[OF a] Cons.prems(2)
    have "zone_ok (z\<lparr>cz_s := s1, cz_first := first, cz_last := lst\<rparr>)"
      by (simp add: zone_ok_def)
    from Cons.IH[OF b this] show ?thesis .
  next
    case False
    with Cons show ?thesis by simp
  qed
qed

lemma recurse_zero_neighbors_ok:
  "recurse_zero_neighbors n C v t os lfs z = Some z' \<Longrightarrow> zone_ok z \<Longrightarrow> zone_ok z'"
proof (induction lfs arbitrary: z)
  case Nil
  then show ?case by simp
next
  case (Cons lf lfs)
  show ?case
  proof (cases "os ! nat lf = ZERO")
    case True
    with Cons.prems obtain t2 z1 where
      a: "find_conflict_zone_recursive n C v t2 [0, 1, 2, 3] z = Some z1"
      and b: "recurse_zero_neighbors n C v t os lfs z1 = Some z'"
      by (auto simp: bind_eq_Some_conv)
    from find_conflict_zone_recursive_ok[OF a Cons.prems(2)] Cons.IH[OF b] show ?thesis by simp
  next
    case False
    with Cons show ?thesis by simp
  qed
qed

lemma seed_zero_facets_ok:
  assumes "seed_zero_facets fuel C v t os z = Some z'" "zone_ok z"
  shows "zone_ok z'"
proof (cases "\<not> weighted (cz_s z) \<and> nb_zero os \<noteq> 0")
  case True
  with assms obtain z2 where
    a: "add_zero_neighbors t os [0, 1, 2, 3] z = Some z2"
    and b: "recurse_zero_neighbors fuel C v t os [0, 1, 2, 3] z2 = Some z'"
    unfolding seed_zero_facets_def by (auto simp: bind_eq_Some_conv)
  from add_zero_neighbors_ok[OF a assms(2)] recurse_zero_neighbors_ok[OF b] show ?thesis by simp
next
  case False
  with assms show ?thesis unfolding seed_zero_facets_def by auto
qed

lemma max_t_stamp [simp]: "max_t (set_tet_mark_stamp s v) = max_t s"
  by (simp add: set_tet_mark_stamp_def max_t_def)

lemma find_conflict_zone_empty:
  assumes "read_orient orient = Some os" "weighted s \<longrightarrow> C (set_tet_mark_stamp s v) t v = Some c"
    "3 \<le> nb_zero os \<or> (weighted s \<and> \<not> c)"
  shows "find_conflict_zone fuel C s v t orient = Some (empty_zone s v)"
  using assms by (auto simp: find_conflict_zone_def Let_def)

lemma find_conflict_zone_nonempty:
  assumes "find_conflict_zone fuel C s v t orient = Some z" "max_t s \<le> END_OF_LIST"
    "read_orient orient = Some os" "weighted s \<longrightarrow> C (set_tet_mark_stamp s v) t v = Some c"
    "\<not> (3 \<le> nb_zero os \<or> (weighted s \<and> \<not> c))"
  shows "cz_first z \<noteq> END_OF_LIST"
  using assms(1)
proof (cases rule: find_conflict_zone_cases)
  case (duplicate os')
  with assms show ?thesis by simp
next
  case (dangling os')
  with assms show ?thesis by simp
next
  case (zone os' s2 first lst z3)
  from add_tet_to_list_ok[OF zone(4)] assms(2)
  have "zone_ok ((empty_zone s v)\<lparr>cz_s := s2, cz_first := first, cz_last := lst\<rparr>)"
    by (simp add: zone_ok_def)
  from seed_zero_facets_ok[OF zone(5) this] find_conflict_zone_recursive_ok[OF zone(6)]
  show ?thesis by (simp add: zone_ok_def)
qed

text \<open>C4. Let \<open>locate\<close> have returned the cell \<open>t\<close> with its four orientation signs, and let
  the number of cells be within the index range. If at least 3 of the 4 signs are \<open>ZERO\<close>,
  or if the mode is weighted and \<open>t\<close> is not in conflict with \<open>v\<close>, then the conflict zone is
  empty and \<open>insert\<close> returns \<open>NO_TETRAHEDRON\<close>; only the mark stamp has changed, so no cell
  was created and the vertex, neighbor and next stores are what they were. Otherwise the
  conflict zone is not empty, and whatever \<open>insert\<close> returns is a cell index, not
  \<open>NO_TETRAHEDRON\<close>.\<close>

theorem insert_no_hint_iff:
  assumes cap: "max_t s \<le> END_OF_LIST"
    and loc: "locate fuel ori_inexact rnd s (vertex_ptr s v) hint [None, None, None, None] k = Some (t, orient, k')"
    and ro: "read_orient orient = Some os"
    and cf: "weighted s \<longrightarrow> C (set_tet_mark_stamp s v) t v = Some c"
  shows "(3 \<le> nb_zero os \<or> (weighted s \<and> \<not> c) \<longrightarrow>
            find_conflict_zone fuel C s v t orient = Some (empty_zone s v) \<and>
            cz_first (empty_zone s v) = END_OF_LIST \<and>
            insert_vertex fuel C ori_inexact rnd s v hint k = Some (NO_TETRAHEDRON, set_tet_mark_stamp s v, k') \<and>
            cell_to_v_store (set_tet_mark_stamp s v) = cell_to_v_store s \<and>
            cell_to_cell_store (set_tet_mark_stamp s v) = cell_to_cell_store s \<and>
            cell_next (set_tet_mark_stamp s v) = cell_next s \<and>
            first_free (set_tet_mark_stamp s v) = first_free s \<and>
            max_t (set_tet_mark_stamp s v) = max_t s) \<and>
         (\<not> (3 \<le> nb_zero os \<or> (weighted s \<and> \<not> c)) \<longrightarrow>
            (\<forall>z. find_conflict_zone fuel C s v t orient = Some z \<longrightarrow> cz_first z \<noteq> END_OF_LIST) \<and>
            (\<forall>r s' k''. insert_vertex fuel C ori_inexact rnd s v hint k = Some (r, s', k'') \<longrightarrow>
                 r \<noteq> NO_TETRAHEDRON \<and> 0 \<le> r))"
proof (intro conjI impI allI)
  assume e: "3 \<le> nb_zero os \<or> (weighted s \<and> \<not> c)"
  show z: "find_conflict_zone fuel C s v t orient = Some (empty_zone s v)"
    by (rule find_conflict_zone_empty[where C = C and c = c, OF ro cf e])
  show "cz_first (empty_zone s v) = END_OF_LIST" by simp
  from loc z show "insert_vertex fuel C ori_inexact rnd s v hint k = Some (NO_TETRAHEDRON, set_tet_mark_stamp s v, k')"
    by (simp add: insert_vertex_def)
  show "cell_to_v_store (set_tet_mark_stamp s v) = cell_to_v_store s"
    "cell_to_cell_store (set_tet_mark_stamp s v) = cell_to_cell_store s"
    "cell_next (set_tet_mark_stamp s v) = cell_next s"
    "first_free (set_tet_mark_stamp s v) = first_free s"
    "max_t (set_tet_mark_stamp s v) = max_t s"
    by (simp_all add: set_tet_mark_stamp_def max_t_def)
next
  fix z
  assume ne: "\<not> (3 \<le> nb_zero os \<or> (weighted s \<and> \<not> c))"
    and z: "find_conflict_zone fuel C s v t orient = Some z"
  show "cz_first z \<noteq> END_OF_LIST"
    by (rule find_conflict_zone_nonempty[where C = C and c = c, OF z cap ro cf ne])
next
  fix r s' k''
  assume ne: "\<not> (3 \<le> nb_zero os \<or> (weighted s \<and> \<not> c))"
    and i: "insert_vertex fuel C ori_inexact rnd s v hint k = Some (r, s', k'')"
  from i have "0 \<le> r"
  proof (cases rule: insert_vertex_cases)
    case (noop t' orient' z)
    with loc have "find_conflict_zone fuel C s v t orient = Some z" by simp
    from find_conflict_zone_nonempty[where C = C and c = c, OF this cap ro cf ne] noop(3)
    show ?thesis by simp
  next
    case (inserted t' orient' z t_bndry f_bndry s1 ns)
    from stellate_conflict_zone_nonneg[OF inserted(6)] show ?thesis .
  qed
  then show "r \<noteq> NO_TETRAHEDRON" "0 \<le> r" by (simp_all add: NO_TETRAHEDRON_def)
qed

section \<open>Locating in the two meshes\<close>

lemma dup_inexact_result:
  "locate_inexact 10 exact_sign zero_stream duplicate_mesh (Some (0, 0, 0)) NO_TETRAHEDRON 2500 0 = Some (0, 1)"
proof -
  have "locate_inexact_run 10 exact_sign duplicate_mesh (Some (0, 0, 0))
      \<lparr>iw_t = 0, iw_pred = -1, iw_pv = [Vtx 0, Vtx 1, Vtx 2, Vtx 3], iw_f = 0, iw_max_iter = 2500\<rparr>
    = Some 0"
    by (rule locate_inexact_run_return[OF dup_inexact_steps])
       (simp_all add: locate_inexact_step_def)
  then show ?thesis
    unfolding locate_inexact_def dup_inexact_start by simp
qed

lemma dup_exact_start:
  "locate_start 10 exact_sign zero_stream duplicate_mesh (Some (0, 0, 0)) NO_TETRAHEDRON [None, None, None, None] 0 =
   Some \<lparr>w_t = 0, w_pred = -1, w_pv = [Vtx 0, Vtx 1, Vtx 2, Vtx 3], w_f0 = 0, w_df = 0,
          w_orient = [None, None, None, None], w_k = 2\<rparr>"
  unfolding locate_start_def dup_inexact_result
  by (simp add: real_start_def load_pv_def zero_stream_def duplicate_mesh_def store_simps)

lemma dup_exact_steps: "locate_steps (Suc (Suc (Suc (Suc 0)))) zero_stream duplicate_mesh (Some (0, 0, 0))
     \<lparr>w_t = 0, w_pred = -1, w_pv = [Vtx 0, Vtx 1, Vtx 2, Vtx 3], w_f0 = 0, w_df = 0,
          w_orient = [None, None, None, None], w_k = 2\<rparr>
   = Some \<lparr>w_t = 0, w_pred = -1, w_pv = [Vtx 0, Vtx 1, Vtx 2, Vtx 3], w_f0 = 0, w_df = 4,
          w_orient = [Some POSITIVE, Some ZERO, Some ZERO, Some ZERO], w_k = 2\<rparr>"
  by (simp add: locate_step_def examined_facet_def duplicate_mesh_def store_simps sign_simps)

lemma dup_locate:
  "locate 10 exact_sign zero_stream duplicate_mesh (vertex_ptr duplicate_mesh 4) NO_TETRAHEDRON
     [None, None, None, None] 0
   = Some (0, [Some POSITIVE, Some ZERO, Some ZERO, Some ZERO], 2)"
proof -
  have "locate_run 10 zero_stream duplicate_mesh (Some (0, 0, 0))
     \<lparr>w_t = 0, w_pred = -1, w_pv = [Vtx 0, Vtx 1, Vtx 2, Vtx 3], w_f0 = 0, w_df = 0,
          w_orient = [None, None, None, None], w_k = 2\<rparr>
   = Some (0, [Some POSITIVE, Some ZERO, Some ZERO, Some ZERO], 2)"
    by (rule locate_run_return[OF dup_exact_steps]) (simp_all add: locate_step_def)
  then show ?thesis
    unfolding locate_def dup_p dup_exact_start by simp
qed


section \<open>An insertion inside the first tetrahedron\<close>

lemma first_zone_eval:
  "find_conflict_zone 10 only_cell0 first_mesh 4 0 [Some POSITIVE, Some POSITIVE, Some POSITIVE, Some POSITIVE]
   = Some first_zone"
  by (simp add: find_conflict_zone_def empty_zone_def seed_zero_facets_def read_orient_def nb_zero_def
      set_tet_mark_stamp_def add_tet_to_list_def eval_nat_numeral only_cell0_def mark_tet_def tet_is_marked_def
      first_zone_def first_mesh_def store_simps set_at_def END_OF_LIST_def Let_def)

lemmas stellate_simps = new_tetrahedron_def set_tet_vertex_def set_tet_adjacent_def find_tet_adjacent_def
  find_tet_vertex_def find_4_def get_facet_by_halfedge_def get_facets_by_halfedge_def halfedge_facet_at_def
  halfedge_facet_def halfedge_facet_table_def set_at_def NOT_IN_LIST_def END_OF_LIST_def

lemma first_stellate:
  "stellate_conflict_zone 10 (cz_s first_zone) 4 0 3 (-1) =
   Some (5, star_mesh\<lparr>first_free := END_OF_LIST\<rparr>)"
  by (simp add: eval_nat_numeral first_zone_def first_mesh_def star_mesh_def stellate_simps store_simps)


lemma inner_quad: "first_quadruple (plain_object\<lparr>nb_vertices := 5, vertices := inner_points, reorder := [0, 1, 2, 3, 4]\<rparr>)
   = Some (Some (0, 1, 2, 3))"
  by (simp add: first_quadruple_def scan_identical.simps scan_colinear.simps scan_coplanar.simps
      plain_object_def inner_points_def vertex_ptr_def vertex_stride_def get_at_def
      points_are_identical_def points_are_colinear_def orient_3d_def orient_3d_Delta_def det3x3_def geo_sgn_def
      q000_def q001_def q010_def q100_def)

lemma inner_first: "create_first_tetrahedron (plain_object\<lparr>nb_vertices := 5, vertices := inner_points, reorder := [0, 1, 2, 3, 4]\<rparr>)
   = Some (Some (0, 1, 2, 3), first_mesh)"
  unfolding create_first_tetrahedron_def inner_quad
  by (simp add: first_cells_explicit plain_object_def first_mesh_def inner_points_def)

lemma first_p: "vertex_ptr first_mesh 4 = Some (1, 1, 1)"
  by (simp add: first_mesh_def store_simps)

lemma first_inexact_start: "locate_inexact_start 10 zero_stream first_mesh NO_TETRAHEDRON 2500 0 =
   Some (\<lparr>iw_t = 0, iw_pred = -1, iw_pv = [Vtx 0, Vtx 1, Vtx 2, Vtx 3], iw_f = 0, iw_max_iter = 2500\<rparr>, 1)"
  by (simp add: locate_inexact_start_def eval_nat_numeral real_start_def load_pv_def zero_stream_def first_mesh_def store_simps)

lemma first_inexact_steps: "locate_inexact_steps (Suc (Suc (Suc (Suc 0)))) exact_sign first_mesh (Some (1, 1, 1))
    \<lparr>iw_t = 0, iw_pred = -1, iw_pv = [Vtx 0, Vtx 1, Vtx 2, Vtx 3], iw_f = 0, iw_max_iter = 2500\<rparr>
  = Some \<lparr>iw_t = 0, iw_pred = -1, iw_pv = [Vtx 0, Vtx 1, Vtx 2, Vtx 3], iw_f = 4, iw_max_iter = 2500\<rparr>"
  by (simp add: locate_inexact_step_def first_mesh_def store_simps sign_simps)

lemma first_inexact_result:
  "locate_inexact 10 exact_sign zero_stream first_mesh (Some (1, 1, 1)) NO_TETRAHEDRON 2500 0 = Some (0, 1)"
proof -
  have "locate_inexact_run 10 exact_sign first_mesh (Some (1, 1, 1))
      \<lparr>iw_t = 0, iw_pred = -1, iw_pv = [Vtx 0, Vtx 1, Vtx 2, Vtx 3], iw_f = 0, iw_max_iter = 2500\<rparr>
    = Some 0"
    by (rule locate_inexact_run_return[OF first_inexact_steps])
       (simp_all add: locate_inexact_step_def)
  then show ?thesis
    unfolding locate_inexact_def first_inexact_start by simp
qed

lemma first_exact_start:
  "locate_start 10 exact_sign zero_stream first_mesh (Some (1, 1, 1)) NO_TETRAHEDRON [None, None, None, None] 0 =
   Some \<lparr>w_t = 0, w_pred = -1, w_pv = [Vtx 0, Vtx 1, Vtx 2, Vtx 3], w_f0 = 0, w_df = 0,
          w_orient = [None, None, None, None], w_k = 2\<rparr>"
  unfolding locate_start_def first_inexact_result
  by (simp add: real_start_def load_pv_def zero_stream_def first_mesh_def store_simps)

lemma first_exact_steps: "locate_steps (Suc (Suc (Suc (Suc 0)))) zero_stream first_mesh (Some (1, 1, 1))
     \<lparr>w_t = 0, w_pred = -1, w_pv = [Vtx 0, Vtx 1, Vtx 2, Vtx 3], w_f0 = 0, w_df = 0,
          w_orient = [None, None, None, None], w_k = 2\<rparr>
   = Some \<lparr>w_t = 0, w_pred = -1, w_pv = [Vtx 0, Vtx 1, Vtx 2, Vtx 3], w_f0 = 0, w_df = 4,
          w_orient = [Some POSITIVE, Some POSITIVE, Some POSITIVE, Some POSITIVE], w_k = 2\<rparr>"
  by (simp add: locate_step_def examined_facet_def first_mesh_def store_simps sign_simps)

lemma first_locate:
  "locate 10 exact_sign zero_stream first_mesh (vertex_ptr first_mesh 4) NO_TETRAHEDRON
     [None, None, None, None] 0
   = Some (0, [Some POSITIVE, Some POSITIVE, Some POSITIVE, Some POSITIVE], 2)"
proof -
  have "locate_run 10 zero_stream first_mesh (Some (1, 1, 1))
     \<lparr>w_t = 0, w_pred = -1, w_pv = [Vtx 0, Vtx 1, Vtx 2, Vtx 3], w_f0 = 0, w_df = 0,
          w_orient = [None, None, None, None], w_k = 2\<rparr>
   = Some (0, [Some POSITIVE, Some POSITIVE, Some POSITIVE, Some POSITIVE], 2)"
    by (rule locate_run_return[OF first_exact_steps]) (simp_all add: locate_step_def)
  then show ?thesis
    unfolding locate_def first_p first_exact_start by simp
qed

lemma first_insert:
  "insert_vertex 10 only_cell0 exact_sign zero_stream first_mesh 4 NO_TETRAHEDRON 0 = Some (5, star_mesh, 2)"
proof -
  have z: "cz_first first_zone = 0" "cz_last first_zone = 0" "cz_t_bndry first_zone = Some 0"
    "cz_f_bndry first_zone = Some 3"
    by (simp_all add: first_zone_def)
  have n: "set_at (cell_next star_mesh) 0 2147483647 = Some (cell_next star_mesh)"
    by (simp add: star_mesh_def set_at_def)
  have e: "star_mesh\<lparr>cell_next := cell_next star_mesh, first_free := 0\<rparr> = star_mesh"
    "star_mesh\<lparr>first_free := 0\<rparr> = star_mesh"
    by (simp_all add: star_mesh_def first_mesh_def)
  show ?thesis
    unfolding insert_vertex_def first_locate
    by (simp add: first_zone_eval z first_stellate n e END_OF_LIST_def)
qed




section \<open>The three results on the example meshes\<close>



theorem unset_neighbor_not_found_witness:
  "locate_start 10 exact_sign zero_stream stripped_mesh outside_point 0 [None, None, None, None] 0
     = Some located_walk \<and>
   locate_steps 1 zero_stream stripped_mesh outside_point located_walk = Some crossed_walk \<and>
   w_df crossed_walk < 4 \<and>
   tet_adjacent stripped_mesh (w_t crossed_walk) (int (examined_facet crossed_walk)) = Some (-1) \<and>
   (1::nat) < 10 \<and>
   locate 10 exact_sign zero_stream stripped_mesh outside_point 0 [None, None, None, None] 0
     = Some (NO_TETRAHEDRON, w_orient crossed_walk, w_k crossed_walk) \<and>
   locate_inexact_start 10 zero_stream stripped_mesh 0 2500 0 = Some (located_iwalk, 0) \<and>
   locate_inexact_steps 1 exact_sign stripped_mesh outside_point located_iwalk = Some crossed_iwalk \<and>
   iw_f crossed_iwalk < 4 \<and>
   tet_adjacent stripped_mesh (iw_t crossed_iwalk) (int (iw_f crossed_iwalk)) = Some (-1) \<and>
   locate_inexact 10 exact_sign zero_stream stripped_mesh outside_point 0 2500 0 = Some (NO_TETRAHEDRON, 0)"
proof -
  have a: "locate_start 10 exact_sign zero_stream stripped_mesh outside_point 0 [None, None, None, None] 0
     = Some located_walk"
    using exact_start by (simp add: located_walk_def)
  have b: "locate_steps 1 zero_stream stripped_mesh outside_point located_walk = Some crossed_walk"
    using exact_step1 by (simp add: located_walk_def crossed_walk_def)
  have c: "w_df crossed_walk < 4"
    "tet_adjacent stripped_mesh (w_t crossed_walk) (int (examined_facet crossed_walk)) = Some (-1)"
    by (simp_all add: crossed_walk_def examined_facet_def stripped_mesh_def tet_adjacent_def get_at_def)
  have d: "(1::nat) < 10" by simp
  have e: "locate_inexact_start 10 zero_stream stripped_mesh 0 2500 0 = Some (located_iwalk, 0)"
    using inexact_start by (simp add: located_iwalk_def)
  have f: "locate_inexact_steps 1 exact_sign stripped_mesh outside_point located_iwalk = Some crossed_iwalk"
    using inexact_step1 by (simp add: located_iwalk_def crossed_iwalk_def)
  have g: "iw_f crossed_iwalk < 4"
    "tet_adjacent stripped_mesh (iw_t crossed_iwalk) (int (iw_f crossed_iwalk)) = Some (-1)"
    by (simp_all add: crossed_iwalk_def stripped_mesh_def tet_adjacent_def get_at_def)
  note T = unset_neighbor_not_found[where fuel = 10 and ori_inexact = exact_sign and rnd = zero_stream
      and s = stripped_mesh and p = outside_point and hint = 0 and orient = "[None, None, None, None]"
      and k = 0 and ?w0.0 = located_walk and n = 1 and w = crossed_walk and max_iter = 2500
      and ?iw0.0 = located_iwalk and ?k1.0 = 0 and iw = crossed_iwalk]
  from T[THEN conjunct1, rule_format, OF conjI, OF a conjI, OF b conjI, OF c(1) conjI, OF c(2) d]
  have h: "locate 10 exact_sign zero_stream stripped_mesh outside_point 0 [None, None, None, None] 0
     = Some (NO_TETRAHEDRON, w_orient crossed_walk, w_k crossed_walk)" .
  from T[THEN conjunct2, rule_format, OF conjI, OF e conjI, OF f conjI, OF g(1) conjI, OF g(2) d]
  have i: "locate_inexact 10 exact_sign zero_stream stripped_mesh outside_point 0 2500 0 = Some (NO_TETRAHEDRON, 0)" .
  from a b c d h e f g i show ?thesis by (intro conjI)
qed

lemma dup_init: "set_vertices_init [] plain_object 5 duplicate_points =
   Some (plain_object\<lparr>nb_vertices := 5, vertices := duplicate_points, reorder := [0, 1, 2, 3, 4]\<rparr>)"
  by (simp add: set_vertices_init_def plain_object_def Let_def upto.simps)

lemma dup_quad: "first_quadruple (plain_object\<lparr>nb_vertices := 5, vertices := duplicate_points, reorder := [0, 1, 2, 3, 4]\<rparr>)
   = Some (Some (0, 1, 2, 3))"
  by (simp add: first_quadruple_def scan_identical.simps scan_colinear.simps scan_coplanar.simps
      plain_object_def duplicate_points_def vertex_ptr_def vertex_stride_def get_at_def geometry_simps)

lemma dup_first: "create_first_tetrahedron (plain_object\<lparr>nb_vertices := 5, vertices := duplicate_points, reorder := [0, 1, 2, 3, 4]\<rparr>)
   = Some (Some (0, 1, 2, 3), duplicate_mesh)"
  unfolding create_first_tetrahedron_def dup_quad
  by (simp add: first_cells_explicit plain_object_def duplicate_mesh_def duplicate_points_def)

theorem insert_no_hint_iff_witness:
  "create_first_tetrahedron (plain_object\<lparr>nb_vertices := 5, vertices := duplicate_points, reorder := [0, 1, 2, 3, 4]\<rparr>)
     = Some (Some (0, 1, 2, 3), duplicate_mesh) \<and>
   max_t duplicate_mesh \<le> END_OF_LIST \<and>
   locate 10 exact_sign zero_stream duplicate_mesh (vertex_ptr duplicate_mesh 4) NO_TETRAHEDRON
     [None, None, None, None] 0 = Some (0, [Some POSITIVE, Some ZERO, Some ZERO, Some ZERO], 2) \<and>
   read_orient [Some POSITIVE, Some ZERO, Some ZERO, Some ZERO] = Some [POSITIVE, ZERO, ZERO, ZERO] \<and>
   3 \<le> nb_zero [POSITIVE, ZERO, ZERO, ZERO] \<and>
   insert_vertex 10 only_cell0 exact_sign zero_stream duplicate_mesh 4 NO_TETRAHEDRON 0
     = Some (NO_TETRAHEDRON, set_tet_mark_stamp duplicate_mesh 4, 2) \<and>
   cell_to_v_store (set_tet_mark_stamp duplicate_mesh 4) = cell_to_v_store duplicate_mesh \<and>
   cell_to_cell_store (set_tet_mark_stamp duplicate_mesh 4) = cell_to_cell_store duplicate_mesh \<and>
   create_first_tetrahedron (plain_object\<lparr>nb_vertices := 5, vertices := inner_points, reorder := [0, 1, 2, 3, 4]\<rparr>)
     = Some (Some (0, 1, 2, 3), first_mesh) \<and>
   max_t first_mesh \<le> END_OF_LIST \<and>
   locate 10 exact_sign zero_stream first_mesh (vertex_ptr first_mesh 4) NO_TETRAHEDRON
     [None, None, None, None] 0 = Some (0, [Some POSITIVE, Some POSITIVE, Some POSITIVE, Some POSITIVE], 2) \<and>
   read_orient [Some POSITIVE, Some POSITIVE, Some POSITIVE, Some POSITIVE]
     = Some [POSITIVE, POSITIVE, POSITIVE, POSITIVE] \<and>
   \<not> (3 \<le> nb_zero [POSITIVE, POSITIVE, POSITIVE, POSITIVE] \<or> (weighted first_mesh \<and> \<not> True)) \<and>
   find_conflict_zone 10 only_cell0 first_mesh 4 0 [Some POSITIVE, Some POSITIVE, Some POSITIVE, Some POSITIVE]
     = Some first_zone \<and>
   cz_first first_zone \<noteq> END_OF_LIST \<and>
   insert_vertex 10 only_cell0 exact_sign zero_stream first_mesh 4 NO_TETRAHEDRON 0 = Some (5, star_mesh, 2) \<and>
   (5::int) \<noteq> NO_TETRAHEDRON"
proof -
  have cap: "max_t duplicate_mesh \<le> END_OF_LIST" "max_t first_mesh \<le> END_OF_LIST"
    by (simp_all add: max_t_def duplicate_mesh_def first_mesh_def END_OF_LIST_def)
  have ro: "read_orient [Some POSITIVE, Some ZERO, Some ZERO, Some ZERO] = Some [POSITIVE, ZERO, ZERO, ZERO]"
    "read_orient [Some POSITIVE, Some POSITIVE, Some POSITIVE, Some POSITIVE]
     = Some [POSITIVE, POSITIVE, POSITIVE, POSITIVE]"
    by (simp_all add: read_orient_def get_at_def)
  have nz: "3 \<le> nb_zero [POSITIVE, ZERO, ZERO, ZERO]"
    "\<not> (3 \<le> nb_zero [POSITIVE, POSITIVE, POSITIVE, POSITIVE] \<or> (weighted first_mesh \<and> \<not> True))"
    by (simp_all add: nb_zero_def)
  have cf: "weighted duplicate_mesh \<longrightarrow> only_cell0 (set_tet_mark_stamp duplicate_mesh 4) 0 4 = Some True"
    "weighted first_mesh \<longrightarrow> only_cell0 (set_tet_mark_stamp first_mesh 4) 0 4 = Some True"
    by (simp_all add: only_cell0_def)
  note D = insert_no_hint_iff[where C = only_cell0 and c = True, OF cap(1) dup_locate ro(1) cf(1)]
  note F = insert_no_hint_iff[where C = only_cell0 and c = True, OF cap(2) first_locate ro(2) cf(2)]
  note D1 = D[THEN conjunct1, rule_format, OF disjI1, OF nz(1)]
  from D1 have d: "insert_vertex 10 only_cell0 exact_sign zero_stream duplicate_mesh 4 NO_TETRAHEDRON 0
     = Some (NO_TETRAHEDRON, set_tet_mark_stamp duplicate_mesh 4, 2)"
    "cell_to_v_store (set_tet_mark_stamp duplicate_mesh 4) = cell_to_v_store duplicate_mesh"
    "cell_to_cell_store (set_tet_mark_stamp duplicate_mesh 4) = cell_to_cell_store duplicate_mesh"
    by simp_all
  note F2 = F[THEN conjunct2, rule_format, OF nz(2)]
  from F2[THEN conjunct1, rule_format, OF first_zone_eval]
  have f1: "cz_first first_zone \<noteq> END_OF_LIST" .
  from F2[THEN conjunct2, rule_format, OF first_insert]
  have f2: "(5::int) \<noteq> NO_TETRAHEDRON" by simp
  from dup_first cap(1) dup_locate ro(1) nz(1) d inner_first cap(2) first_locate ro(2) nz(2)
    first_zone_eval f1 first_insert f2
  show ?thesis by (intro conjI)
qed

end
